(* ===== verification/Prelude.thy ===== *)
theory Prelude
  imports Main "HOL-Library.Word" "HOL-Library.State_Monad"
begin

text \<open>
  Shared vocabulary of the development: the C integer types of
  \<^verbatim>\<open>src/src/driver/defines.h\<close>, the byte-order and bit helpers the drivers use, C arrays
  as lists with an explicit out-of-bounds result, and a small Hoare logic for the state
  monad of \<open>HOL-Library.State_Monad\<close> in which the code that talks to the reader is
  written.  The collection \<open>vcg\<close> holds the rules of that logic; \<open>c_simps\<close> holds the
  rewriting rules on bytes and buffers.
\<close>

unbundle bit_operations_syntax

named_theorems c_simps \<open>rewriting rules on bytes, words and buffers\<close>
named_theorems vcg \<open>Hoare rules of the state monad\<close>

section \<open>Integer types\<close>

text \<open>
  \<open>BYTE\<close> is an 8-bit word.  C's \<open>unsigned short\<close>, \<open>unsigned\<close> and
  \<open>unsigned long\<close> are natural numbers, and a narrowing assignment is written out with
  the functions below.
\<close>

type_synonym byte = "8 word"

abbreviation ushort :: "nat \<Rightarrow> nat" where
  "ushort n \<equiv> n mod 65536"

abbreviation uint32 :: "nat \<Rightarrow> nat" where
  "uint32 n \<equiv> n mod 4294967296"

text \<open>The conversion of an \<open>unsigned long\<close> to \<open>int\<close>: the low 32 bits, signed.\<close>

definition int32 :: "nat \<Rightarrow> int" where
  "int32 n = (if uint32 n < 2147483648 then int (uint32 n) else int (uint32 n) - 4294967296)"

lemma int32_small: "n < 2147483648 \<Longrightarrow> int32 n = int n"
  by (simp add: int32_def)

definition low_byte :: "nat \<Rightarrow> byte" where
  "low_byte n = of_nat n"

definition high_byte :: "nat \<Rightarrow> byte" where
  "high_byte n = of_nat (n div 256)"

text \<open>The big-endian 16-bit value of two bytes, \<open>(hi << 8) | lo\<close>.\<close>

definition be16 :: "byte \<Rightarrow> byte \<Rightarrow> nat" where
  "be16 hi lo = unat (push_bit 8 (ucast hi) OR ucast lo :: 16 word)"

text \<open>The macro \<open>INVERT_BYTE\<close>: bit 7 becomes bit 0 and so on.\<close>

definition INVERT_BYTE :: "byte \<Rightarrow> byte" where
  "INVERT_BYTE a =
     (push_bit 7 a AND 0x80) OR
     (push_bit 5 a AND 0x40) OR
     (push_bit 3 a AND 0x20) OR
     (push_bit 1 a AND 0x10) OR
     (drop_bit 1 a AND 0x08) OR
     (drop_bit 3 a AND 0x04) OR
     (drop_bit 5 a AND 0x02) OR
     (drop_bit 7 a AND 0x01)"

text \<open>The exclusive or of a run of bytes, the shape of every longitudinal check code.\<close>

fun xor_bytes :: "byte list \<Rightarrow> byte" where
  "xor_bytes [] = 0"
| "xor_bytes (b # bs) = b XOR xor_bytes bs"

section \<open>Bytes and words\<close>

lemma unat_byte_less [simp]: "unat (b :: byte) < 256"
  using unsigned_less [of b] by simp

lemma unat_byte_le [simp]: "unat (b :: byte) \<le> 255"
  using unat_byte_less [of b] by linarith

lemma unat_low_byte [c_simps]: "unat (low_byte n) = n mod 256"
  by (simp add: low_byte_def unat_of_nat)

lemma unat_high_byte [c_simps]: "unat (high_byte n) = n div 256 mod 256"
  by (simp add: high_byte_def unat_of_nat)

lemma byte_high_bit: "bit (b :: byte) n \<Longrightarrow> n < 8"
  using bit_imp_le_length [of b n] by simp

lemma be16_eq: "be16 hi lo = unat hi * 256 + unat lo"
proof -
  have disjoint: "(push_bit 8 (ucast hi) OR ucast lo :: 16 word) = push_bit 8 (ucast hi) + ucast lo"
    by (rule disjunctive_add [symmetric]) (auto simp: bit_simps dest: byte_high_bit)
  have small: "ushort (unat hi) = unat hi" "ushort (unat hi * 256) = unat hi * 256"
    using unat_byte_less [of hi] by (intro mod_less, linarith)+
  have "unat (push_bit 8 (ucast hi) :: 16 word) = unat hi * 256"
    by (simp add: push_bit_eq_mult unat_word_ariths unsigned_ucast_eq take_bit_eq_mod small)
  moreover have "unat (ucast lo :: 16 word) = unat lo"
    using order.strict_trans [OF unat_byte_less [of lo], of 65536] by (simp add: unsigned_ucast_eq take_bit_eq_mod)
  moreover have "unat hi * 256 + unat lo < 65536"
    using unat_byte_less [of hi] unat_byte_less [of lo] by linarith
  ultimately show ?thesis
    by (simp add: be16_def disjoint unat_word_ariths)
qed

lemma be16_less: "be16 hi lo < 65536"
  unfolding be16_eq using unat_byte_less [of hi] unat_byte_less [of lo] by linarith

lemma be16_split [c_simps]: "be16 (high_byte n) (low_byte n) = n mod 65536"
proof -
  have "n mod (256 * 256) = 256 * (n div 256 mod 256) + n mod 256"
    by (rule mod_mult2_eq)
  then show ?thesis by (simp add: be16_eq unat_high_byte unat_low_byte)
qed

lemma high_byte_be16 [c_simps]: "high_byte (be16 hi lo) = hi"
  using unat_byte_less [of lo] by (simp add: high_byte_def be16_eq)

lemma low_byte_be16 [c_simps]: "low_byte (be16 hi lo) = lo"
  by (simp add: word_unat_eq_iff unat_low_byte be16_eq)

lemma low_byte_unat [c_simps]: "low_byte (unat b) = b"
  by (simp add: low_byte_def)

lemma mod_le_self: "n \<le> m \<Longrightarrow> 0 < n mod m \<Longrightarrow> n mod m = (n :: nat)"
  by (cases "n = m") auto

lemma mod_le_zero: "n \<le> m \<Longrightarrow> n mod m = 0 \<Longrightarrow> 0 < n \<Longrightarrow> n = (m :: nat)"
  by (cases "n = m") auto

lemma low_byte_eq_0_iff: "low_byte n = 0 \<longleftrightarrow> n mod 256 = 0"
  using unat_low_byte [of n] by (metis unat_eq_zero)

lemma less_8_cases: "(n :: nat) < 8 \<longleftrightarrow> n \<in> {0, 1, 2, 3, 4, 5, 6, 7}"
  by auto

lemma bit_INVERT_BYTE: "n < 8 \<Longrightarrow> bit (INVERT_BYTE a) n \<longleftrightarrow> bit a (7 - n)"
  unfolding less_8_cases INVERT_BYTE_def
  by (elim insertE emptyE) (simp_all add: bit_simps mult.commute [of a 2])

lemma INVERT_BYTE_involution [simp]: "INVERT_BYTE (INVERT_BYTE a) = a"
  by (rule bit_word_eqI) (simp add: bit_INVERT_BYTE)

lemma xor_bytes_append [simp]: "xor_bytes (xs @ ys) = xor_bytes xs XOR xor_bytes ys"
  by (induction xs) (simp_all add: xor.assoc)

section \<open>C arrays\<close>

text \<open>
  An array is a list of its current contents.  \<open>memcpy_at\<close> copies a run of bytes to
  \<open>dst + off\<close> and is \<open>None\<close> when the copy would leave the array; \<open>bytes_at\<close> reads
  a run and is \<open>None\<close> when it would.
\<close>

definition memcpy_at :: "'a list \<Rightarrow> nat \<Rightarrow> 'a list \<Rightarrow> 'a list option" where
  "memcpy_at dst off src =
     (if off + length src \<le> length dst
      then Some (take off dst @ src @ drop (off + length src) dst) else None)"

definition bytes_at :: "'a list \<Rightarrow> nat \<Rightarrow> nat \<Rightarrow> 'a list option" where
  "bytes_at xs off n = (if off + n \<le> length xs then Some (take n (drop off xs)) else None)"

lemma length_memcpy_at: "memcpy_at dst off src = Some dst' \<Longrightarrow> length dst' = length dst"
  by (auto simp: memcpy_at_def split: if_splits)

lemma memcpy_at_eq_Some_iff:
  "memcpy_at dst off src = Some dst' \<longleftrightarrow>
     off + length src \<le> length dst \<and> dst' = take off dst @ src @ drop (off + length src) dst"
  by (auto simp: memcpy_at_def)

lemma take_memcpy_at:
  "memcpy_at dst off src = Some dst' \<Longrightarrow> take (off + length src) dst' = take off dst @ src"
  by (auto simp: memcpy_at_eq_Some_iff)

lemma length_bytes_at: "bytes_at xs off n = Some ys \<Longrightarrow> length ys = n"
  by (auto simp: bytes_at_def split: if_splits)

lemma bytes_at_total: "off + n \<le> length xs \<Longrightarrow> \<exists>ys. bytes_at xs off n = Some ys \<and> length ys = n"
  by (auto simp: bytes_at_def)

lemma bytes_at_memcpy_at: "memcpy_at dst off src = Some dst' \<Longrightarrow> bytes_at dst' off (length src) = Some src"
  by (auto simp: memcpy_at_eq_Some_iff bytes_at_def)

text \<open>A message cut into segments of at most \<open>n\<close> bytes.\<close>

fun chunks :: "nat \<Rightarrow> 'a list \<Rightarrow> 'a list list" where
  "chunks n xs = (if xs = [] \<or> n = 0 then [] else take n xs # chunks n (drop n xs))"

declare chunks.simps [simp del]

lemma chunks_props: "0 < n \<Longrightarrow> concat (chunks n xs) = xs \<and> (\<forall>c \<in> set (chunks n xs). 0 < length c \<and> length c \<le> n)"
proof (induction n xs rule: chunks.induct)
  case (1 n xs)
  then show ?case by (cases "xs = []") (auto simp: chunks.simps [of n xs] chunks.simps [of n "[]"])
qed

lemma chunks_butlast: "0 < n \<Longrightarrow> \<forall>c \<in> set (butlast (chunks n xs)). length c = n"
proof (induction n xs rule: chunks.induct)
  case (1 n xs)
  have "chunks n (drop n xs) = []" if "length xs \<le> n" using that by (simp add: chunks.simps)
  then show ?case using 1 by (cases "length xs \<le> n") (auto simp: chunks.simps [of n xs])
qed

lemma chunks_drop: "i < length xs \<Longrightarrow> 0 < n \<Longrightarrow> chunks n (drop i xs) = take n (drop i xs) # chunks n (drop (i + n) xs)"
  by (subst chunks.simps) (auto simp: add.commute)

lemma chunks_Nil_iff: "0 < n \<Longrightarrow> chunks n xs = [] \<longleftrightarrow> xs = []"
  by (subst chunks.simps) simp

section \<open>A Hoare logic for the state monad\<close>

text \<open>
  \<open>valid P m Q\<close>: started in a state satisfying \<open>P\<close>, the computation \<open>m\<close> ends with
  a result and a state satisfying \<open>Q\<close>.  Computations of \<open>HOL-Library.State_Monad\<close> are
  total, so this is total correctness.  \<open>keeps I m\<close>: \<open>m\<close> preserves the invariant
  \<open>I\<close>.
\<close>

definition valid :: "('s \<Rightarrow> bool) \<Rightarrow> ('s, 'a) state \<Rightarrow> ('a \<Rightarrow> 's \<Rightarrow> bool) \<Rightarrow> bool" where
  "valid P m Q \<longleftrightarrow> (\<forall>s. P s \<longrightarrow> (case run_state m s of (a, s') \<Rightarrow> Q a s'))"

definition keeps :: "('s \<Rightarrow> bool) \<Rightarrow> ('s, 'a) state \<Rightarrow> bool" where
  "keeps I m \<longleftrightarrow> valid I m (\<lambda>_. I)"

lemma validI: "(\<And>s a s'. P s \<Longrightarrow> run_state m s = (a, s') \<Longrightarrow> Q a s') \<Longrightarrow> valid P m Q"
  by (auto simp: valid_def split: prod.split)

lemma validD: "valid P m Q \<Longrightarrow> P s \<Longrightarrow> run_state m s = (a, s') \<Longrightarrow> Q a s'"
  by (auto simp: valid_def)

lemma valid_conseq:
  "valid P' m Q' \<Longrightarrow> (\<And>s. P s \<Longrightarrow> P' s) \<Longrightarrow> (\<And>a s. Q' a s \<Longrightarrow> Q a s) \<Longrightarrow> valid P m Q"
  by (fastforce simp: valid_def split: prod.splits)

lemma valid_conj: "valid P m Q \<Longrightarrow> valid P m R \<Longrightarrow> valid P m (\<lambda>a s. Q a s \<and> R a s)"
  by (auto simp: valid_def split: prod.splits)

lemma valid_return [vcg]: "(\<And>s. P s \<Longrightarrow> Q a s) \<Longrightarrow> valid P (State_Monad.return a) Q"
  by (simp add: valid_def)

lemma valid_bind:
  "valid P m R \<Longrightarrow> (\<And>a. valid (R a) (f a) Q) \<Longrightarrow> valid P (State_Monad.bind m f) Q"
  by (fastforce simp: valid_def split: prod.splits)

lemma keepsI: "(\<And>s a s'. I s \<Longrightarrow> run_state m s = (a, s') \<Longrightarrow> I s') \<Longrightarrow> keeps I m"
  unfolding keeps_def by (rule validI)

lemma keepsD: "keeps I m \<Longrightarrow> run_state m s = (a, s') \<Longrightarrow> I s \<Longrightarrow> I s'"
  unfolding keeps_def by (rule validD)

lemma keeps_return [vcg]: "keeps I (State_Monad.return a)"
  by (simp add: keeps_def valid_def)

lemma keeps_bind [vcg]: "keeps I m \<Longrightarrow> (\<And>a. keeps I (f a)) \<Longrightarrow> keeps I (State_Monad.bind m f)"
  unfolding keeps_def by (rule valid_bind)

lemma keeps_if [vcg]: "(c \<Longrightarrow> keeps I m) \<Longrightarrow> (\<not> c \<Longrightarrow> keeps I n) \<Longrightarrow> keeps I (if c then m else n)"
  by simp

lemma keeps_case_option [vcg]:
  "(x = None \<Longrightarrow> keeps I m) \<Longrightarrow> (\<And>a. x = Some a \<Longrightarrow> keeps I (f a)) \<Longrightarrow>
   keeps I (case x of None \<Rightarrow> m | Some a \<Rightarrow> f a)"
  by (cases x) simp_all

lemma keeps_case_prod [vcg]: "(\<And>a b. x = (a, b) \<Longrightarrow> keeps I (f a b)) \<Longrightarrow> keeps I (case x of (a, b) \<Rightarrow> f a b)"
  by (cases x) simp

lemma keeps_let [vcg]: "(\<And>y. y = x \<Longrightarrow> keeps I (f y)) \<Longrightarrow> keeps I (let y = x in f y)"
  by simp

lemma keeps_conj: "keeps I m \<Longrightarrow> keeps J m \<Longrightarrow> keeps (\<lambda>s. I s \<and> J s) m"
  by (auto simp: keeps_def valid_def split: prod.splits)

section \<open>Computations that may fail\<close>

text \<open>
  The C idiom \<open>if (!step) return NULL;\<close>: the rest runs only on the result of a
  successful step.
\<close>

definition opt_bind :: "('s, 'a option) state \<Rightarrow> ('a \<Rightarrow> ('s, 'b option) state) \<Rightarrow> ('s, 'b option) state" where
  "opt_bind m f = do { r \<leftarrow> m; case r of None \<Rightarrow> State_Monad.return None | Some a \<Rightarrow> f a }"

lemma run_opt_bind [simp]:
  "run_state (opt_bind m f) s =
     (case run_state m s of (None, s') \<Rightarrow> (None, s') | (Some a, s') \<Rightarrow> run_state (f a) s')"
  by (simp add: opt_bind_def split: prod.split option.split)

lemma opt_bind_SomeE:
  assumes "run_state (opt_bind m f) s = (Some b, s')"
  obtains a s1 where "run_state m s = (Some a, s1)" "run_state (f a) s1 = (Some b, s')"
  using assms by (auto split: prod.splits option.splits)

lemma keeps_opt_bind [vcg]: "keeps I m \<Longrightarrow> (\<And>a. keeps I (f a)) \<Longrightarrow> keeps I (opt_bind m f)"
  unfolding opt_bind_def by (intro vcg) auto

text \<open>The data of an operation that returns a code on failure.\<close>

definition ok_bytes :: "('s, 'e + 'a) state \<Rightarrow> ('s, 'a option) state" where
  "ok_bytes m = do { r \<leftarrow> m; State_Monad.return (case r of Inl _ \<Rightarrow> None | Inr a \<Rightarrow> Some a) }"

lemma run_ok_bytes_Some: "run_state (ok_bytes m) s = (Some a, s') \<longleftrightarrow> run_state m s = (Inr a, s')"
  by (auto simp: ok_bytes_def split: prod.splits sum.splits)

end
