(* ===== verification/Interfaces.thy ===== *)
theory Interfaces
  imports Prelude
begin

text \<open>
  The contracts the layers of the driver rely on, as locales, with the consequences their
  clients use proved once.  \<open>exact_reader\<close> is the contract of every receive operation
  (serial port, interface device, card): a successful read of an admissible number
  \<open>n\<close> of bytes delivers exactly \<open>n\<close>.  \<open>byte_encoder\<close> and \<open>byte_codec\<close> are the contracts of the
  message formats: what the sender builds is what the accessors read back, and, for a
  codec, a message that parses is the encoding of what was parsed.
\<close>

locale exact_reader =
  fixes rd :: "nat \<Rightarrow> ('s, byte list option) state"
    and admissible :: "nat \<Rightarrow> bool"
  assumes rd_length: "admissible n \<Longrightarrow> run_state (rd n) s = (Some bs, s') \<Longrightarrow> length bs = n"
begin

lemma rd_single: "admissible (Suc 0) \<Longrightarrow> run_state (rd (Suc 0)) s = (Some bs, s') \<Longrightarrow> \<exists>b. bs = [b]"
  using rd_length by (fastforce simp: length_Suc_conv)

lemma rd_in_bounds:
  assumes "run_state (rd n) s = (Some bs, s')" "admissible n" and "off + n \<le> length buffer"
  shows "\<exists>buffer'. memcpy_at buffer off bs = Some buffer' \<and> length buffer' = length buffer"
  using assms by (auto simp: memcpy_at_def dest: rd_length)

lemma rd_valid: "admissible n \<Longrightarrow> valid (\<lambda>_. True) (rd n) (\<lambda>r _. \<forall>bs. r = Some bs \<longrightarrow> length bs = n)"
  by (auto intro!: validI dest: rd_length)

end

locale byte_encoder =
  fixes wf :: "'a \<Rightarrow> bool"
    and enc :: "'a \<Rightarrow> byte list"
    and dec :: "byte list \<Rightarrow> 'a option"
  assumes dec_enc: "wf x \<Longrightarrow> dec (enc x) = Some x"
begin

lemma enc_inj: "wf x \<Longrightarrow> wf y \<Longrightarrow> enc x = enc y \<Longrightarrow> x = y"
  by (metis dec_enc option.inject)

lemma inj_on_enc: "inj_on enc (Collect wf)"
  by (auto intro!: inj_onI enc_inj)

end

locale byte_codec = byte_encoder +
  assumes enc_dec: "dec bs = Some x \<Longrightarrow> wf x \<and> enc x = bs"
begin

lemma dec_eq_Some_iff: "dec bs = Some x \<longleftrightarrow> wf x \<and> bs = enc x"
  using dec_enc enc_dec by blast

lemma dec_unique: "dec bs = Some x \<Longrightarrow> dec bs' = Some x \<Longrightarrow> bs = bs'"
  using enc_dec by blast

end

end
