(* ===== verification/IoSerial.thy ===== *)
theory IoSerial
  imports Interfaces
begin

text \<open>
  The serial port, \<^verbatim>\<open>src/src/driver/io_serial.c\<close> and \<^verbatim>\<open>io_serial.h\<close>, in the Linux
  configuration (\<open>OS_LINUX\<close>, \<open>IO_ENABLE_USB\<close>, \<open>HAVE_POLL\<close>,
  \<open>HAVE_NANOSLEEP\<close>).  The operating system and the device behind the port are a
  parameter: a record \<open>os\<close> of the system calls the file makes, acting on an abstract
  device state \<open>'d\<close>.  The state of the monad is the \<open>IO_Serial\<close> structure (shared by
  pointer with every layer above) together with that device state.
\<close>

section \<open>The operating system interface\<close>

datatype speed =
  B0 | B50 | B75 | B110 | B134 | B150 | B200 | B300 | B600 | B1200 | B1800 | B2400 | B4800
  | B9600 | B19200 | B38400 | B57600 | B115200 | B230400 | B_other

datatype csize = CS5 | CS6 | CS7 | CS8

datatype modem_line = TIOCM_DTR | TIOCM_RTS

text \<open>The fields of \<open>struct termios\<close> the driver sets or reads.\<close>

record termios =
  c_ispeed :: speed
  c_ospeed :: speed
  c_csize :: csize
  PARENB :: bool
  PARODD :: bool
  CSTOPB :: bool
  CREAD :: bool
  HUPCL :: bool
  CLOCAL :: bool
  IGNPAR :: bool
  ICANON :: bool
  ECHO :: bool
  ISIG :: bool
  OPOST :: bool
  VMIN :: nat
  VTIME :: nat

text \<open>
  A failing call returns \<open>False\<close> or \<open>None\<close>; \<open>os_write\<close> returns the number of bytes
  written, negative on an error; \<open>os_poll_in\<close> and \<open>os_poll_out\<close> return whether the
  port became ready within the time limit.
\<close>

record 'd os =
  os_open :: "string \<Rightarrow> ('d, int) state"
  os_close :: "int \<Rightarrow> ('d, bool) state"
  os_tcgetattr :: "int \<Rightarrow> ('d, termios option) state"
  os_tcsetattr :: "int \<Rightarrow> termios \<Rightarrow> ('d, bool) state"
  os_tcflush :: "int \<Rightarrow> ('d, bool) state"
  os_tiocmget :: "int \<Rightarrow> ('d, (bool \<times> bool) option) state"
  os_tiocmbis :: "int \<Rightarrow> modem_line \<Rightarrow> ('d, bool) state"
  os_tiocmbic :: "int \<Rightarrow> modem_line \<Rightarrow> ('d, bool) state"
  os_poll_in :: "int \<Rightarrow> nat \<Rightarrow> ('d, bool) state"
  os_poll_out :: "int \<Rightarrow> nat \<Rightarrow> ('d, bool) state"
  os_read1 :: "int \<Rightarrow> ('d, byte option) state"
  os_write :: "int \<Rightarrow> byte list \<Rightarrow> ('d, int) state"
  os_nanosleep :: "nat \<Rightarrow> ('d, unit) state"

section \<open>Data\<close>

datatype io_parity = IO_SERIAL_PARITY_ODD | IO_SERIAL_PARITY_EVEN | IO_SERIAL_PARITY_NONE

datatype io_line = IO_SERIAL_HIGH | IO_SERIAL_LOW

definition IO_SERIAL_PNPID_SIZE :: nat where "IO_SERIAL_PNPID_SIZE = 256"
definition IO_SERIAL_FILENAME_LENGTH :: nat where "IO_SERIAL_FILENAME_LENGTH = 32"

record IO_Serial_Properties =
  input_bitrate :: nat
  output_bitrate :: nat
  bits :: nat
  stopbits :: nat
  parity :: io_parity
  dtr :: io_line
  rts :: io_line

record IO_Serial =
  fd :: int
  props :: "IO_Serial_Properties option"
  com :: nat
  PnP_id :: "byte list"
  PnP_id_size :: nat
  usbserial :: bool

record 'd port =
  p_io :: IO_Serial
  p_dev :: 'd

type_synonym ('d, 'a) io = "('d port, 'a) state"

text \<open>A system call, run on the device part of the state, and access to the structure.\<close>

definition syscall :: "('d, 'a) state \<Rightarrow> ('d, 'a) io" where
  "syscall m = State (\<lambda>p. case run_state m (p_dev p) of (a, d) \<Rightarrow> (a, p\<lparr>p_dev := d\<rparr>))"

definition get_io :: "('d, IO_Serial) io" where
  "get_io = State (\<lambda>p. (p_io p, p))"

definition modify_io :: "(IO_Serial \<Rightarrow> IO_Serial) \<Rightarrow> ('d, unit) io" where
  "modify_io f = State (\<lambda>p. ((), p\<lparr>p_io := f (p_io p)\<rparr>))"

lemma run_syscall [simp]:
  "run_state (syscall m) p = (case run_state m (p_dev p) of (a, d) \<Rightarrow> (a, p\<lparr>p_dev := d\<rparr>))"
  by (simp add: syscall_def)

lemma run_get_io [simp]: "run_state get_io p = (p_io p, p)"
  by (simp add: get_io_def)

lemma run_modify_io [simp]: "run_state (modify_io f) p = ((), p\<lparr>p_io := f (p_io p)\<rparr>)"
  by (simp add: modify_io_def)

section \<open>Internal functions\<close>

text \<open>The parameter is an \<open>int\<close>; the callers pass an \<open>unsigned long\<close>.\<close>

definition IO_Serial_Bitrate :: "int \<Rightarrow> speed" where
  "IO_Serial_Bitrate bitrate =
     (if bitrate \<ge> 230400 then B230400
      else if bitrate \<ge> 115200 then B115200
      else if bitrate \<ge> 57600 then B57600
      else if bitrate \<ge> 38400 then B38400
      else if bitrate \<ge> 19200 then B19200
      else if bitrate \<ge> 9600 then B9600
      else if bitrate \<ge> 4800 then B4800
      else if bitrate \<ge> 2400 then B2400
      else if bitrate \<ge> 1800 then B1800
      else if bitrate \<ge> 1200 then B1200
      else if bitrate \<ge> 600 then B600
      else if bitrate \<ge> 300 then B300
      else if bitrate \<ge> 200 then B200
      else if bitrate \<ge> 150 then B150
      else if bitrate \<ge> 134 then B134
      else if bitrate \<ge> 110 then B110
      else if bitrate \<ge> 75 then B75
      else if bitrate \<ge> 50 then B50
      else B0)"

text \<open>The two \<open>switch\<close> statements of \<open>IO_Serial_GetProperties\<close>, which are the same.\<close>

fun speed_bitrate :: "speed \<Rightarrow> nat" where
  "speed_bitrate B0 = 0"
| "speed_bitrate B50 = 50"
| "speed_bitrate B75 = 75"
| "speed_bitrate B110 = 110"
| "speed_bitrate B134 = 134"
| "speed_bitrate B150 = 150"
| "speed_bitrate B200 = 200"
| "speed_bitrate B300 = 300"
| "speed_bitrate B600 = 600"
| "speed_bitrate B1200 = 1200"
| "speed_bitrate B1800 = 1800"
| "speed_bitrate B2400 = 2400"
| "speed_bitrate B4800 = 4800"
| "speed_bitrate B9600 = 9600"
| "speed_bitrate B19200 = 19200"
| "speed_bitrate B38400 = 38400"
| "speed_bitrate B57600 = 57600"
| "speed_bitrate B115200 = 115200"
| "speed_bitrate B230400 = 230400"
| "speed_bitrate B_other = 1200"

definition IO_Serial_Clear :: IO_Serial where
  "IO_Serial_Clear =
     \<lparr>fd = -1, props = None, com = 0, PnP_id = replicate IO_SERIAL_PNPID_SIZE 0, PnP_id_size = 0,
      usbserial = False\<rparr>"

definition IO_Serial_New :: IO_Serial where
  "IO_Serial_New = IO_Serial_Clear"

definition IO_Serial_WaitToRead :: "'d os \<Rightarrow> int \<Rightarrow> nat \<Rightarrow> nat \<Rightarrow> ('d, bool) io" where
  "IO_Serial_WaitToRead os hnd delay_ms timeout_ms = do {
     _ \<leftarrow> (if delay_ms > 0 then syscall (os_nanosleep os delay_ms) else State_Monad.return ());
     syscall (os_poll_in os hnd timeout_ms) }"

definition IO_Serial_WaitToWrite :: "'d os \<Rightarrow> int \<Rightarrow> nat \<Rightarrow> nat \<Rightarrow> ('d, bool) io" where
  "IO_Serial_WaitToWrite os hnd delay_ms timeout_ms = do {
     _ \<leftarrow> (if delay_ms > 0 then syscall (os_nanosleep os delay_ms) else State_Monad.return ());
     syscall (os_poll_out os hnd timeout_ms) }"

definition IO_Serial_SetPropertiesCache :: "IO_Serial_Properties \<Rightarrow> ('d, unit) io" where
  "IO_Serial_SetPropertiesCache p = modify_io (\<lambda>io. io\<lparr>props := Some p\<rparr>)"

definition IO_Serial_GetPropertiesCache :: "('d, IO_Serial_Properties option) io" where
  "IO_Serial_GetPropertiesCache = do { io \<leftarrow> get_io; State_Monad.return (props io) }"

definition IO_Serial_ClearPropertiesCache :: "('d, unit) io" where
  "IO_Serial_ClearPropertiesCache = modify_io (\<lambda>io. io\<lparr>props := None\<rparr>)"

text \<open>\<open>snprintf\<close> with \<open>%d\<close>: the number is \<open>com - 1\<close> on an \<open>unsigned\<close>, printed signed.\<close>

fun decimal :: "nat \<Rightarrow> string" where
  "decimal n = (if n < 10 then [char_of (48 + n)] else decimal (n div 10) @ [char_of (48 + n mod 10)])"

declare decimal.simps [simp del]

definition IO_Serial_DeviceName :: "nat \<Rightarrow> bool \<Rightarrow> nat \<Rightarrow> string" where
  "IO_Serial_DeviceName com_nr usb len =
     take (len - 1) ((if usb then ''/dev/ttyUSB'' else ''/dev/ttyS'') @
                     (if com_nr = 0 then ''-1'' else decimal (com_nr - 1)))"

section \<open>Properties of the line\<close>

text \<open>The settings read from the device, and the \<open>termios\<close> built from settings.\<close>

definition termios_properties :: "termios \<Rightarrow> bool \<times> bool \<Rightarrow> IO_Serial_Properties" where
  "termios_properties tio mctl =
     \<lparr>input_bitrate = speed_bitrate (c_ispeed tio), output_bitrate = speed_bitrate (c_ospeed tio),
      bits = (case c_csize tio of CS5 \<Rightarrow> 5 | CS6 \<Rightarrow> 6 | CS7 \<Rightarrow> 7 | CS8 \<Rightarrow> 8),
      stopbits = (if CSTOPB tio then 2 else 1),
      parity = (if PARENB tio then if PARODD tio then IO_SERIAL_PARITY_ODD else IO_SERIAL_PARITY_EVEN
                else IO_SERIAL_PARITY_NONE),
      dtr = (if fst mctl then IO_SERIAL_HIGH else IO_SERIAL_LOW),
      rts = (if snd mctl then IO_SERIAL_HIGH else IO_SERIAL_LOW)\<rparr>"

definition properties_termios :: "IO_Serial_Properties \<Rightarrow> termios" where
  "properties_termios p =
     \<lparr>c_ispeed = IO_Serial_Bitrate (int32 (input_bitrate p)), c_ospeed = IO_Serial_Bitrate (int32 (output_bitrate p)),
      c_csize = (if bits p = 6 then CS6 else if bits p = 7 then CS7 else if bits p = 8 then CS8 else CS5),
      PARENB = (parity p \<noteq> IO_SERIAL_PARITY_NONE), PARODD = (parity p = IO_SERIAL_PARITY_ODD),
      CSTOPB = (stopbits p = 2), CREAD = True, HUPCL = True, CLOCAL = True, IGNPAR = True,
      ICANON = False, ECHO = False, ISIG = False, OPOST = False, VMIN = 1, VTIME = 0\<rparr>"

definition IO_Serial_GetProperties :: "'d os \<Rightarrow> ('d, IO_Serial_Properties option) io" where
  "IO_Serial_GetProperties os = do {
     cached \<leftarrow> IO_Serial_GetPropertiesCache;
     case cached of
       Some p \<Rightarrow> State_Monad.return (Some p)
     | None \<Rightarrow> do {
         io \<leftarrow> get_io;
         opt_bind (syscall (os_tcgetattr os (fd io))) (\<lambda>tio.
         opt_bind (syscall (os_tiocmget os (fd io))) (\<lambda>mctl. do {
           _ \<leftarrow> IO_Serial_SetPropertiesCache (termios_properties tio mctl);
           State_Monad.return (Some (termios_properties tio mctl)) })) } }"

definition set_line :: "'d os \<Rightarrow> modem_line \<Rightarrow> io_line \<Rightarrow> ('d, bool) io" where
  "set_line os line level = do {
     io \<leftarrow> get_io;
     case level of
       IO_SERIAL_HIGH \<Rightarrow> syscall (os_tiocmbis os (fd io) line)
     | IO_SERIAL_LOW \<Rightarrow> syscall (os_tiocmbic os (fd io) line) }"

definition IO_Serial_SetProperties :: "'d os \<Rightarrow> IO_Serial_Properties \<Rightarrow> ('d, bool) io" where
  "IO_Serial_SetProperties os p = do {
     ok \<leftarrow> set_line os TIOCM_DTR (dtr p);
     if \<not> ok then State_Monad.return False else do {
     ok \<leftarrow> set_line os TIOCM_RTS (rts p);
     if \<not> ok then State_Monad.return False else do {
     io \<leftarrow> get_io;
     ok \<leftarrow> syscall (os_tcsetattr os (fd io) (properties_termios p));
     if \<not> ok then State_Monad.return False else do {
     ok \<leftarrow> syscall (os_tcflush os (fd io));
     if \<not> ok then State_Monad.return False else do {
     _ \<leftarrow> IO_Serial_SetPropertiesCache p;
     State_Monad.return True }}}}}"

section \<open>Input and output\<close>

fun serial_read :: "'d os \<Rightarrow> nat \<Rightarrow> nat \<Rightarrow> byte list \<Rightarrow> ('d, byte list option) io" where
  "serial_read os timeout 0 acc = State_Monad.return (Some acc)"
| "serial_read os timeout (Suc n) acc = do {
     io \<leftarrow> get_io;
     ready \<leftarrow> IO_Serial_WaitToRead os (fd io) 0 timeout;
     if \<not> ready then State_Monad.return None else do {
     r \<leftarrow> syscall (os_read1 os (fd io));
     case r of None \<Rightarrow> State_Monad.return None | Some c \<Rightarrow> serial_read os timeout n (acc @ [c]) }}"

definition IO_Serial_Read :: "'d os \<Rightarrow> nat \<Rightarrow> nat \<Rightarrow> ('d, byte list option) io" where
  "IO_Serial_Read os timeout n = serial_read os timeout n []"

text \<open>
  One turn of the output loop; the loop itself sends byte by byte when there is a delay and
  everything in one turn (\<open>to_send = size\<close>) when there is none.
\<close>

definition serial_write_run :: "'d os \<Rightarrow> nat \<Rightarrow> byte list \<Rightarrow> ('d, bool) io" where
  "serial_write_run os delay bs = do {
     io \<leftarrow> get_io;
     ready \<leftarrow> IO_Serial_WaitToWrite os (fd io) delay 1000;
     if \<not> ready then State_Monad.return False else do {
     n \<leftarrow> syscall (os_write os (fd io) bs);
     State_Monad.return (n = int (length bs)) }}"

fun serial_write_bytes :: "'d os \<Rightarrow> nat \<Rightarrow> byte list \<Rightarrow> ('d, bool) io" where
  "serial_write_bytes os delay [] = State_Monad.return True"
| "serial_write_bytes os delay (b # bs) = do {
     ok \<leftarrow> serial_write_run os delay [b];
     if \<not> ok then State_Monad.return False else serial_write_bytes os delay bs }"

definition IO_Serial_Write :: "'d os \<Rightarrow> nat \<Rightarrow> byte list \<Rightarrow> ('d, bool) io" where
  "IO_Serial_Write os delay data = do {
     io \<leftarrow> get_io;
     _ \<leftarrow> syscall (os_tcflush os (fd io));
     if delay > 0 then serial_write_bytes os delay data
     else if data = [] then State_Monad.return True
     else serial_write_run os delay data }"

section \<open>Opening and closing\<close>

text \<open>The PnP identification: up to 256 bytes are read into \<open>PnP_id\<close>, one at a time.\<close>

fun pnp_read :: "'d os \<Rightarrow> nat \<Rightarrow> nat \<Rightarrow> ('d, nat) io" where
  "pnp_read os 0 i = State_Monad.return i"
| "pnp_read os (Suc left) i = do {
     r \<leftarrow> IO_Serial_Read os 200 1;
     case r of
       None \<Rightarrow> State_Monad.return i
     | Some bs \<Rightarrow> do {
         _ \<leftarrow> modify_io (\<lambda>io. io\<lparr>PnP_id := (PnP_id io)[i := hd bs]\<rparr>);
         pnp_read os left (i + 1) } }"

definition pnp_properties :: IO_Serial_Properties where
  "pnp_properties =
     \<lparr>input_bitrate = 1200, output_bitrate = 1200, bits = 7, stopbits = 1,
      parity = IO_SERIAL_PARITY_NONE, dtr = IO_SERIAL_HIGH, rts = IO_SERIAL_HIGH\<rparr>"

definition IO_Serial_InitPnP :: "'d os \<Rightarrow> ('d, bool) io" where
  "IO_Serial_InitPnP os = do {
     ok \<leftarrow> IO_Serial_SetProperties os pnp_properties;
     if \<not> ok then State_Monad.return False else do {
     i \<leftarrow> pnp_read os IO_SERIAL_PNPID_SIZE 0;
     _ \<leftarrow> modify_io (\<lambda>io. io\<lparr>PnP_id_size := i\<rparr>);
     State_Monad.return True }}"

definition IO_Serial_Init :: "'d os \<Rightarrow> nat \<Rightarrow> bool \<Rightarrow> bool \<Rightarrow> ('d, bool) io" where
  "IO_Serial_Init os com_nr usb pnp =
     (if com_nr < 1 then State_Monad.return False else do {
        h \<leftarrow> syscall (os_open os (IO_Serial_DeviceName com_nr usb IO_SERIAL_FILENAME_LENGTH));
        _ \<leftarrow> modify_io (\<lambda>io. io\<lparr>com := com_nr, fd := h\<rparr>);
        if h < 0 then State_Monad.return False else do {
        _ \<leftarrow> (if pnp then IO_Serial_InitPnP os else State_Monad.return True);
        _ \<leftarrow> modify_io (\<lambda>io. io\<lparr>usbserial := usb\<rparr>);
        State_Monad.return True }})"

definition IO_Serial_Close :: "'d os \<Rightarrow> ('d, bool) io" where
  "IO_Serial_Close os = do {
     io \<leftarrow> get_io;
     ok \<leftarrow> syscall (os_close os (fd io));
     if \<not> ok then State_Monad.return False else do {
     _ \<leftarrow> IO_Serial_ClearPropertiesCache;
     _ \<leftarrow> modify_io (\<lambda>_. IO_Serial_Clear);
     State_Monad.return True }}"

definition IO_Serial_GetPnPId :: "('d, byte list) io" where
  "IO_Serial_GetPnPId = do { io \<leftarrow> get_io; State_Monad.return (take (PnP_id_size io) (PnP_id io)) }"

definition IO_Serial_GetCom :: "('d, nat) io" where
  "IO_Serial_GetCom = do { io \<leftarrow> get_io; State_Monad.return (com io) }"

section \<open>Reading delivers exactly what was asked for\<close>

lemma serial_read_length:
  "run_state (serial_read os timeout n acc) p = (Some bs, p') \<Longrightarrow> length bs = length acc + n"
  by (induction n arbitrary: acc p) (fastforce split: prod.splits option.splits if_splits)+

interpretation serial_reader: exact_reader "IO_Serial_Read os timeout" "\<lambda>_. True"
  by unfold_locales (auto simp: IO_Serial_Read_def dest: serial_read_length)

section \<open>Bit rates\<close>

text \<open>
  \<open>IO_Serial_Bitrate\<close> picks the fastest supported speed that does not exceed the
  requested rate, and every speed is read back as the rate it was selected by.
\<close>

lemma IO_Serial_Bitrate_greatest:
  "(0 \<le> r \<longrightarrow> int (speed_bitrate (IO_Serial_Bitrate r)) \<le> r) \<and>
   (\<forall>s. s \<noteq> B_other \<longrightarrow> IO_Serial_Bitrate (int (speed_bitrate s)) = s) \<and>
   (\<forall>s. s \<noteq> B_other \<and> int (speed_bitrate s) \<le> r \<longrightarrow> speed_bitrate s \<le> speed_bitrate (IO_Serial_Bitrate r))"
proof (intro conjI allI impI)
  show "int (speed_bitrate (IO_Serial_Bitrate r)) \<le> r" if "0 \<le> r"
    using that unfolding IO_Serial_Bitrate_def by simp
  show "IO_Serial_Bitrate (int (speed_bitrate s)) = s" if "s \<noteq> B_other" for s
    using that by (cases s) (simp_all add: IO_Serial_Bitrate_def)
  show "speed_bitrate s \<le> speed_bitrate (IO_Serial_Bitrate r)" if "s \<noteq> B_other \<and> int (speed_bitrate s) \<le> r" for s
    using that by (cases s) (simp_all add: IO_Serial_Bitrate_def)
qed

section \<open>The documented behaviour of the system calls\<close>

text \<open>
  What the driver relies on in the operating system when it sends: \<open>wire\<close> gives
  everything written to the line so far; \<open>write\<close> sends a prefix of its buffer, of the
  length it returns, and no other call sends anything.  Nothing is assumed of what
  \<open>tcsetattr\<close> and the modem-line calls do to the line: a successful \<open>tcsetattr\<close>
  only promises that some of the requested changes were made.
\<close>

type_synonym 'd line_view = "'d \<Rightarrow> byte list"

definition silent :: "'d line_view \<Rightarrow> ('d, 'a) state \<Rightarrow> bool" where
  "silent wire m \<longleftrightarrow> (\<forall>d a d'. run_state m d = (a, d') \<longrightarrow> wire d' = wire d)"

definition posix_line :: "'d os \<Rightarrow> 'd line_view \<Rightarrow> bool" where
  "posix_line os wire \<longleftrightarrow>
     (\<forall>h d n d' bs. run_state (os_write os h bs) d = (n, d') \<longrightarrow>
        n \<le> int (length bs) \<and> wire d' = wire d @ take (nat n) bs) \<and>
     (\<forall>h t. silent wire (os_tcsetattr os h t)) \<and>
     (\<forall>h l. silent wire (os_tiocmbis os h l) \<and> silent wire (os_tiocmbic os h l)) \<and>
     (\<forall>h. silent wire (os_tcgetattr os h) \<and> silent wire (os_tiocmget os h) \<and> silent wire (os_tcflush os h) \<and>
        silent wire (os_read1 os h)) \<and>
     (\<forall>h t. silent wire (os_poll_in os h t) \<and> silent wire (os_poll_out os h t)) \<and>
     (\<forall>t. silent wire (os_nanosleep os t))"

lemma posix_writeD:
  "posix_line os wire \<Longrightarrow> run_state (os_write os h bs) d = (n, d') \<Longrightarrow>
   n \<le> int (length bs) \<and> wire d' = wire d @ take (nat n) bs"
  by (simp add: posix_line_def)

lemma posix_silent_calls:
  assumes "posix_line os wire"
  shows "silent wire (os_tcsetattr os h t)" "silent wire (os_tiocmbis os h l)" "silent wire (os_tiocmbic os h l)"
    "silent wire (os_tcgetattr os h)" "silent wire (os_tiocmget os h)" "silent wire (os_tcflush os h)"
    "silent wire (os_read1 os h)" "silent wire (os_poll_in os h n)" "silent wire (os_poll_out os h n)"
    "silent wire (os_nanosleep os n)"
  using assms by (simp_all add: posix_line_def)

section \<open>What a computation puts on the line\<close>

text \<open>
  \<open>sends wire J m R\<close>: from a state whose \<open>IO_Serial\<close> structure satisfies \<open>J\<close>,
  \<open>m\<close> ends in such a state and has appended to the line some bytes that, with its
  result, satisfy \<open>R\<close>.  The rules of this logic are in the collection
  \<open>line\<close>.
\<close>

named_theorems line \<open>rules for what a computation sends\<close>

definition sends :: "'d line_view \<Rightarrow> (IO_Serial \<Rightarrow> bool) \<Rightarrow> ('d, 'a) io \<Rightarrow> ('a \<Rightarrow> byte list \<Rightarrow> bool) \<Rightarrow> bool" where
  "sends wire J m R \<longleftrightarrow>
     (\<forall>p a p'. J (p_io p) \<longrightarrow> run_state m p = (a, p') \<longrightarrow>
        J (p_io p') \<and> (\<exists>cs. wire (p_dev p') = wire (p_dev p) @ cs \<and> R a cs))"

lemma sendsD: "sends wire J m R \<Longrightarrow> run_state m p = (a, p') \<Longrightarrow> J (p_io p) \<Longrightarrow>
  J (p_io p') \<and> (\<exists>cs. wire (p_dev p') = wire (p_dev p) @ cs \<and> R a cs)"
  by (auto simp: sends_def)

lemma sends_conseq: "sends wire J m Q \<Longrightarrow> (\<And>a cs. Q a cs \<Longrightarrow> R a cs) \<Longrightarrow> sends wire J m R"
  unfolding sends_def by blast

lemma sends_return [line]: "R a [] \<Longrightarrow> sends wire J (State_Monad.return a) R"
  by (simp add: sends_def)

lemma sends_bind:
  assumes "sends wire J m Q" "\<And>a cs. Q a cs \<Longrightarrow> sends wire J (f a) (\<lambda>b ds. R b (cs @ ds))"
  shows "sends wire J (State_Monad.bind m f) R"
  unfolding sends_def
proof (intro allI impI)
  fix p b p2 assume J: "J (p_io p)" and "run_state (State_Monad.bind m f) p = (b, p2)"
  then obtain a p1 where m: "run_state m p = (a, p1)" and f: "run_state (f a) p1 = (b, p2)"
    by (auto split: prod.splits)
  obtain cs where cs: "wire (p_dev p1) = wire (p_dev p) @ cs" "Q a cs" and J1: "J (p_io p1)"
    using sendsD [OF assms(1) m J] by blast
  then show "J (p_io p2) \<and> (\<exists>cs. wire (p_dev p2) = wire (p_dev p) @ cs \<and> R b cs)"
    using sendsD [OF assms(2) f J1] by fastforce
qed

text \<open>A step that sends nothing.\<close>

definition sends_none :: "'d line_view \<Rightarrow> (IO_Serial \<Rightarrow> bool) \<Rightarrow> ('d, 'a) io \<Rightarrow> bool" where
  "sends_none wire J m \<longleftrightarrow> sends wire J m (\<lambda>_ cs. cs = [])"

lemma sends_bind_none [line]:
  "sends_none wire J m \<Longrightarrow> (\<And>a. sends wire J (f a) R) \<Longrightarrow> sends wire J (State_Monad.bind m f) R"
  unfolding sends_none_def by (erule sends_bind) auto

lemma sends_if [line]: "(c \<Longrightarrow> sends wire J m R) \<Longrightarrow> (\<not> c \<Longrightarrow> sends wire J n R) \<Longrightarrow> sends wire J (if c then m else n) R"
  by simp

lemma sends_case_option [line]:
  "(x = None \<Longrightarrow> sends wire J m R) \<Longrightarrow> (\<And>a. x = Some a \<Longrightarrow> sends wire J (f a) R) \<Longrightarrow>
   sends wire J (case x of None \<Rightarrow> m | Some a \<Rightarrow> f a) R"
  by (cases x) simp_all

lemma sends_none_return [line]: "sends_none wire J (State_Monad.return a)"
  by (simp add: sends_none_def sends_def)

lemma sends_none_bind [line]:
  "sends_none wire J m \<Longrightarrow> (\<And>a. sends_none wire J (f a)) \<Longrightarrow> sends_none wire J (State_Monad.bind m f)"
  unfolding sends_none_def [of wire J "State_Monad.bind m f"] by (rule sends_bind_none) (auto simp: sends_none_def)

lemma sends_none_if [line]:
  "(c \<Longrightarrow> sends_none wire J m) \<Longrightarrow> (\<not> c \<Longrightarrow> sends_none wire J n) \<Longrightarrow> sends_none wire J (if c then m else n)"
  by simp

lemma sends_none_case_option [line]:
  "(x = None \<Longrightarrow> sends_none wire J m) \<Longrightarrow> (\<And>a. x = Some a \<Longrightarrow> sends_none wire J (f a)) \<Longrightarrow>
   sends_none wire J (case x of None \<Rightarrow> m | Some a \<Rightarrow> f a)"
  by (cases x) simp_all

lemma sends_none_opt_bind [line]:
  "sends_none wire J m \<Longrightarrow> (\<And>a. sends_none wire J (f a)) \<Longrightarrow> sends_none wire J (opt_bind m f)"
  unfolding opt_bind_def by (intro line)

lemma sends_none_get_io [line]: "sends_none wire J get_io"
  by (simp add: sends_none_def sends_def)

lemma sends_none_modify_io [line]: "(\<And>io. J io \<Longrightarrow> J (f io)) \<Longrightarrow> sends_none wire J (modify_io f)"
  by (simp add: sends_none_def sends_def)

lemma sends_none_syscall: "silent wire m \<Longrightarrow> sends_none wire J (syscall m)"
  by (auto simp: sends_none_def sends_def silent_def split: prod.splits)

lemmas posix_sends_none = posix_silent_calls [THEN sends_none_syscall]

lemma sends_none_wait [line]:
  "posix_line os wire \<Longrightarrow> sends_none wire J (IO_Serial_WaitToRead os h delay timeout)"
  "posix_line os wire \<Longrightarrow> sends_none wire J (IO_Serial_WaitToWrite os h delay timeout)"
  unfolding IO_Serial_WaitToRead_def IO_Serial_WaitToWrite_def by (intro line posix_sends_none; assumption?)+

lemma sends_none_serial_read [line]: "posix_line os wire \<Longrightarrow> sends_none wire J (serial_read os timeout n acc)"
  by (induction n arbitrary: acc) (auto intro!: line posix_sends_none)

lemma sends_none_Read [line]: "posix_line os wire \<Longrightarrow> sends_none wire J (IO_Serial_Read os timeout n)"
  unfolding IO_Serial_Read_def by (rule line)

lemma sends_conj:
  "sends wire J m Q \<Longrightarrow> (\<And>p a p'. run_state m p = (a, p') \<Longrightarrow> S a) \<Longrightarrow> sends wire J m (\<lambda>a cs. Q a cs \<and> S a)"
  unfolding sends_def by blast

lemma sends_Read:
  "posix_line os wire \<Longrightarrow> sends wire J (IO_Serial_Read os timeout n) (\<lambda>r cs. cs = [] \<and> (\<forall>bs. r = Some bs \<longrightarrow> length bs = n))"
  by (rule sends_conj [OF sends_none_Read [unfolded sends_none_def]]) (auto dest: serial_reader.rd_length [OF TrueI])

lemma sends_none_SetProperties [line]: "posix_line os wire \<Longrightarrow> sends_none wire (\<lambda>_. True) (IO_Serial_SetProperties os p)"
  unfolding IO_Serial_SetProperties_def set_line_def IO_Serial_SetPropertiesCache_def
  by (intro line posix_sends_none) (auto split: io_line.split intro: posix_sends_none)

lemma sends_none_GetProperties [line]: "posix_line os wire \<Longrightarrow> sends_none wire (\<lambda>_. True) (IO_Serial_GetProperties os)"
  unfolding IO_Serial_GetProperties_def IO_Serial_SetPropertiesCache_def IO_Serial_GetPropertiesCache_def
  by (intro line posix_sends_none; (assumption | simp)?)

lemma sends_GetProperties_cached:
  "(\<And>io. J io \<Longrightarrow> props io = Some q) \<Longrightarrow> sends wire J (IO_Serial_GetProperties os) (\<lambda>r cs. cs = [] \<and> r = Some q)"
  by (auto simp: sends_def IO_Serial_GetProperties_def IO_Serial_GetPropertiesCache_def)

text \<open>A step that sends a prefix of \<open>bs\<close>, all of it when it succeeds.\<close>

definition sends_upto :: "byte list \<Rightarrow> bool \<Rightarrow> byte list \<Rightarrow> bool" where
  "sends_upto bs ok cs \<longleftrightarrow> (\<exists>ds. bs = cs @ ds \<and> (ok \<longrightarrow> ds = []))"

lemma sends_write_syscall:
  "posix_line os wire \<Longrightarrow> sends wire J (syscall (os_write os h bs)) (\<lambda>n cs. cs = take (nat n) bs)"
  by (auto simp: sends_def split: prod.splits dest: posix_writeD)

lemma sends_write_run:
  assumes "posix_line os wire" shows "sends wire J (serial_write_run os delay bs) (sends_upto bs)"
proof -
  have "sends_upto bs (n = int (length bs)) (take (nat n) bs)" for n
    unfolding sends_upto_def by (rule exI [of _ "drop (nat n) bs"]) auto
  then have w: "sends wire J (do { n \<leftarrow> syscall (os_write os h bs); State_Monad.return (n = int (length bs)) }) (sends_upto bs)" for h
    by (intro sends_bind [OF sends_write_syscall [OF assms]] sends_return) simp
  show ?thesis
    unfolding serial_write_run_def
    by (rule sends_bind_none sends_none_get_io sends_none_wait assms sends_if w sends_return)+ (simp add: sends_upto_def, rule w)
qed

lemma sends_write_bytes: "posix_line os wire \<Longrightarrow> sends wire J (serial_write_bytes os delay bs) (sends_upto bs)"
proof (induction bs)
  case Nil
  show ?case by (auto intro!: line simp: sends_upto_def)
next
  case (Cons b bs)
  show ?case
    unfolding serial_write_bytes.simps
    by (rule sends_bind [OF sends_write_run [OF Cons.prems]], intro line sends_conseq [OF Cons.IH [OF Cons.prems]])
       (auto simp: sends_upto_def Cons_eq_append_conv)
qed

lemma sends_Write: "posix_line os wire \<Longrightarrow> sends wire J (IO_Serial_Write os delay data) (sends_upto data)"
  unfolding IO_Serial_Write_def
  by (intro line posix_sends_none sends_write_bytes sends_write_run) (auto simp: sends_upto_def)

section \<open>What input and output leave alone\<close>

text \<open>No system call, and so no input or output, changes the \<open>IO_Serial\<close> structure.\<close>

definition frame :: "IO_Serial \<Rightarrow> 'd port \<Rightarrow> bool" where
  "frame io p \<longleftrightarrow> p_io p = io"

lemma frame_get_io [vcg]: "keeps (frame io) get_io"
  by (auto intro: keepsI)

lemma frame_syscall [vcg]: "keeps (frame io) (syscall m)"
  by (rule keepsI) (auto simp: frame_def split: prod.splits)

lemma frame_wait [vcg]:
  "keeps (frame io) (IO_Serial_WaitToRead os h delay timeout)"
  "keeps (frame io) (IO_Serial_WaitToWrite os h delay timeout)"
  unfolding IO_Serial_WaitToRead_def IO_Serial_WaitToWrite_def by (intro vcg)+

lemma frame_Read [vcg]: "keeps (frame io) (IO_Serial_Read os timeout n)"
proof -
  have "keeps (frame io) (serial_read os timeout n acc)" for acc
    by (induction n arbitrary: acc) (auto intro!: vcg)
  then show ?thesis by (simp add: IO_Serial_Read_def)
qed

lemma frame_Write [vcg]: "keeps (frame io) (IO_Serial_Write os delay data)"
proof -
  have run: "keeps (frame io) (serial_write_run os delay bs)" for bs
    unfolding serial_write_run_def by (intro vcg)
  then have "keeps (frame io) (serial_write_bytes os delay data)"
    by (induction data) (auto intro!: vcg)
  then show ?thesis
    unfolding IO_Serial_Write_def using run by (intro vcg)
qed

text \<open>
  \<open>IO_Serial_Write\<close> puts a prefix of its buffer on the line, all of it when it
  returns \<open>TRUE\<close>, with or without an inter-byte delay, and does not change the
  \<open>IO_Serial\<close> structure.
\<close>

lemma IO_Serial_Write_sends:
  assumes "posix_line os wire" "run_state (IO_Serial_Write os delay data) p = (ok, p')"
  shows "\<exists>cs ds. data = cs @ ds \<and> wire (p_dev p') = wire (p_dev p) @ cs \<and> (ok \<longrightarrow> ds = []) \<and> p_io p' = p_io p"
proof -
  have "frame (p_io p) p'"
    using keepsD [OF frame_Write assms(2)] by (simp add: frame_def)
  then show ?thesis
    using sendsD [OF sends_Write [OF assms(1), where J = "\<lambda>_. True"] assms(2)] by (auto simp: sends_upto_def frame_def)
qed

section \<open>Setting and getting the properties\<close>

text \<open>The settings as the speeds of the line can realise them.\<close>

definition realised :: "IO_Serial_Properties \<Rightarrow> IO_Serial_Properties" where
  "realised q = q\<lparr>input_bitrate := speed_bitrate (IO_Serial_Bitrate (int32 (input_bitrate q))),
                  output_bitrate := speed_bitrate (IO_Serial_Bitrate (int32 (output_bitrate q)))\<rparr>"

text \<open>The levels of DTR and RTS the settings ask for.\<close>

definition properties_lines :: "IO_Serial_Properties \<Rightarrow> bool \<times> bool" where
  "properties_lines q = (dtr q = IO_SERIAL_HIGH, rts q = IO_SERIAL_HIGH)"

lemma termios_roundtrip:
  assumes "bits q \<in> {5, 6, 7, 8}" "stopbits q \<in> {1, 2}"
  shows "termios_properties (properties_termios q) (properties_lines q) = realised q"
proof -
  have "parity q = IO_SERIAL_PARITY_ODD \<or> parity q = IO_SERIAL_PARITY_EVEN \<or> parity q = IO_SERIAL_PARITY_NONE"
    by (cases "parity q") auto
  moreover have "dtr q = IO_SERIAL_HIGH \<or> dtr q = IO_SERIAL_LOW" "rts q = IO_SERIAL_HIGH \<or> rts q = IO_SERIAL_LOW"
    by (cases "dtr q"; simp) (cases "rts q"; simp)
  ultimately show ?thesis
    using assms by (cases q) (auto simp: termios_properties_def properties_termios_def realised_def properties_lines_def)
qed

text \<open>
  The calls that ask for settings: the levels of DTR and RTS, the \<open>termios\<close> and a
  flush, in this order, all reported as successful, take the device from \<open>d\<close> to \<open>d'\<close>.
\<close>

definition ask_line :: "'d os \<Rightarrow> int \<Rightarrow> modem_line \<Rightarrow> bool \<Rightarrow> ('d, bool) state" where
  "ask_line os h line up = (if up then os_tiocmbis os h line else os_tiocmbic os h line)"

definition settings_asked :: "'d os \<Rightarrow> int \<Rightarrow> termios \<Rightarrow> bool \<times> bool \<Rightarrow> 'd \<Rightarrow> 'd \<Rightarrow> bool" where
  "settings_asked os h t lines d d' \<longleftrightarrow>
     (\<exists>d1 d2 d3. run_state (ask_line os h TIOCM_DTR (fst lines)) d = (True, d1) \<and>
        run_state (ask_line os h TIOCM_RTS (snd lines)) d1 = (True, d2) \<and>
        run_state (os_tcsetattr os h t) d2 = (True, d3) \<and>
        run_state (os_tcflush os h) d3 = (True, d'))"

lemma set_line_ask: "run_state (set_line os line lev) p =
    (case run_state (ask_line os (fd (p_io p)) line (lev = IO_SERIAL_HIGH)) (p_dev p) of (ok, d) \<Rightarrow> (ok, p\<lparr>p_dev := d\<rparr>))"
  by (cases lev) (simp_all add: set_line_def ask_line_def)

lemma SetPropertiesD:
  assumes "run_state (IO_Serial_SetProperties os q) p = (ok, p')"
  shows "if ok then p_io p' = (p_io p)\<lparr>props := Some q\<rparr> \<and>
      settings_asked os (fd (p_io p)) (properties_termios q) (properties_lines q) (p_dev p) (p_dev p')
    else p_io p' = p_io p \<and>
      (\<forall>d'. \<not> settings_asked os (fd (p_io p)) (properties_termios q) (properties_lines q) (p_dev p) d')"
proof -
  let ?h = "fd (p_io p)"
  obtain ok1 d1 where 1: "run_state (ask_line os ?h TIOCM_DTR (dtr q = IO_SERIAL_HIGH)) (p_dev p) = (ok1, d1)" by fastforce
  obtain ok2 d2 where 2: "run_state (ask_line os ?h TIOCM_RTS (rts q = IO_SERIAL_HIGH)) d1 = (ok2, d2)" by fastforce
  obtain ok3 d3 where 3: "run_state (os_tcsetattr os ?h (properties_termios q)) d2 = (ok3, d3)" by fastforce
  obtain ok4 d4 where 4: "run_state (os_tcflush os ?h) d3 = (ok4, d4)" by fastforce
  show ?thesis
    using assms 1 2 3 4
    by (auto simp: IO_Serial_SetProperties_def IO_Serial_SetPropertiesCache_def set_line_ask settings_asked_def
        properties_lines_def split: if_splits)
qed

lemma GetProperties_cached: "props (p_io p) = Some q \<Longrightarrow> run_state (IO_Serial_GetProperties os) p = (Some q, p)"
  by (simp add: IO_Serial_GetProperties_def IO_Serial_GetPropertiesCache_def)

text \<open>Without a cache the settings are decoded from what the system reports, and cached.\<close>

lemma GetProperties_fresh:
  assumes "props (p_io p) = None" "run_state (os_tcgetattr os (fd (p_io p))) (p_dev p) = (Some t, d1)"
    "run_state (os_tiocmget os (fd (p_io p))) d1 = (Some m, d2)"
  shows "run_state (IO_Serial_GetProperties os) p =
    (Some (termios_properties t m), \<lparr>p_io = (p_io p)\<lparr>props := Some (termios_properties t m)\<rparr>, p_dev = d2\<rparr>)"
  using assms by (cases p) (simp add: IO_Serial_GetProperties_def IO_Serial_GetPropertiesCache_def IO_Serial_SetPropertiesCache_def)

lemma GetPropertiesD:
  assumes "run_state (IO_Serial_GetProperties os) p = (Some q, p1)"
  shows "p_io p1 = (p_io p)\<lparr>props := Some q\<rparr>"
  using assms
  by (auto simp: IO_Serial_GetProperties_def IO_Serial_GetPropertiesCache_def IO_Serial_SetPropertiesCache_def
      split: option.splits prod.splits)


end
