(* ===== verification/ScriptDevice.thy ===== *)
theory ScriptDevice
  imports IoSerial
begin

text \<open>
  A concrete device for the development's witnesses: a line whose every \<open>write\<close> is
  recorded and makes the next scripted reply available for reading.  It has the
  behaviour \<open>posix_line\<close> asks of the operating system.
\<close>

record script =
  sc_wire :: "byte list"
  sc_rx :: "byte list"
  sc_replies :: "byte list list"
  sc_tio :: termios
  sc_dtr :: bool
  sc_rts :: bool

definition script_os :: "script os" where
  "script_os =
     \<lparr>os_open = \<lambda>_. State_Monad.return 3,
      os_close = \<lambda>_. State_Monad.return True,
      os_tcgetattr = \<lambda>_. State (\<lambda>d. (Some (sc_tio d), d)),
      os_tcsetattr = \<lambda>_ t. State (\<lambda>d. (True, d\<lparr>sc_tio := t\<rparr>)),
      os_tcflush = \<lambda>_. State (\<lambda>d. (True, d\<lparr>sc_rx := []\<rparr>)),
      os_tiocmget = \<lambda>_. State (\<lambda>d. (Some (sc_dtr d, sc_rts d), d)),
      os_tiocmbis = \<lambda>_ l. State (\<lambda>d. (True, case l of TIOCM_DTR \<Rightarrow> d\<lparr>sc_dtr := True\<rparr> | TIOCM_RTS \<Rightarrow> d\<lparr>sc_rts := True\<rparr>)),
      os_tiocmbic = \<lambda>_ l. State (\<lambda>d. (True, case l of TIOCM_DTR \<Rightarrow> d\<lparr>sc_dtr := False\<rparr> | TIOCM_RTS \<Rightarrow> d\<lparr>sc_rts := False\<rparr>)),
      os_poll_in = \<lambda>_ _. State (\<lambda>d. (sc_rx d \<noteq> [], d)),
      os_poll_out = \<lambda>_ _. State_Monad.return True,
      os_read1 = \<lambda>_. State (\<lambda>d. case sc_rx d of [] \<Rightarrow> (None, d) | b # bs \<Rightarrow> (Some b, d\<lparr>sc_rx := bs\<rparr>)),
      os_write = \<lambda>_ bs. State (\<lambda>d. (int (length bs),
        d\<lparr>sc_wire := sc_wire d @ bs,
          sc_rx := sc_rx d @ (case sc_replies d of [] \<Rightarrow> [] | r # _ \<Rightarrow> r),
          sc_replies := tl (sc_replies d)\<rparr>)),
      os_nanosleep = \<lambda>_. State_Monad.return ()\<rparr>"

definition script_view :: "script line_view" where
  "script_view = sc_wire"

definition script_port :: "byte list list \<Rightarrow> IO_Serial_Properties option \<Rightarrow> script port" where
  "script_port replies cache =
     \<lparr>p_io = IO_Serial_Clear\<lparr>fd := 3, com := 1, props := cache\<rparr>,
      p_dev = \<lparr>sc_wire = [], sc_rx = [], sc_replies = replies, sc_tio = properties_termios pnp_properties,
               sc_dtr = True, sc_rts = True\<rparr>\<rparr>"

lemma script_posix: "posix_line script_os script_view"
  by (auto simp: posix_line_def script_os_def script_view_def silent_def
      split: modem_line.splits list.splits)

text \<open>Evaluation of the device's operations.\<close>

lemma script_eval [simp]:
  "run_state (os_open script_os s) d = (3, d)"
  "run_state (os_close script_os h) d = (True, d)"
  "run_state (os_tcgetattr script_os h) d = (Some (sc_tio d), d)"
  "run_state (os_tcsetattr script_os h t) d = (True, d\<lparr>sc_tio := t\<rparr>)"
  "run_state (os_tcflush script_os h) d = (True, d\<lparr>sc_rx := []\<rparr>)"
  "run_state (os_tiocmget script_os h) d = (Some (sc_dtr d, sc_rts d), d)"
  "run_state (os_tiocmbis script_os h TIOCM_DTR) d = (True, d\<lparr>sc_dtr := True\<rparr>)"
  "run_state (os_tiocmbis script_os h TIOCM_RTS) d = (True, d\<lparr>sc_rts := True\<rparr>)"
  "run_state (os_tiocmbic script_os h TIOCM_DTR) d = (True, d\<lparr>sc_dtr := False\<rparr>)"
  "run_state (os_tiocmbic script_os h TIOCM_RTS) d = (True, d\<lparr>sc_rts := False\<rparr>)"
  "run_state (os_poll_in script_os h n) d = (sc_rx d \<noteq> [], d)"
  "run_state (os_poll_out script_os h n) d = (True, d)"
  "run_state (os_read1 script_os h) d =
     (case sc_rx d of [] \<Rightarrow> (None, d) | b # bs \<Rightarrow> (Some b, d\<lparr>sc_rx := bs\<rparr>))"
  "run_state (os_write script_os h bs) d = (int (length bs),
     d\<lparr>sc_wire := sc_wire d @ bs,
       sc_rx := sc_rx d @ (case sc_replies d of [] \<Rightarrow> [] | r # _ \<Rightarrow> r),
       sc_replies := tl (sc_replies d)\<rparr>)"
  "run_state (os_nanosleep script_os n) d = ((), d)"
  by (simp_all add: script_os_def)

text \<open>Reading and writing on the scripted line, evaluated.\<close>

definition set_rx :: "byte list \<Rightarrow> script port \<Rightarrow> script port" where
  "set_rx bs p = p\<lparr>p_dev := (p_dev p)\<lparr>sc_rx := bs\<rparr>\<rparr>"

definition exchange :: "byte list \<Rightarrow> script port \<Rightarrow> script port" where
  "exchange bs p = p\<lparr>p_dev := (p_dev p)
     \<lparr>sc_wire := sc_wire (p_dev p) @ bs, sc_rx := (case sc_replies (p_dev p) of [] \<Rightarrow> [] | r # _ \<Rightarrow> r),
      sc_replies := tl (sc_replies (p_dev p))\<rparr>\<rparr>"

lemma set_rx_sel [simp]:
  "p_io (set_rx bs p) = p_io p" "sc_rx (p_dev (set_rx bs p)) = bs" "sc_wire (p_dev (set_rx bs p)) = sc_wire (p_dev p)"
  "sc_replies (p_dev (set_rx bs p)) = sc_replies (p_dev p)" "set_rx cs (set_rx bs p) = set_rx cs p"
  "set_rx (sc_rx (p_dev p)) p = p"
  by (simp_all add: set_rx_def)

lemma exchange_sel [simp]:
  "p_io (exchange bs p) = p_io p" "sc_wire (p_dev (exchange bs p)) = sc_wire (p_dev p) @ bs"
  "sc_rx (p_dev (exchange bs p)) = (case sc_replies (p_dev p) of [] \<Rightarrow> [] | r # _ \<Rightarrow> r)"
  "sc_replies (p_dev (exchange bs p)) = tl (sc_replies (p_dev p))"
  "exchange bs (set_rx cs p) = exchange bs p"
  by (simp_all add: exchange_def set_rx_def)

lemma script_serial_read:
  "run_state (serial_read script_os t n acc) p =
     (if n \<le> length (sc_rx (p_dev p)) then (Some (acc @ take n (sc_rx (p_dev p))), set_rx (drop n (sc_rx (p_dev p))) p)
      else (None, set_rx [] p))"
proof (induction n arbitrary: acc p)
  case (Suc n)
  show ?case
  proof (cases "sc_rx (p_dev p)")
    case Nil
    then have "set_rx [] p = p" using set_rx_sel(6) [of p] by simp
    then show ?thesis using Nil by (simp add: IO_Serial_WaitToRead_def)
  next
    case (Cons b bs)
    have "p\<lparr>p_dev := (p_dev p)\<lparr>sc_rx := bs\<rparr>\<rparr> = set_rx bs p" by (simp add: set_rx_def)
    then show ?thesis using Cons by (simp add: IO_Serial_WaitToRead_def Suc.IH)
  qed
qed simp

lemma script_Read [simp]:
  "run_state (IO_Serial_Read script_os t n) p =
     (if n \<le> length (sc_rx (p_dev p)) then (Some (take n (sc_rx (p_dev p))), set_rx (drop n (sc_rx (p_dev p))) p)
      else (None, set_rx [] p))"
  by (simp add: IO_Serial_Read_def script_serial_read)

lemma script_Write [simp]:
  "data \<noteq> [] \<Longrightarrow> run_state (IO_Serial_Write script_os 0 data) p = (True, exchange data p)"
  by (simp add: IO_Serial_Write_def serial_write_run_def IO_Serial_WaitToWrite_def exchange_def)

lemma pnp_silent:
  assumes "sc_rx (p_dev p) = []"
  shows "run_state (pnp_read script_os IO_SERIAL_PNPID_SIZE i) p = (i, p)"
proof -
  have same: "set_rx [] p = p" using assms set_rx_sel(6) [of p] by simp
  obtain n where n: "IO_SERIAL_PNPID_SIZE = Suc n" by (simp add: IO_SERIAL_PNPID_SIZE_def numeral_eq_Suc)
  show ?thesis unfolding n by (simp add: assms same)
qed

lemmas serial_eval =
  IO_Serial_Read_def IO_Serial_Write_def serial_write_run_def IO_Serial_WaitToRead_def
  IO_Serial_WaitToWrite_def IO_Serial_SetProperties_def set_line_def IO_Serial_SetPropertiesCache_def
  IO_Serial_GetProperties_def IO_Serial_GetPropertiesCache_def


end
