(* ===== verification/Atr.thy ===== *)
theory Atr
  imports Complex_Main ScriptDevice
begin

text \<open>
  The answer to reset of asynchronous cards, \<^verbatim>\<open>src/src/driver/atr.c\<close> and
  \<^verbatim>\<open>atr.h\<close>: parsing from an array and from the serial line, the accessors and the
  raw form.
\<close>

section \<open>Data and tables\<close>

datatype atr_ret = ATR_OK | ATR_NOT_FOUND | ATR_MALFORMED | ATR_IO_ERROR

datatype atr_convention = ATR_CONVENTION_DIRECT | ATR_CONVENTION_INVERSE
datatype atr_ib = ATR_INTERFACE_BYTE_TA | ATR_INTERFACE_BYTE_TB | ATR_INTERFACE_BYTE_TC | ATR_INTERFACE_BYTE_TD
datatype atr_integer =
  ATR_INTEGER_VALUE_FI | ATR_INTEGER_VALUE_DI | ATR_INTEGER_VALUE_II | ATR_INTEGER_VALUE_PI1
  | ATR_INTEGER_VALUE_N | ATR_INTEGER_VALUE_PI2
datatype atr_parameter =
  ATR_PARAMETER_F | ATR_PARAMETER_D | ATR_PARAMETER_I | ATR_PARAMETER_P | ATR_PARAMETER_N

definition ATR_MAX_SIZE :: nat where "ATR_MAX_SIZE = 33"
definition ATR_MAX_HISTORICAL :: nat where "ATR_MAX_HISTORICAL = 15"
definition ATR_MAX_PROTOCOLS :: nat where "ATR_MAX_PROTOCOLS = 7"
definition ATR_PROTOCOL_TYPE_T0 :: byte where "ATR_PROTOCOL_TYPE_T0 = 0"
definition ATR_PROTOCOL_TYPE_T1 :: byte where "ATR_PROTOCOL_TYPE_T1 = 1"
definition ATR_DEFAULT_F :: nat where "ATR_DEFAULT_F = 372"
definition ATR_DEFAULT_D :: rat where "ATR_DEFAULT_D = 1"
definition ATR_DEFAULT_I :: nat where "ATR_DEFAULT_I = 50"
definition ATR_DEFAULT_N :: nat where "ATR_DEFAULT_N = 0"
definition ATR_DEFAULT_P :: nat where "ATR_DEFAULT_P = 5"

definition atr_fs_table :: "nat list" where
  "atr_fs_table = [0, 5000000, 6000000, 8000000, 12000000, 16000000, 20000000, 0,
                   0, 5000000, 7500000, 10000000, 15000000, 20000000, 0, 0]"

definition atr_num_ib_table :: "nat list" where
  "atr_num_ib_table = [0, 1, 1, 2, 1, 2, 2, 3, 1, 2, 2, 3, 2, 3, 3, 4]"

definition atr_f_table :: "nat list" where
  "atr_f_table = [0, 372, 558, 744, 1116, 1488, 1860, 0, 0, 512, 768, 1024, 1536, 2048, 0, 0]"

text \<open>The entries of the table of \<open>double\<close>s are exact binary fractions.\<close>

definition atr_d_table :: "rat list" where
  "atr_d_table = [0, 1, 2, 4, 8, 16, 0, 0, 0, 0, 1/2, 1/4, 1/8, 1/16, 1/32, 1/64]"

definition atr_i_table :: "nat list" where
  "atr_i_table = [25, 50, 100, 0]"

text \<open>
  One row of the array \<open>ib\<close>; an interface byte with \<open>present = FALSE\<close> is \<open>None\<close>,
  its value is never read.  \<open>hb\<close> holds the bytes of the array in use, \<open>ib\<close> always
  has \<open>ATR_MAX_PROTOCOLS\<close> rows, whose initial contents are those of the allocated
  memory.
\<close>

record ib_row =
  TA :: "byte option"
  TB :: "byte option"
  TC :: "byte option"
  TD :: "byte option"

record ATR =
  atr_length :: nat
  TS :: byte
  T0 :: byte
  ib :: "ib_row list"
  TCK_present :: bool
  TCK_value :: byte
  pn :: nat
  hb :: "byte list"
  hbn :: nat

section \<open>Parsing\<close>

text \<open>The conversion of a byte received in the inverse convention.\<close>

definition atr_invert :: "byte \<Rightarrow> byte" where
  "atr_invert b = NOT (INVERT_BYTE b)"

text \<open>
  The reading of one row from the buffer: the position of the last byte read, the number of
  the row and the byte that announces its contents.
\<close>

definition array_byte :: "byte list \<Rightarrow> bool \<Rightarrow> nat \<Rightarrow> byte option \<times> nat" where
  "array_byte buffer present pointer = (if present then (Some (buffer ! (pointer + 1)), pointer + 1) else (None, pointer))"

definition array_row :: "byte list \<Rightarrow> nat \<Rightarrow> byte \<Rightarrow> ib_row \<times> nat" where
  "array_row buffer pointer TDi =
     (let (a, p1) = array_byte buffer (TDi OR 0xEF = 0xFF) pointer;
          (b, p2) = array_byte buffer (TDi OR 0xDF = 0xFF) p1;
          (c, p3) = array_byte buffer (TDi OR 0xBF = 0xFF) p2;
          (d, p4) = array_byte buffer (TDi OR 0x7F = 0xFF) p3
      in (\<lparr>TA = a, TB = b, TC = c, TD = d\<rparr>, p4))"

text \<open>
  The loop over the rows.  \<open>None\<close> marks the write to a row outside the array \<open>ib\<close>:
  the test of \<open>pn\<close> comes after the row has been written.
\<close>

function array_interface ::
    "byte list \<Rightarrow> nat \<Rightarrow> nat \<Rightarrow> nat \<Rightarrow> byte \<Rightarrow> ATR \<Rightarrow> (atr_ret + nat \<times> nat \<times> ATR) option" where
  "array_interface buffer len pointer p TDi atr =
     (if pointer \<ge> len then Some (Inr (pointer, p, atr))
      else if pointer + atr_num_ib_table ! unat (drop_bit 4 (0xF0 AND TDi)) \<ge> len then Some (Inl ATR_MALFORMED)
      else if p \<ge> ATR_MAX_PROTOCOLS then None
      else let (row, pointer') = array_row buffer pointer TDi; atr' = atr\<lparr>ib := (ib atr)[p := row]\<rparr>
           in case TD row of
                None \<Rightarrow> Some (Inr (pointer', p, atr'))
              | Some td \<Rightarrow>
                  let atr'' = atr'\<lparr>TCK_present := (td AND 0x0F \<noteq> ATR_PROTOCOL_TYPE_T0)\<rparr>
                  in if p \<ge> ATR_MAX_PROTOCOLS then Some (Inl ATR_MALFORMED)
                     else array_interface buffer len pointer' (p + 1) td atr'')"
  by pat_completeness auto
termination
  by (relation "measure (\<lambda>(_, _, _, p, _, _). ATR_MAX_PROTOCOLS - p)") auto

declare array_interface.simps [simp del]

text \<open>
  A failure leaves the structure half filled; every caller then deletes it, so only the
  code is returned.  \<open>None\<close> also marks a copy past the end of the 33-byte local
  buffer.
\<close>

definition ATR_InitFromArray :: "ATR \<Rightarrow> byte list \<Rightarrow> nat \<Rightarrow> (atr_ret + ATR) option" where
  "ATR_InitFromArray atr atr_buffer len =
     (if len < 2 then Some (Inl ATR_MALFORMED)
      else if len > ATR_MAX_SIZE then None
      else
        let buffer = take len (if atr_buffer ! 0 = 0x03 then map atr_invert atr_buffer else atr_buffer);
            TDi = buffer ! 1;
            atr = atr\<lparr>TS := buffer ! 0, T0 := TDi, hbn := unat (TDi AND 0x0F), TCK_present := False\<rparr>
        in case array_interface buffer len 1 0 TDi atr of
             None \<Rightarrow> None
           | Some (Inl e) \<Rightarrow> Some (Inl e)
           | Some (Inr (pointer, p, atr)) \<Rightarrow>
               let atr = atr\<lparr>pn := p + 1\<rparr> in
               if pointer + hbn atr \<ge> len then Some (Inl ATR_MALFORMED)
               else
                 let atr = atr\<lparr>hb := take (hbn atr) (drop (pointer + 1) buffer)\<rparr>;
                     pointer = pointer + hbn atr
                 in if TCK_present atr then
                      if pointer + 1 \<ge> len then Some (Inl ATR_MALFORMED)
                      else Some (Inr (atr\<lparr>TCK_value := buffer ! (pointer + 1), atr_length := pointer + 2\<rparr>))
                    else Some (Inr (atr\<lparr>atr_length := pointer + 1\<rparr>)))"

text \<open>Parsing from the line: a byte is read and, for an inverse card, converted.\<close>

definition ATR_GetNextByte :: "'d os \<Rightarrow> nat \<Rightarrow> bool \<Rightarrow> ('d, byte option) io" where
  "ATR_GetNextByte os timeout invert = do {
     r \<leftarrow> IO_Serial_Read os timeout 1;
     State_Monad.return (case r of None \<Rightarrow> None | Some bs \<Rightarrow> Some (if invert then atr_invert (hd bs) else hd bs)) }"

definition stream_byte :: "'d os \<Rightarrow> nat \<Rightarrow> bool \<Rightarrow> bool \<Rightarrow> ('d, byte option option) io" where
  "stream_byte os timeout invert present =
     (if present then opt_bind (ATR_GetNextByte os timeout invert) (\<lambda>b. State_Monad.return (Some (Some b)))
      else State_Monad.return (Some None))"

definition stream_row :: "'d os \<Rightarrow> nat \<Rightarrow> bool \<Rightarrow> byte \<Rightarrow> ('d, ib_row option) io" where
  "stream_row os timeout invert TDi =
     opt_bind (stream_byte os timeout invert (TDi OR 0xEF = 0xFF)) (\<lambda>a.
     opt_bind (stream_byte os timeout invert (TDi OR 0xDF = 0xFF)) (\<lambda>b.
     opt_bind (stream_byte os timeout invert (TDi OR 0xBF = 0xFF)) (\<lambda>c.
     opt_bind (stream_byte os timeout invert (TDi OR 0x7F = 0xFF)) (\<lambda>d.
       State_Monad.return (Some \<lparr>TA = a, TB = b, TC = c, TD = d\<rparr>)))))"

definition row_size :: "ib_row \<Rightarrow> nat" where
  "row_size row = of_bool (TA row \<noteq> None) + of_bool (TB row \<noteq> None) + of_bool (TC row \<noteq> None) + of_bool (TD row \<noteq> None)"

text \<open>
  The loop over the rows; its argument is the number of rows left in the array.  As above,
  the outer \<open>None\<close> is the write outside the array.
\<close>

fun stream_interface ::
    "nat \<Rightarrow> 'd os \<Rightarrow> nat \<Rightarrow> bool \<Rightarrow> nat \<Rightarrow> nat \<Rightarrow> byte \<Rightarrow> ATR \<Rightarrow> ('d, (atr_ret + nat \<times> nat \<times> ATR) option) io" where
  "stream_interface 0 os timeout invert pointer p TDi atr = State_Monad.return None"
| "stream_interface (Suc left) os timeout invert pointer p TDi atr = do {
     r \<leftarrow> stream_row os timeout invert TDi;
     case r of
       None \<Rightarrow> State_Monad.return (Some (Inl ATR_MALFORMED))
     | Some row \<Rightarrow>
         let pointer' = pointer + row_size row; atr' = atr\<lparr>ib := (ib atr)[p := row]\<rparr>
         in (case TD row of
               None \<Rightarrow> State_Monad.return (Some (Inr (pointer', p, atr')))
             | Some td \<Rightarrow>
                 let atr'' = atr'\<lparr>TCK_present := (td AND 0x0F \<noteq> ATR_PROTOCOL_TYPE_T0)\<rparr>
                 in if p \<ge> ATR_MAX_PROTOCOLS then State_Monad.return (Some (Inl ATR_MALFORMED))
                    else stream_interface left os timeout invert pointer' (p + 1) td atr'') }"

fun stream_historical :: "nat \<Rightarrow> 'd os \<Rightarrow> nat \<Rightarrow> bool \<Rightarrow> byte list \<Rightarrow> ('d, byte list option) io" where
  "stream_historical 0 os timeout invert acc = State_Monad.return (Some acc)"
| "stream_historical (Suc n) os timeout invert acc =
     opt_bind (ATR_GetNextByte os timeout invert) (\<lambda>b. stream_historical n os timeout invert (acc @ [b]))"

definition stream_body :: "'d os \<Rightarrow> nat \<Rightarrow> bool \<Rightarrow> ATR \<Rightarrow> ('d, (atr_ret + ATR) option) io" where
  "stream_body os timeout invert atr = do {
     r \<leftarrow> stream_interface ATR_MAX_PROTOCOLS os timeout invert 1 0 (T0 atr) atr;
     case r of
       None \<Rightarrow> State_Monad.return None
     | Some (Inl e) \<Rightarrow> State_Monad.return (Some (Inl e))
     | Some (Inr (pointer, p, atr)) \<Rightarrow> do {
         hist \<leftarrow> stream_historical (hbn atr) os timeout invert [];
         case hist of
           None \<Rightarrow> State_Monad.return (Some (Inl ATR_MALFORMED))
         | Some hs \<Rightarrow>
             let atr = atr\<lparr>pn := p + 1, hb := hs\<rparr>; pointer = pointer + hbn atr
             in if TCK_present atr then do {
                  tck \<leftarrow> ATR_GetNextByte os timeout invert;
                  State_Monad.return (Some (case tck of
                    None \<Rightarrow> Inl ATR_MALFORMED
                  | Some b \<Rightarrow> Inr (atr\<lparr>TCK_value := b, atr_length := pointer + 2\<rparr>))) }
                else State_Monad.return (Some (Inr (atr\<lparr>atr_length := pointer + 1\<rparr>))) } }"

definition ATR_InitFromStream :: "'d os \<Rightarrow> ATR \<Rightarrow> nat \<Rightarrow> ('d, (atr_ret + ATR) option) io" where
  "ATR_InitFromStream os atr timeout = do {
     r \<leftarrow> ATR_GetNextByte os timeout False;
     case r of
       None \<Rightarrow> State_Monad.return (Some (Inl ATR_IO_ERROR))
     | Some b \<Rightarrow>
         let (ts, invert) = (if b = 0x03 then (0x3F, True) else (b, False))
         in if ts \<noteq> 0x3B \<and> ts \<noteq> 0x3F then State_Monad.return (Some (Inl ATR_MALFORMED))
            else do {
              r0 \<leftarrow> ATR_GetNextByte os timeout invert;
              case r0 of
                None \<Rightarrow> State_Monad.return (Some (Inl ATR_MALFORMED))
              | Some t0 \<Rightarrow> stream_body os timeout invert
                  (atr\<lparr>TS := ts, T0 := t0, hbn := unat (t0 AND 0x0F), TCK_present := False\<rparr>) } }"

section \<open>Accessors\<close>

definition ATR_GetConvention :: "ATR \<Rightarrow> atr_ret + atr_convention" where
  "ATR_GetConvention atr =
     (if TS atr = 0x3B then Inr ATR_CONVENTION_DIRECT
      else if TS atr = 0x3F then Inr ATR_CONVENTION_INVERSE
      else Inl ATR_MALFORMED)"

definition ATR_GetSize :: "ATR \<Rightarrow> nat" where
  "ATR_GetSize atr = atr_length atr"

definition ATR_GetNumberOfProtocols :: "ATR \<Rightarrow> nat" where
  "ATR_GetNumberOfProtocols atr = pn atr"

definition ib_byte :: "ib_row \<Rightarrow> atr_ib \<Rightarrow> byte option" where
  "ib_byte row character =
     (case character of
        ATR_INTERFACE_BYTE_TA \<Rightarrow> TA row | ATR_INTERFACE_BYTE_TB \<Rightarrow> TB row
      | ATR_INTERFACE_BYTE_TC \<Rightarrow> TC row | ATR_INTERFACE_BYTE_TD \<Rightarrow> TD row)"

definition ATR_GetProtocolType :: "ATR \<Rightarrow> nat \<Rightarrow> atr_ret + byte" where
  "ATR_GetProtocolType atr number_protocol =
     (if number_protocol > pn atr \<or> number_protocol < 2 then Inl ATR_NOT_FOUND
      else case TD (ib atr ! (number_protocol - 2)) of
             Some td \<Rightarrow> Inr (td AND 0x0F)
           | None \<Rightarrow> Inr ATR_PROTOCOL_TYPE_T0)"

definition ATR_GetInterfaceByte :: "ATR \<Rightarrow> nat \<Rightarrow> atr_ib \<Rightarrow> atr_ret + byte" where
  "ATR_GetInterfaceByte atr number character =
     (if number > pn atr \<or> number < 1 then Inl ATR_NOT_FOUND
      else case ib_byte (ib atr ! (number - 1)) character of
             Some b \<Rightarrow> Inr b
           | None \<Rightarrow> Inl ATR_NOT_FOUND)"

definition ATR_GetIntegerValue :: "ATR \<Rightarrow> atr_integer \<Rightarrow> atr_ret + byte" where
  "ATR_GetIntegerValue atr name =
     (let result = (\<lambda>x f. case x of Some b \<Rightarrow> Inr (f b) | None \<Rightarrow> Inl ATR_NOT_FOUND)
      in case name of
        ATR_INTEGER_VALUE_FI \<Rightarrow> result (TA (ib atr ! 0)) (\<lambda>b. drop_bit 4 (b AND 0xF0))
      | ATR_INTEGER_VALUE_DI \<Rightarrow> result (TA (ib atr ! 0)) (\<lambda>b. b AND 0x0F)
      | ATR_INTEGER_VALUE_II \<Rightarrow> result (TB (ib atr ! 0)) (\<lambda>b. drop_bit 5 (b AND 0x60))
      | ATR_INTEGER_VALUE_PI1 \<Rightarrow> result (TB (ib atr ! 0)) (\<lambda>b. b AND 0x1F)
      | ATR_INTEGER_VALUE_PI2 \<Rightarrow> result (TB (ib atr ! 1)) (\<lambda>b. b)
      | ATR_INTEGER_VALUE_N \<Rightarrow> result (TC (ib atr ! 0)) (\<lambda>b. b))"

definition ATR_GetParameter :: "ATR \<Rightarrow> atr_parameter \<Rightarrow> rat" where
  "ATR_GetParameter atr name =
     (case name of
        ATR_PARAMETER_F \<Rightarrow>
          (case ATR_GetIntegerValue atr ATR_INTEGER_VALUE_FI of
             Inr FI \<Rightarrow> of_nat (atr_f_table ! unat FI) | Inl _ \<Rightarrow> of_nat ATR_DEFAULT_F)
      | ATR_PARAMETER_D \<Rightarrow>
          (case ATR_GetIntegerValue atr ATR_INTEGER_VALUE_DI of
             Inr DI \<Rightarrow> atr_d_table ! unat DI | Inl _ \<Rightarrow> ATR_DEFAULT_D)
      | ATR_PARAMETER_I \<Rightarrow>
          (case ATR_GetIntegerValue atr ATR_INTEGER_VALUE_II of
             Inr II \<Rightarrow> of_nat (atr_i_table ! unat II) | Inl _ \<Rightarrow> of_nat ATR_DEFAULT_I)
      | ATR_PARAMETER_P \<Rightarrow>
          (case ATR_GetIntegerValue atr ATR_INTEGER_VALUE_PI2 of
             Inr PI2 \<Rightarrow> of_nat (unat PI2)
           | Inl _ \<Rightarrow>
               (case ATR_GetIntegerValue atr ATR_INTEGER_VALUE_PI1 of
                  Inr PI1 \<Rightarrow> of_nat (unat PI1) | Inl _ \<Rightarrow> of_nat ATR_DEFAULT_P))
      | ATR_PARAMETER_N \<Rightarrow>
          (case ATR_GetIntegerValue atr ATR_INTEGER_VALUE_N of
             Inr N \<Rightarrow> of_nat (unat N) | Inl _ \<Rightarrow> of_nat ATR_DEFAULT_N))"

definition ATR_GetHistoricalBytes :: "ATR \<Rightarrow> atr_ret + byte list" where
  "ATR_GetHistoricalBytes atr = (if hbn atr = 0 then Inl ATR_NOT_FOUND else Inr (take (hbn atr) (hb atr)))"

definition row_bytes :: "ib_row \<Rightarrow> byte list" where
  "row_bytes row =
     (case TA row of Some b \<Rightarrow> [b] | None \<Rightarrow> []) @ (case TB row of Some b \<Rightarrow> [b] | None \<Rightarrow> []) @
     (case TC row of Some b \<Rightarrow> [b] | None \<Rightarrow> []) @ (case TD row of Some b \<Rightarrow> [b] | None \<Rightarrow> [])"

text \<open>The bytes written to the caller's buffer; their number is the returned length.\<close>

definition ATR_GetRaw :: "ATR \<Rightarrow> byte list" where
  "ATR_GetRaw atr =
     [TS atr, T0 atr] @ concat (map row_bytes (take (pn atr) (ib atr))) @
     (if hbn atr > 0 then take (hbn atr) (hb atr) else []) @
     (if TCK_present atr then [TCK_value atr] else [])"

definition ATR_GetCheckByte :: "ATR \<Rightarrow> atr_ret + byte" where
  "ATR_GetCheckByte atr = (if \<not> TCK_present atr then Inl ATR_NOT_FOUND else Inr (TCK_value atr))"

definition ATR_GetFsMax :: "ATR \<Rightarrow> nat" where
  "ATR_GetFsMax atr =
     (case ATR_GetIntegerValue atr ATR_INTEGER_VALUE_FI of
        Inr FI \<Rightarrow> atr_fs_table ! unat FI | Inl _ \<Rightarrow> atr_fs_table ! 1)"

section \<open>The interface bytes a byte announces\<close>

lemma byte_eqI: "(\<And>n. n \<in> {0, 1, 2, 3, 4, 5, 6, 7} \<Longrightarrow> bit (a :: byte) n = bit b n) \<Longrightarrow> a = b"
  by (rule bit_word_eqI) (auto simp: less_8_cases)

lemma mask_present:
  "(t :: byte) OR 0xEF = 0xFF \<longleftrightarrow> bit t 4" (is ?A) "t OR 0xDF = 0xFF \<longleftrightarrow> bit t 5" (is ?B)
  "t OR 0xBF = 0xFF \<longleftrightarrow> bit t 6" (is ?C) "t OR 0x7F = 0xFF \<longleftrightarrow> bit t 7" (is ?D)
proof -
  have b: "bit (t OR 0xEF) 4 = bit t 4" "bit (t OR 0xDF) 5 = bit t 5" "bit (t OR 0xBF) 6 = bit t 6" "bit (t OR 0x7F) 7 = bit t 7"
    by (simp_all add: bit_or_iff)
  have f: "bit (0xFF :: byte) 4" "bit (0xFF :: byte) 5" "bit (0xFF :: byte) 6" "bit (0xFF :: byte) 7" by simp_all
  have "bit t 4 \<Longrightarrow> t OR 0xEF = 0xFF" "bit t 5 \<Longrightarrow> t OR 0xDF = 0xFF" "bit t 6 \<Longrightarrow> t OR 0xBF = 0xFF" "bit t 7 \<Longrightarrow> t OR 0x7F = 0xFF"
    by (auto intro!: byte_eqI simp: bit_or_iff)
  with b f show ?A ?B ?C ?D by metis+
qed

lemma high_nibble:
  "unat (drop_bit 4 (0xF0 AND t :: byte)) =
     of_bool (bit t 4) + 2 * of_bool (bit t 5) + 4 * of_bool (bit t 6) + 8 * of_bool (bit t 7)"
proof -
  have "drop_bit 4 (0xF0 AND t :: byte) =
      of_bool (bit t 4) OR push_bit 1 (of_bool (bit t 5)) OR push_bit 2 (of_bool (bit t 6)) OR push_bit 3 (of_bool (bit t 7))"
    by (intro byte_eqI) (auto simp: bit_simps)
  then show ?thesis by (cases "bit t 4"; cases "bit t 5"; cases "bit t 6"; cases "bit t 7") simp_all
qed

lemma num_ib: "atr_num_ib_table ! unat (drop_bit 4 (0xF0 AND t :: byte)) =
   of_bool (bit t 4) + of_bool (bit t 5) + of_bool (bit t 6) + of_bool (bit t 7)"
  unfolding high_nibble
  by (cases "bit t 4"; cases "bit t 5"; cases "bit t 6"; cases "bit t 7") (simp_all add: atr_num_ib_table_def)

text \<open>A row has exactly the bytes that the byte before it announces.\<close>

definition row_matches :: "byte \<Rightarrow> ib_row \<Rightarrow> bool" where
  "row_matches t row \<longleftrightarrow>
     (TA row \<noteq> None \<longleftrightarrow> bit t 4) \<and> (TB row \<noteq> None \<longleftrightarrow> bit t 5) \<and>
     (TC row \<noteq> None \<longleftrightarrow> bit t 6) \<and> (TD row \<noteq> None \<longleftrightarrow> bit t 7)"

lemma length_row_bytes: "length (row_bytes row) = row_size row"
  by (auto simp: row_bytes_def row_size_def split: option.splits)

lemma row_matches_size:
  "row_matches t row \<Longrightarrow> row_size row = atr_num_ib_table ! unat (drop_bit 4 (0xF0 AND t))"
  unfolding num_ib by (simp add: row_matches_def row_size_def)

section \<open>The chain of rows\<close>

fun rows_ok :: "byte \<Rightarrow> ib_row list \<Rightarrow> bool" where
  "rows_ok t [] = False"
| "rows_ok t (r # rs) \<longleftrightarrow> row_matches t r \<and> (case TD r of None \<Rightarrow> rs = [] | Some td \<Rightarrow> rows_ok td rs)"

text \<open>A check byte is expected when the last protocol announced is not T=0.\<close>

fun rows_tck :: "bool \<Rightarrow> ib_row list \<Rightarrow> bool" where
  "rows_tck b [] = b"
| "rows_tck b (r # rs) = rows_tck (case TD r of None \<Rightarrow> b | Some td \<Rightarrow> td AND 0x0F \<noteq> ATR_PROTOCOL_TYPE_T0) rs"

definition rows_bytes :: "ib_row list \<Rightarrow> byte list" where
  "rows_bytes rows = concat (map row_bytes rows)"

text \<open>The structure after the rows have been stored from row \<open>p\<close> on.\<close>

definition put_rows :: "ATR \<Rightarrow> nat \<Rightarrow> ib_row list \<Rightarrow> ATR" where
  "put_rows atr p rows =
     atr\<lparr>ib := take p (ib atr) @ rows @ drop (p + length rows) (ib atr), TCK_present := rows_tck (TCK_present atr) rows\<rparr>"

lemma rows_ok_not_Nil: "rows_ok t rows \<Longrightarrow> rows \<noteq> []"
  by (cases rows) auto

lemma rows_bytes_Cons [simp]: "rows_bytes (r # rs) = row_bytes r @ rows_bytes rs"
  by (simp add: rows_bytes_def)

lemma rows_bytes_Nil [simp]: "rows_bytes [] = []"
  by (simp add: rows_bytes_def)

lemma array_row_spec:
  assumes "array_row buffer pointer t = (row, pointer')"
    and "pointer + atr_num_ib_table ! unat (drop_bit 4 (0xF0 AND t)) < length buffer"
  shows "row_matches t row \<and> pointer' = pointer + length (row_bytes row) \<and>
    take (length (row_bytes row)) (drop (pointer + 1) buffer) = row_bytes row"
proof -
  have nth: "take (Suc n) (drop k buffer) = buffer ! k # take n (drop (Suc k) buffer)" if "k < length buffer" for n k
    using that by (simp add: Cons_nth_drop_Suc [symmetric])
  show ?thesis
    using assms unfolding array_row_def array_byte_def num_ib mask_present
    by (cases "bit t 4"; cases "bit t 5"; cases "bit t 6"; cases "bit t 7")
       (auto simp: row_matches_def row_bytes_def nth)
qed

lemma array_row_of_bytes:
  assumes "row_matches t row" "drop (pointer + 1) buffer = row_bytes row @ rest"
  shows "array_row buffer pointer t = (row, pointer + length (row_bytes row))"
proof -
  have nth: "buffer ! (pointer + 1 + i) = row_bytes row ! i" if "i < length (row_bytes row)" for i
  proof -
    have "i < length (drop (pointer + 1) buffer)" using that assms(2) by simp
    then have "buffer ! (pointer + 1 + i) = drop (pointer + 1) buffer ! i" by (subst nth_drop) auto
    then show ?thesis using that assms(2) by (simp add: nth_append)
  qed
  show ?thesis
    using assms(1) nth [of 0] nth [of "Suc 0"] nth [of "Suc (Suc 0)"] nth [of "Suc (Suc (Suc 0))"]
    unfolding array_row_def array_byte_def mask_present
    by (cases row; cases "bit t 4"; cases "bit t 5"; cases "bit t 6"; cases "bit t 7")
       (auto simp: row_matches_def row_bytes_def)
qed

lemma put_rows_Cons:
  assumes "p < length (ib atr)" "TD r = Some td"
  shows "put_rows (atr\<lparr>ib := (ib atr)[p := r], TCK_present := (td AND 0x0F \<noteq> ATR_PROTOCOL_TYPE_T0)\<rparr>) (Suc p) rs =
    put_rows atr p (r # rs)"
  using assms by (simp add: put_rows_def take_Suc_conv_app_nth)

lemma put_rows_single: "p < length (ib atr) \<Longrightarrow> TD r = None \<Longrightarrow> put_rows atr p [r] = atr\<lparr>ib := (ib atr)[p := r]\<rparr>"
  by (simp add: put_rows_def upd_conv_take_nth_drop)

lemma array_interface_rows:
  assumes "array_interface buffer len pointer p t atr = Some (Inr (pointer', p', atr'))"
    and "length buffer = len" "pointer < len" "length (ib atr) = ATR_MAX_PROTOCOLS"
  shows "\<exists>rows. rows_ok t rows \<and> p + length rows = p' + 1 \<and> p' < ATR_MAX_PROTOCOLS \<and> atr' = put_rows atr p rows \<and>
    pointer' = pointer + length (rows_bytes rows) \<and> pointer' < len \<and>
    take (length (rows_bytes rows)) (drop (pointer + 1) buffer) = rows_bytes rows"
  using assms
proof (induction buffer len pointer p t atr rule: array_interface.induct)
  case (1 buffer len pointer p t atr)
  obtain row q where row: "array_row buffer pointer t = (row, q)" by fastforce
  have n: "pointer + atr_num_ib_table ! unat (drop_bit 4 (0xF0 AND t)) < len" and p: "p < ATR_MAX_PROTOCOLS"
    using 1 by (auto simp: array_interface.simps [of buffer] not_le split: if_splits)
  have spec: "row_matches t row" "q = pointer + length (row_bytes row)" "q < len"
    "take (length (row_bytes row)) (drop (pointer + 1) buffer) = row_bytes row"
    using array_row_spec [OF row] n 1(3) row_matches_size [of t row] by (auto simp: length_row_bytes)
  show ?case
  proof (cases "TD row")
    case None
    then have "pointer' = q" "p' = p" "atr' = put_rows atr p [row]"
      using 1(2-) n p row by (auto simp: array_interface.simps [of buffer] put_rows_single)
    then show ?thesis using None spec p by (intro exI [of _ "[row]"]) auto
  next
    case (Some td)
    let ?atr = "atr\<lparr>ib := (ib atr)[p := row], TCK_present := (td AND 0x0F \<noteq> ATR_PROTOCOL_TYPE_T0)\<rparr>"
    have "array_interface buffer len q (p + 1) td ?atr = Some (Inr (pointer', p', atr'))"
      using 1(2,4) n p row Some by (simp add: array_interface.simps [of buffer len pointer])
    then obtain rows where rows: "rows_ok td rows" "p + 1 + length rows = p' + 1" "p' < ATR_MAX_PROTOCOLS"
      "atr' = put_rows ?atr (p + 1) rows" "pointer' = q + length (rows_bytes rows)" "pointer' < len"
      "take (length (rows_bytes rows)) (drop (q + 1) buffer) = rows_bytes rows"
      using 1(1) [OF _ _ _ refl _ refl Some] 1(3-) n p row spec by fastforce
    have "atr' = put_rows atr p (row # rows)"
      using rows(4) p 1(5) Some by (simp add: put_rows_Cons)
    moreover have "take (length (rows_bytes (row # rows))) (drop (pointer + 1) buffer) = rows_bytes (row # rows)"
      using spec rows(7) by (simp add: take_add add.commute)
    ultimately show ?thesis using Some spec rows by (intro exI [of _ "row # rows"]) auto
  qed
qed

lemma array_interface_of_rows:
  assumes "rows_ok t rows" "p + length rows \<le> ATR_MAX_PROTOCOLS" "length (ib atr) = ATR_MAX_PROTOCOLS"
    and "drop (pointer + 1) buffer = rows_bytes rows @ rest" "length buffer = len" "pointer + length (rows_bytes rows) < len"
  shows "array_interface buffer len pointer p t atr =
    Some (Inr (pointer + length (rows_bytes rows), p + length rows - 1, put_rows atr p rows))"
  using assms
proof (induction rows arbitrary: p t atr pointer)
  case (Cons r rows)
  have row: "array_row buffer pointer t = (r, pointer + length (row_bytes r))"
    using Cons.prems by (intro array_row_of_bytes [of _ _ _ _ "rows_bytes rows @ rest"]) auto
  have n: "\<not> len \<le> pointer + atr_num_ib_table ! unat (drop_bit 4 (0xF0 AND t))"
    using Cons.prems row_matches_size [of t r] by (simp add: length_row_bytes)
  show ?case
  proof (cases "TD r")
    case None
    then show ?thesis using Cons.prems row n by (simp add: array_interface.simps [of buffer] put_rows_single)
  next
    case (Some td)
    let ?atr = "atr\<lparr>ib := (ib atr)[p := r], TCK_present := (td AND 0x0F \<noteq> ATR_PROTOCOL_TYPE_T0)\<rparr>"
    have "drop (pointer + length (row_bytes r) + 1) buffer = rows_bytes rows @ rest"
      using arg_cong [OF Cons.prems(4), of "drop (length (row_bytes r))"] by (simp add: add.commute)
    then have "array_interface buffer len (pointer + length (row_bytes r)) (p + 1) td ?atr =
        Some (Inr (pointer + length (row_bytes r) + length (rows_bytes rows), p + 1 + length rows - 1, put_rows ?atr (p + 1) rows))"
      using Cons.prems Some by (intro Cons.IH) auto
    then show ?thesis
      using Cons.prems row n Some by (simp add: array_interface.simps [of buffer len pointer] put_rows_Cons add.assoc)
  qed
qed simp

section \<open>Well-formed answers\<close>

definition atr_wf :: "ATR \<Rightarrow> bool" where
  "atr_wf atr \<longleftrightarrow>
     length (ib atr) = ATR_MAX_PROTOCOLS \<and> 0 < pn atr \<and> pn atr \<le> ATR_MAX_PROTOCOLS \<and>
     rows_ok (T0 atr) (take (pn atr) (ib atr)) \<and> TCK_present atr = rows_tck False (take (pn atr) (ib atr)) \<and>
     hbn atr = unat (T0 atr AND 0x0F) \<and> length (hb atr) = hbn atr \<and> atr_length atr = length (ATR_GetRaw atr)"

text \<open>The bytes as the parser sees them, after the conversion of an inverse-convention answer.\<close>

definition atr_convert :: "byte list \<Rightarrow> byte list" where
  "atr_convert buffer = (if buffer ! 0 = 0x03 then map atr_invert buffer else buffer)"

lemma atr_invert_involution [simp]: "atr_invert (atr_invert b) = b"
proof (rule bit_word_eqI)
  fix n assume "n < LENGTH(8)"
  then have "n < 8" "7 - n < 8" by simp_all
  then show "bit (atr_invert (atr_invert b)) n = bit b n"
    by (simp add: atr_invert_def bit_INVERT_BYTE bit_not_iff)
qed

lemma put_rows_sel [simp]:
  "p \<le> length (ib atr) \<Longrightarrow> take (p + length rows) (ib (put_rows atr p rows)) = take p (ib atr) @ rows"
  "p + length rows \<le> length (ib atr) \<Longrightarrow> length (ib (put_rows atr p rows)) = length (ib atr)"
  "TCK_present (put_rows atr p rows) = rows_tck (TCK_present atr) rows"
  "TS (put_rows atr p rows) = TS atr" "T0 (put_rows atr p rows) = T0 atr" "hbn (put_rows atr p rows) = hbn atr"
  by (auto simp: put_rows_def)

text \<open>The structure both parsers end with.\<close>

definition atr_result :: "ATR \<Rightarrow> byte \<Rightarrow> byte \<Rightarrow> ib_row list \<Rightarrow> byte list \<Rightarrow> byte list \<Rightarrow> ATR \<Rightarrow> bool" where
  "atr_result atr0 ts t0 rows hist tck atr \<longleftrightarrow>
     rows_ok t0 rows \<and> length rows \<le> ATR_MAX_PROTOCOLS \<and> length hist = unat (t0 AND 0x0F) \<and>
     length tck = of_bool (rows_tck False rows) \<and>
     (\<exists>v. atr = (put_rows (atr0\<lparr>TS := ts, T0 := t0, hbn := unat (t0 AND 0x0F), TCK_present := False\<rparr>) 0 rows)
        \<lparr>pn := length rows, hb := hist, TCK_value := v,
         atr_length := 2 + length (rows_bytes rows) + length hist + length tck\<rparr> \<and>
       (\<forall>b. tck = [b] \<longrightarrow> v = b))"

lemma atr_result_wf:
  assumes "atr_result atr0 ts t0 rows hist tck atr" "length (ib atr0) = ATR_MAX_PROTOCOLS"
  shows "atr_wf atr \<and> TS atr = ts \<and> T0 atr = t0 \<and> hb atr = hist \<and> pn atr = length rows \<and> take (pn atr) (ib atr) = rows \<and>
    ATR_GetRaw atr = [ts, t0] @ rows_bytes rows @ hist @ tck"
proof -
  have rows: "rows \<noteq> []" using assms(1) by (auto simp: atr_result_def dest: rows_ok_not_Nil)
  obtain v where atr: "atr = (put_rows (atr0\<lparr>TS := ts, T0 := t0, hbn := unat (t0 AND 0x0F), TCK_present := False\<rparr>) 0 rows)
      \<lparr>pn := length rows, hb := hist, TCK_value := v,
       atr_length := 2 + length (rows_bytes rows) + length hist + length tck\<rparr>" "\<forall>b. tck = [b] \<longrightarrow> v = b"
    using assms(1) by (auto simp: atr_result_def)
  have tck: "tck = (if rows_tck False rows then [v] else [])"
    using assms(1) atr(2) by (cases tck) (auto simp: atr_result_def of_bool_def split: if_splits)
  have hist: "length hist = unat (t0 AND 0x0F)" using assms(1) by (simp add: atr_result_def)
  have raw: "ATR_GetRaw atr = [ts, t0] @ rows_bytes rows @ hist @ tck"
    unfolding tck using hist by (auto simp: atr(1) ATR_GetRaw_def put_rows_def rows_bytes_def)
  then have "atr_length atr = length (ATR_GetRaw atr)" using atr(1) by simp
  moreover have "TS atr = ts" "T0 atr = t0" "hb atr = hist" "pn atr = length rows" "take (pn atr) (ib atr) = rows"
    "TCK_present atr = rows_tck False rows" "hbn atr = unat (t0 AND 0x0F)" "length (ib atr) = length rows + (length (ib atr0) - length rows)"
    by (simp_all add: atr(1) put_rows_def)
  ultimately show ?thesis
    using assms rows raw by (simp add: atr_wf_def atr_result_def)
qed

lemma InitFromArray_result:
  assumes "ATR_InitFromArray atr0 buf len = Some (Inr atr)" "length (ib atr0) = ATR_MAX_PROTOCOLS" "len \<le> length buf"
  shows "\<exists>ts t0 rows hist tck. atr_result atr0 ts t0 rows hist tck atr \<and>
    take (atr_length atr) (atr_convert buf) = [ts, t0] @ rows_bytes rows @ hist @ tck \<and> atr_length atr \<le> len"
proof -
  define buffer where "buffer = take len (atr_convert buf)"
  define atr1 where "atr1 = atr0\<lparr>TS := buffer ! 0, T0 := buffer ! 1, hbn := unat (buffer ! 1 AND 0x0F), TCK_present := False\<rparr>"
  have len: "2 \<le> len" "length buffer = len"
    using assms(1,3) by (auto simp: ATR_InitFromArray_def buffer_def atr_convert_def split: if_splits)
  obtain pointer p atr2 where i: "array_interface buffer len 1 0 (buffer ! 1) atr1 = Some (Inr (pointer, p, atr2))"
    using assms(1) by (auto simp: ATR_InitFromArray_def Let_def buffer_def atr1_def atr_convert_def
      split: if_splits option.splits sum.splits)
  obtain rows where rows: "rows_ok (buffer ! 1) rows" "length rows = p + 1" "p < ATR_MAX_PROTOCOLS"
    "atr2 = put_rows atr1 0 rows" "pointer = 1 + length (rows_bytes rows)" "pointer < len"
    "take (length (rows_bytes rows)) (drop (1 + 1) buffer) = rows_bytes rows"
    using array_interface_rows [OF i len(2)] len(1) assms(2) by (fastforce simp: atr1_def)
  let ?n = "unat (buffer ! 1 AND 0x0F)"
  let ?hist = "take ?n (drop (pointer + 1) buffer)"
  let ?tck = "if rows_tck False rows then [buffer ! (pointer + ?n + 1)] else []"
  have res: "pointer + ?n + length ?tck < len \<and> atr = atr2\<lparr>pn := p + 1, hb := ?hist,
      TCK_value := (if rows_tck False rows then buffer ! (pointer + ?n + 1) else TCK_value atr2),
      atr_length := pointer + 1 + ?n + length ?tck\<rparr>"
    using assms(1) i rows(4) by (auto simp: ATR_InitFromArray_def Let_def buffer_def [symmetric] atr1_def [symmetric]
      atr_convert_def [symmetric] split: if_splits) (auto simp: atr1_def Let_def split: if_splits)
  have take_eq: "take n (atr_convert buf) = take n buffer" if "n \<le> len" for n
    using that by (simp add: buffer_def min_absorb1)
  have L: "atr_length atr = 1 + 1 + length (rows_bytes rows) + ?n + length ?tck" "atr_length atr \<le> len"
    using res rows(5) by auto
  then have "take (atr_length atr) (atr_convert buf) = take (1 + 1 + length (rows_bytes rows) + ?n + length ?tck) buffer"
    using take_eq by metis
  also have "\<dots> = take (1 + 1) buffer @ rows_bytes rows @ ?hist @ take (length ?tck) (drop (pointer + ?n + 1) buffer)"
    using rows(5,7) by (simp only: take_add) (simp add: add.commute)
  also have "take (1 + 1) buffer = [buffer ! 0, buffer ! 1]"
    using len by (simp add: take_Suc_conv_app_nth)
  also have "take (length ?tck) (drop (pointer + ?n + 1) buffer) = ?tck"
    using res len(2) by (auto simp: Cons_nth_drop_Suc [symmetric])
  finally have raw: "take (atr_length atr) (atr_convert buf) = [buffer ! 0, buffer ! 1] @ rows_bytes rows @ ?hist @ ?tck" .
  have "atr_result atr0 (buffer ! 0) (buffer ! 1) rows ?hist ?tck atr"
    using res rows len(2) by (cases atr0) (auto simp: atr_result_def atr1_def put_rows_def)
  then show ?thesis using raw res by (intro exI conjI) auto
qed

text \<open>
  (C5) What \<open>ATR_InitFromArray\<close> accepts it stores faithfully: \<open>ATR_GetRaw\<close> returns
  the received bytes (converted, for an inverse-convention card) up to the size of the
  answer, which lies inside the received data, and the structure is well formed: every
  row of interface bytes is the one announced by the byte before it.
\<close>

theorem ATR_InitFromArray_raw:
  assumes "ATR_InitFromArray atr0 buf len = Some (Inr atr)" "length (ib atr0) = ATR_MAX_PROTOCOLS" "len \<le> length buf"
  shows "atr_wf atr \<and> ATR_GetRaw atr = take (ATR_GetSize atr) (atr_convert buf) \<and>
    ATR_GetSize atr \<le> len \<and> length (ATR_GetRaw atr) \<le> ATR_MAX_SIZE"
proof -
  obtain ts t0 rows hist tck where r: "atr_result atr0 ts t0 rows hist tck atr"
    "take (atr_length atr) (atr_convert buf) = [ts, t0] @ rows_bytes rows @ hist @ tck" "atr_length atr \<le> len"
    using InitFromArray_result [OF assms] by blast
  have "len \<le> ATR_MAX_SIZE" using assms(1) by (auto simp: ATR_InitFromArray_def split: if_splits)
  moreover have wf: "atr_wf atr" and "ATR_GetRaw atr = take (atr_length atr) (atr_convert buf)"
    using atr_result_wf [OF r(1) assms(2)] r(2) by simp_all
  moreover have "length (ATR_GetRaw atr) = atr_length atr" using wf by (simp add: atr_wf_def)
  ultimately show ?thesis unfolding ATR_GetSize_def using r(3) by linarith
qed

text \<open>Memory as allocated, for the witnesses.\<close>

definition blank_ATR :: ATR where
  "blank_ATR =
     \<lparr>atr_length = 0, TS = 0, T0 = 0, ib = replicate 7 \<lparr>TA = None, TB = None, TC = None, TD = None\<rparr>,
      TCK_present = False, TCK_value = 0, pn = 0, hb = [], hbn = 0\<rparr>"

lemmas atr_eval =
  ATR_InitFromArray_def array_interface.simps array_row_def array_byte_def atr_num_ib_table_def
  ATR_MAX_SIZE_def ATR_MAX_PROTOCOLS_def ATR_PROTOCOL_TYPE_T0_def Let_def blank_ATR_def

lemma ATR_InitFromArray_raw_witness:
  "\<exists>atr. ATR_InitFromArray blank_ATR [0x3B, 0x81, 0x11, 0x55, 0x66, 0xA3, 0x00] 7 = Some (Inr atr) \<and>
     ATR_GetRaw atr = [0x3B, 0x81, 0x11, 0x55, 0x66, 0xA3]"
proof -
  have "\<exists>atr. ATR_InitFromArray blank_ATR [0x3B, 0x81, 0x11, 0x55, 0x66, 0xA3, 0x00] 7 = Some (Inr atr) \<and> ATR_GetSize atr = 6"
    by (simp add: atr_eval ATR_GetSize_def)
  then obtain atr where e: "ATR_InitFromArray blank_ATR [0x3B, 0x81, 0x11, 0x55, 0x66, 0xA3, 0x00] 7 = Some (Inr atr)" "ATR_GetSize atr = 6"
    by blast
  then show ?thesis
    using ATR_InitFromArray_raw [OF e(1)] by (simp add: blank_ATR_def ATR_MAX_PROTOCOLS_def atr_convert_def)
qed

section \<open>Parsing from the line\<close>

text \<open>
  \<open>receives os timeout s bs s'\<close>: reading the line byte by byte from \<open>s\<close> gives the
  bytes \<open>bs\<close>, in this order, and ends in \<open>s'\<close>.  \<open>gets\<close> is the same with the
  bytes converted.
\<close>

fun receives :: "'d os \<Rightarrow> nat \<Rightarrow> 'd port \<Rightarrow> byte list \<Rightarrow> 'd port \<Rightarrow> bool" where
  "receives os timeout s [] s' \<longleftrightarrow> s' = s"
| "receives os timeout s (b # bs) s' \<longleftrightarrow>
     (\<exists>s1. run_state (IO_Serial_Read os timeout 1) s = (Some [b], s1) \<and> receives os timeout s1 bs s')"

definition gets :: "'d os \<Rightarrow> nat \<Rightarrow> bool \<Rightarrow> 'd port \<Rightarrow> byte list \<Rightarrow> 'd port \<Rightarrow> bool" where
  "gets os timeout invert s cs s' \<longleftrightarrow>
     (\<exists>bs. receives os timeout s bs s' \<and> cs = (if invert then map atr_invert bs else bs))"

lemma receives_append:
  "receives os timeout s (xs @ ys) s' \<longleftrightarrow> (\<exists>s1. receives os timeout s xs s1 \<and> receives os timeout s1 ys s')"
  by (induction xs arbitrary: s) auto

lemma gets_Nil [simp]: "gets os timeout invert s [] s' \<longleftrightarrow> s' = s"
  by (cases invert) (simp_all add: gets_def)

lemma gets_append [intro]:
  "gets os timeout invert s xs s1 \<Longrightarrow> gets os timeout invert s1 ys s' \<Longrightarrow> gets os timeout invert s (xs @ ys) s'"
  unfolding gets_def by (cases invert) (auto simp: receives_append, metis map_append receives_append)

lemma gets_NextByte:
  assumes "run_state (ATR_GetNextByte os timeout invert) s = (Some b, s')" shows "gets os timeout invert s [b] s'"
proof -
  obtain bs where r: "run_state (IO_Serial_Read os timeout 1) s = (Some bs, s')" and b: "b = (if invert then atr_invert (hd bs) else hd bs)"
    using assms by (auto simp: ATR_GetNextByte_def split: prod.splits option.splits)
  have "bs = [hd bs]" using serial_reader.rd_length [OF TrueI r] by (cases bs) auto
  then have "run_state (IO_Serial_Read os timeout 1) s = (Some [hd bs], s')" using r by argo
  then have "receives os timeout s [hd bs] s'" by (simp only: receives.simps) blast
  then show ?thesis unfolding gets_def using b by (intro exI [of _ "[hd bs]"]) simp
qed

definition opt_bytes :: "byte option \<Rightarrow> byte list" where
  "opt_bytes x = (case x of Some b \<Rightarrow> [b] | None \<Rightarrow> [])"

lemma gets_stream_byte:
  assumes "run_state (stream_byte os timeout invert present) s = (Some x, s')"
  shows "gets os timeout invert s (opt_bytes x) s' \<and> (x \<noteq> None \<longleftrightarrow> present)"
  using assms unfolding stream_byte_def opt_bytes_def
  by (auto simp del: run_opt_bind split: if_splits elim!: opt_bind_SomeE intro!: gets_NextByte)

lemma stream_row_matches:
  assumes "run_state (stream_row os timeout invert t) s = (Some row, s')"
  shows "row_matches t row \<and> gets os timeout invert s (row_bytes row) s'"
proof -
  obtain a s1 b s2 c s3 d where
    a: "run_state (stream_byte os timeout invert (t OR 0xEF = 0xFF)) s = (Some a, s1)" and
    b: "run_state (stream_byte os timeout invert (t OR 0xDF = 0xFF)) s1 = (Some b, s2)" and
    c: "run_state (stream_byte os timeout invert (t OR 0xBF = 0xFF)) s2 = (Some c, s3)" and
    d: "run_state (stream_byte os timeout invert (t OR 0x7F = 0xFF)) s3 = (Some d, s')" and
    row: "row = \<lparr>TA = a, TB = b, TC = c, TD = d\<rparr>"
    using assms unfolding stream_row_def by (auto simp del: run_opt_bind elim!: opt_bind_SomeE)
  note all = a [THEN gets_stream_byte] b [THEN gets_stream_byte] c [THEN gets_stream_byte] d [THEN gets_stream_byte]
  have "gets os timeout invert s (opt_bytes a @ opt_bytes b @ opt_bytes c @ opt_bytes d) s'"
    using all by blast
  moreover have "row_bytes row = opt_bytes a @ opt_bytes b @ opt_bytes c @ opt_bytes d"
    by (simp add: row row_bytes_def opt_bytes_def)
  ultimately show ?thesis using all by (simp add: row row_matches_def mask_present)
qed

lemma gets_stream_historical:
  "run_state (stream_historical n os timeout invert acc) s = (Some hs, s') \<Longrightarrow>
   \<exists>ds. hs = acc @ ds \<and> length ds = n \<and> gets os timeout invert s ds s'"
proof (induction n arbitrary: acc s)
  case (Suc n)
  obtain b s1 where b: "run_state (ATR_GetNextByte os timeout invert) s = (Some b, s1)"
    and rest: "run_state (stream_historical n os timeout invert (acc @ [b])) s1 = (Some hs, s')"
    using Suc.prems by (auto simp del: run_opt_bind elim!: opt_bind_SomeE)
  obtain ds where "hs = (acc @ [b]) @ ds" "length ds = n" "gets os timeout invert s1 ds s'"
    using Suc.IH [OF rest] by blast
  then show ?case using gets_append [OF gets_NextByte [OF b]] by (intro exI [of _ "b # ds"]) simp
qed simp

lemma stream_interface_rows:
  assumes "run_state (stream_interface left os timeout invert pointer p t atr) s = (Some (Inr (pointer', p', atr')), s')"
    and "length (ib atr) = ATR_MAX_PROTOCOLS" "p + left = ATR_MAX_PROTOCOLS"
  shows "\<exists>rows. rows_ok t rows \<and> p + length rows = p' + 1 \<and> p' < ATR_MAX_PROTOCOLS \<and> atr' = put_rows atr p rows \<and>
    pointer' = pointer + length (rows_bytes rows) \<and> gets os timeout invert s (rows_bytes rows) s'"
  using assms
proof (induction left arbitrary: pointer p t atr s)
  case (Suc left)
  obtain row s1 where row: "run_state (stream_row os timeout invert t) s = (Some row, s1)"
    using Suc.prems(1) by (auto split: prod.splits option.splits)
  have m: "row_matches t row" and g: "gets os timeout invert s (row_bytes row) s1"
    using stream_row_matches [OF row] by simp_all
  have p: "p < ATR_MAX_PROTOCOLS" using Suc.prems(3) by simp
  show ?case
  proof (cases "TD row")
    case None
    then have "pointer' = pointer + row_size row" "p' = p" "atr' = put_rows atr p [row]" "s' = s1"
      using Suc.prems(1,2) row p by (auto simp: put_rows_single)
    then show ?thesis using None m p g by (intro exI [of _ "[row]"]) (simp add: length_row_bytes)
  next
    case (Some td)
    let ?atr = "atr\<lparr>ib := (ib atr)[p := row], TCK_present := (td AND 0x0F \<noteq> ATR_PROTOCOL_TYPE_T0)\<rparr>"
    have "run_state (stream_interface left os timeout invert (pointer + row_size row) (p + 1) td ?atr) s1 =
        (Some (Inr (pointer', p', atr')), s')"
      using Suc.prems(1) row Some p by simp
    then obtain rows where rows: "rows_ok td rows" "p + 1 + length rows = p' + 1" "p' < ATR_MAX_PROTOCOLS"
      "atr' = put_rows ?atr (p + 1) rows" "pointer' = pointer + row_size row + length (rows_bytes rows)"
      "gets os timeout invert s1 (rows_bytes rows) s'"
      using Suc.IH [of "pointer + row_size row" "p + 1" td ?atr s1] Suc.prems(2,3) by auto
    then show ?thesis
      using Some m p Suc.prems(2) gets_append [OF g] by (intro exI [of _ "row # rows"]) (simp add: put_rows_Cons length_row_bytes)
  qed
qed simp

lemma stream_body_result:
  assumes "run_state (stream_body os timeout invert
      (atr0\<lparr>TS := ts, T0 := t0, hbn := unat (t0 AND 0x0F), TCK_present := False\<rparr>)) s = (Some (Inr atr), s')"
    and "length (ib atr0) = ATR_MAX_PROTOCOLS"
  shows "\<exists>rows hist tck. atr_result atr0 ts t0 rows hist tck atr \<and>
    gets os timeout invert s (rows_bytes rows @ hist @ tck) s'"
proof -
  let ?atr1 = "atr0\<lparr>TS := ts, T0 := t0, hbn := unat (t0 AND 0x0F), TCK_present := False\<rparr>"
  obtain pointer p atr2 s2 where i:
    "run_state (stream_interface ATR_MAX_PROTOCOLS os timeout invert 1 0 t0 ?atr1) s = (Some (Inr (pointer, p, atr2)), s2)"
    using assms(1) unfolding stream_body_def by (auto split: prod.splits option.splits sum.splits)
  then obtain rows where rows: "rows_ok t0 rows" "length rows = p + 1" "p < ATR_MAX_PROTOCOLS" "atr2 = put_rows ?atr1 0 rows"
    "pointer = 1 + length (rows_bytes rows)" "gets os timeout invert s (rows_bytes rows) s2"
    using stream_interface_rows [OF i] assms(2) by auto
  obtain hist s3 where h: "run_state (stream_historical (unat (t0 AND 0x0F)) os timeout invert []) s2 = (Some hist, s3)"
    using assms(1) i rows(4) unfolding stream_body_def by (auto split: prod.splits option.splits)
  have len: "length hist = unat (t0 AND 0x0F)" and gh: "gets os timeout invert s2 hist s3"
    using gets_stream_historical [OF h] by auto
  obtain tck where tck: "length tck = of_bool (rows_tck False rows)" "gets os timeout invert s3 tck s'"
      "atr = atr2\<lparr>pn := p + 1, hb := hist,
        TCK_value := (if tck = [] then TCK_value atr0 else hd tck), atr_length := pointer + 1 + length hist + length tck\<rparr>"
  proof (cases "rows_tck False rows")
    case True
    then obtain b where "atr = atr2\<lparr>pn := p + 1, hb := hist, TCK_value := b, atr_length := pointer + 2 + length hist\<rparr>"
        "run_state (ATR_GetNextByte os timeout invert) s3 = (Some b, s')"
      using assms(1) i h rows(4) len unfolding stream_body_def
      by (auto simp: Let_def split: prod.splits option.splits)
    then show thesis using True that [of "[b]"] gets_NextByte [of os timeout invert s3 b s'] by simp
  next
    case False
    then have "atr = atr2\<lparr>pn := p + 1, hb := hist, atr_length := pointer + 1 + length hist\<rparr>" "s' = s3"
      using assms(1) i h rows(4) len unfolding stream_body_def by (auto simp: Let_def)
    then show thesis using False that [of "[]"] rows(4) by (cases atr0) (simp add: put_rows_def)
  qed
  then have "atr_result atr0 ts t0 rows hist tck atr"
    using rows len by (cases atr0) (auto simp: atr_result_def put_rows_def)
  then show ?thesis using gets_append [OF rows(6) gets_append [OF gh tck(2)]] by blast
qed

lemma atr_invert_03: "atr_invert 0x03 = 0x3F"
  by (simp add: atr_invert_def INVERT_BYTE_def)

lemma InitFromStream_result:
  assumes "run_state (ATR_InitFromStream os atr0 timeout) s = (Some (Inr atr), s')" "length (ib atr0) = ATR_MAX_PROTOCOLS"
  shows "\<exists>ts t0 rows hist tck bs. atr_result atr0 ts t0 rows hist tck atr \<and> (ts = 0x3B \<or> ts = 0x3F) \<and>
    receives os timeout s bs s' \<and> atr_convert bs = [ts, t0] @ rows_bytes rows @ hist @ tck"
proof -
  obtain b s1 t0 s2 ts invert where b: "run_state (ATR_GetNextByte os timeout False) s = (Some b, s1)"
    and ts: "(ts, invert) = (if b = 0x03 then (0x3F, True) else (b, False))" "ts = 0x3B \<or> ts = 0x3F"
    and t0: "run_state (ATR_GetNextByte os timeout invert) s1 = (Some t0, s2)"
    and body: "run_state (stream_body os timeout invert
      (atr0\<lparr>TS := ts, T0 := t0, hbn := unat (t0 AND 0x0F), TCK_present := False\<rparr>)) s2 = (Some (Inr atr), s')"
    using assms(1) unfolding ATR_InitFromStream_def
    by (auto simp: Let_def split: prod.splits option.splits if_splits)
  obtain rows hist tck where r: "atr_result atr0 ts t0 rows hist tck atr" "gets os timeout invert s2 (rows_bytes rows @ hist @ tck) s'"
    using stream_body_result [OF body assms(2)] by blast
  obtain cs where cs: "receives os timeout s1 cs s'"
      "[t0] @ rows_bytes rows @ hist @ tck = (if invert then map atr_invert cs else cs)"
    using gets_append [OF gets_NextByte [OF t0] r(2)] unfolding gets_def by blast
  have "receives os timeout s [b] s1" using gets_NextByte [OF b] by (simp add: gets_def)
  then have "receives os timeout s (b # cs) s'" using cs(1) receives_append [of os timeout s "[b]" cs s'] by auto
  moreover have "atr_convert (b # cs) = [ts, t0] @ rows_bytes rows @ hist @ tck"
    using cs(2) ts(1) by (auto simp: atr_convert_def atr_invert_03 split: if_splits)
  ultimately show ?thesis using r(1) ts(2) by blast
qed

text \<open>The array parser looks at the converted bytes only.\<close>

lemma InitFromArray_convert:
  assumes "atr_convert bs ! 0 \<noteq> 0x03" "length bs = len"
  shows "ATR_InitFromArray atr bs len = ATR_InitFromArray atr (atr_convert bs) len"
  using assms by (simp add: ATR_InitFromArray_def atr_convert_def)

lemma InitFromArray_of_raw:
  assumes "atr_wf atr" "TS atr \<noteq> 0x03" "atr_length atr \<le> ATR_MAX_SIZE" "length (ib atr0) = ATR_MAX_PROTOCOLS"
  shows "\<exists>atr'. ATR_InitFromArray atr0 (ATR_GetRaw atr) (ATR_GetSize atr) = Some (Inr atr') \<and>
    (\<exists>tck. atr_result atr0 (TS atr) (T0 atr) (take (pn atr) (ib atr)) (hb atr) tck atr' \<and>
       ATR_GetRaw atr = [TS atr, T0 atr] @ rows_bytes (take (pn atr) (ib atr)) @ hb atr @ tck)"
proof -
  let ?rows = "take (pn atr) (ib atr)" and ?raw = "ATR_GetRaw atr" and ?t0 = "T0 atr"
  let ?tck = "if TCK_present atr then [TCK_value atr] else []"
  let ?atr1 = "atr0\<lparr>TS := TS atr, T0 := ?t0, hbn := unat (?t0 AND 0x0F), TCK_present := False\<rparr>"
  have wf: "rows_ok ?t0 ?rows" "length ?rows = pn atr" "0 < pn atr" "pn atr \<le> ATR_MAX_PROTOCOLS"
    "TCK_present atr = rows_tck False ?rows" "length (hb atr) = unat (?t0 AND 0x0F)" "atr_length atr = length ?raw"
    using assms(1) by (auto simp: atr_wf_def)
  have raw: "?raw = [TS atr, ?t0] @ rows_bytes ?rows @ hb atr @ ?tck"
    using assms(1) by (auto simp: ATR_GetRaw_def rows_bytes_def atr_wf_def)
  have i: "array_interface ?raw (length ?raw) 1 0 ?t0 ?atr1 =
      Some (Inr (1 + length (rows_bytes ?rows), pn atr - 1, put_rows ?atr1 0 ?rows))"
    using array_interface_of_rows [OF wf(1), of 0 ?atr1 1 ?raw "hb atr @ ?tck" "length ?raw"] wf assms(4) raw by simp
  have "ATR_InitFromArray atr0 ?raw (length ?raw) = Some (Inr ((put_rows ?atr1 0 ?rows)\<lparr>pn := pn atr, hb := hb atr,
      TCK_value := (if TCK_present atr then TCK_value atr else TCK_value atr0),
      atr_length := 2 + length (rows_bytes ?rows) + length (hb atr) + length ?tck\<rparr>))"
  proof -
    let ?p = "1 + length (rows_bytes ?rows)" and ?n = "unat (?t0 AND 0x0F)"
    have at: "?raw ! 0 = TS atr" "?raw ! 1 = ?t0" using raw by simp_all
    have len: "length ?raw = ?p + 1 + ?n + length ?tck" using raw wf(6) by simp
    have hist: "take ?n (drop (?p + 1) ?raw) = hb atr" using raw wf(6) by simp
    have tck: "TCK_present atr \<Longrightarrow> ?raw ! (?p + ?n + 1) = TCK_value atr"
      using raw wf(6) by (simp add: nth_append)
    have "2 \<le> length ?raw" "length ?raw \<le> ATR_MAX_SIZE" using raw assms(3) wf(7) by simp_all
    then show ?thesis
      unfolding ATR_InitFromArray_def
      using i assms(2) wf(3,5,6) at len hist tck
      by (cases "TCK_present atr"; cases atr0) (simp_all add: Let_def put_rows_def)
  qed
  then show ?thesis
    using raw wf by (auto simp: atr_result_def ATR_GetSize_def)
qed

lemma atr_wf_fields:
  assumes "atr_wf x" "atr_wf y" "ATR_GetRaw x = ATR_GetRaw y" "take (pn x) (ib x) = take (pn y) (ib y)" "hb x = hb y" "T0 x = T0 y"
  shows "ATR_GetHistoricalBytes x = ATR_GetHistoricalBytes y \<and> ATR_GetCheckByte x = ATR_GetCheckByte y"
proof -
  have w: "TCK_present a = rows_tck False (take (pn a) (ib a))" "hbn a = unat (T0 a AND 0x0F)" if "atr_wf a" for a
    using that by (simp_all add: atr_wf_def)
  have e: "TCK_present x = TCK_present y" "hbn x = hbn y" using w [OF assms(1)] w [OF assms(2)] assms(4,6) by simp_all
  have last: "last (ATR_GetRaw a) = TCK_value a" if "TCK_present a" for a
    using that by (simp add: ATR_GetRaw_def)
  have "TCK_present y \<longrightarrow> TCK_value x = TCK_value y"
    using last [of x] last [of y] e(1) assms(3) by metis
  then show ?thesis using e assms(5) by (simp add: ATR_GetCheckByte_def ATR_GetHistoricalBytes_def)
qed

text \<open>
  (C4) The two parsers agree on the bytes the card sends.  When \<open>ATR_InitFromStream\<close>
  accepts an answer, it has read some bytes \<open>bs\<close> from the line, one after the other and
  no more; the structure is well formed, begins with 3B or 3F, and its raw form is \<open>bs\<close>
  (converted, for an inverse-convention card); and, when \<open>bs\<close> fits the 33-byte ATR
  buffer, \<open>ATR_InitFromArray\<close> applied to the same \<open>bs\<close> accepts it too, with the
  same interface bytes, historical bytes, check byte and raw form.
\<close>

theorem ATR_stream_array_agree:
  assumes "run_state (ATR_InitFromStream os atr0 timeout) s = (Some (Inr atr), s')"
    and "length (ib atr0) = ATR_MAX_PROTOCOLS" "length (ib atr1) = ATR_MAX_PROTOCOLS"
  shows "atr_wf atr \<and> ATR_GetConvention atr \<noteq> Inl ATR_MALFORMED \<and>
    (\<exists>bs. receives os timeout s bs s' \<and> ATR_GetRaw atr = atr_convert bs \<and>
      (length bs \<le> ATR_MAX_SIZE \<longrightarrow>
        (\<exists>atr'. ATR_InitFromArray atr1 bs (length bs) = Some (Inr atr') \<and>
           ATR_GetRaw atr' = atr_convert bs \<and> pn atr' = pn atr \<and> take (pn atr') (ib atr') = take (pn atr) (ib atr) \<and>
           ATR_GetHistoricalBytes atr' = ATR_GetHistoricalBytes atr \<and> ATR_GetCheckByte atr' = ATR_GetCheckByte atr)))"
proof -
  obtain ts t0 rows hist tck bs where r: "atr_result atr0 ts t0 rows hist tck atr" "ts = 0x3B \<or> ts = 0x3F"
    and bs: "receives os timeout s bs s'" "atr_convert bs = [ts, t0] @ rows_bytes rows @ hist @ tck"
    using InitFromStream_result [OF assms(1,2)] by blast
  note a = atr_result_wf [OF r(1) assms(2)]
  have raw: "ATR_GetRaw atr = atr_convert bs" using a bs(2) by simp
  have len: "ATR_GetSize atr = length bs"
    using a arg_cong [OF raw, of length] by (simp add: ATR_GetSize_def atr_wf_def atr_convert_def split: if_splits)
  have c0: "atr_convert bs ! 0 \<noteq> 0x03" using bs(2) r(2) by auto
  have "ATR_GetConvention atr \<noteq> Inl ATR_MALFORMED" using a r(2) by (auto simp: ATR_GetConvention_def)
  moreover have "\<exists>atr'. ATR_InitFromArray atr1 bs (length bs) = Some (Inr atr') \<and>
         ATR_GetRaw atr' = atr_convert bs \<and> pn atr' = pn atr \<and> take (pn atr') (ib atr') = take (pn atr) (ib atr) \<and>
         ATR_GetHistoricalBytes atr' = ATR_GetHistoricalBytes atr \<and> ATR_GetCheckByte atr' = ATR_GetCheckByte atr"
    if size: "length bs \<le> ATR_MAX_SIZE"
  proof -
    obtain atr' tck' where n: "ATR_InitFromArray atr1 (ATR_GetRaw atr) (ATR_GetSize atr) = Some (Inr atr')"
      "atr_result atr1 (TS atr) (T0 atr) (take (pn atr) (ib atr)) (hb atr) tck' atr'"
      "ATR_GetRaw atr = [TS atr, T0 atr] @ rows_bytes (take (pn atr) (ib atr)) @ hb atr @ tck'"
      using InitFromArray_of_raw [of atr atr1] a r(2) size len assms(3) by (auto simp: ATR_GetSize_def)
    have b: "atr_wf atr'" "ATR_GetRaw atr' = ATR_GetRaw atr" "pn atr' = pn atr" "take (pn atr') (ib atr') = take (pn atr) (ib atr)"
      "hb atr' = hb atr" "T0 atr' = T0 atr"
      using n(3) atr_result_wf [OF n(2) assms(3)] a by auto
    show ?thesis
      using n(1) b atr_wf_fields [OF b(1) _ b(2,4,5,6)] a InitFromArray_convert [OF c0, of "length bs" atr1] raw len by auto
  qed
  ultimately show ?thesis using a bs(1) raw by blast
qed

lemmas stream_interface_numeral =
  stream_interface.simps(2) [of 6, unfolded Suc_numeral semiring_norm]
  stream_interface.simps(2) [of 5, unfolded Suc_numeral semiring_norm]

text \<open>
  A card of the inverse convention: the line carries 03, the driver stores 3F, and so on.
\<close>

lemma atr_invert_samples: "atr_invert 0x79 = 0x61" "atr_invert 0x5B = 0x25" "atr_invert 0xAF = 0x0A" "atr_invert 0x55 = 0x55"
  by (simp_all add: atr_invert_def INVERT_BYTE_def)

lemma ATR_stream_array_agree_witness:
  "\<exists>atr s' bs. run_state (ATR_InitFromStream script_os blank_ATR 100)
      (set_rx [0x03, 0x79, 0x5B, 0xAF, 0x55] (script_port [] None)) = (Some (Inr atr), s') \<and>
     receives script_os 100 (set_rx [0x03, 0x79, 0x5B, 0xAF, 0x55] (script_port [] None)) bs s' \<and>
     ATR_GetRaw atr = atr_convert bs \<and> ATR_GetSize atr = 5"
proof -
  let ?s = "set_rx [0x03, 0x79, 0x5B, 0xAF, 0x55] (script_port [] None)"
  have "\<exists>atr s'. run_state (ATR_InitFromStream script_os blank_ATR 100) ?s = (Some (Inr atr), s') \<and> ATR_GetSize atr = 5"
    by (simp add: ATR_InitFromStream_def ATR_GetNextByte_def stream_body_def stream_row_def stream_byte_def row_size_def
        ATR_GetSize_def Let_def ATR_PROTOCOL_TYPE_T0_def ATR_MAX_PROTOCOLS_def blank_ATR_def stream_interface_numeral atr_invert_samples)
  then obtain atr s' where e: "run_state (ATR_InitFromStream script_os blank_ATR 100) ?s = (Some (Inr atr), s')" "ATR_GetSize atr = 5"
    by blast
  have l: "length (ib blank_ATR) = ATR_MAX_PROTOCOLS" by (simp add: blank_ATR_def ATR_MAX_PROTOCOLS_def)
  show ?thesis using ATR_stream_array_agree [OF e(1) l l] e by blast
qed

text \<open>
  Seven chained \<open>TD\<close> bytes and an eighth: the parser writes row 7 of the seven rows of
  \<open>ib\<close> before it tests the number of the protocol.
\<close>

lemma ATR_InitFromArray_overruns:
  "ATR_InitFromArray blank_ATR (0x3B # replicate 9 0x80) 10 = None"
  by code_simp

end
