(* ===== verification/AtrSync.thy ===== *)
theory AtrSync
  imports Interfaces
begin

text \<open>
  The four-byte answer to reset of synchronous (memory) cards,
  \<^verbatim>\<open>src/src/driver/atr_sync.c\<close> and \<^verbatim>\<open>atr_sync.h\<close>.
\<close>

datatype atr_sync_ret = ATR_SYNC_OK | ATR_SYNC_UNKNOWN_STRUCTURE | ATR_SYNC_MALFORMED

definition ATR_SYNC_SIZE :: nat where "ATR_SYNC_SIZE = 4"
definition ATR_SYNC_PROTOCOL_TYPE_SDA :: byte where "ATR_SYNC_PROTOCOL_TYPE_SDA = 0x08"
definition ATR_SYNC_PROTOCOL_TYPE_3W :: byte where "ATR_SYNC_PROTOCOL_TYPE_3W = 0x09"
definition ATR_SYNC_PROTOCOL_TYPE_2W :: byte where "ATR_SYNC_PROTOCOL_TYPE_2W = 0x0A"
definition ATR_SYNC_STRUCTURE_ID_GENERAL :: byte where "ATR_SYNC_STRUCTURE_ID_GENERAL = 0x02"
definition ATR_SYNC_CATEGORY_INDICATOR :: byte where "ATR_SYNC_CATEGORY_INDICATOR = 0x10"

definition ATR_SYNC_IS_DIR_DATA_REFERENCE :: "byte \<Rightarrow> bool" where
  "ATR_SYNC_IS_DIR_DATA_REFERENCE ddr \<longleftrightarrow> ddr AND 0x80 = 0x80"

definition ATR_SYNC_DIR_DATA_REFERENCE :: "byte \<Rightarrow> byte" where
  "ATR_SYNC_DIR_DATA_REFERENCE ddr = ddr AND 0x7F"

record ATR_Sync =
  H1 :: byte
  H2 :: byte
  H3 :: byte
  H4 :: byte

definition ATR_Sync_New :: ATR_Sync where
  "ATR_Sync_New = \<lparr>H1 = 0x00, H2 = 0x00, H3 = 0x00, H4 = 0x00\<rparr>"

definition ATR_Sync_Init :: "ATR_Sync \<Rightarrow> byte list \<Rightarrow> nat \<Rightarrow> atr_sync_ret \<times> ATR_Sync" where
  "ATR_Sync_Init atr buffer len =
     (if len < 4 then (ATR_SYNC_MALFORMED, atr)
      else
        let atr' = \<lparr>H1 = buffer ! 0, H2 = buffer ! 1, H3 = buffer ! 2, H4 = buffer ! 3\<rparr>
        in (if buffer ! 0 AND 0x03 = 0x02
            then (if buffer ! 2 = 0x10 then ATR_SYNC_OK else ATR_SYNC_MALFORMED)
            else ATR_SYNC_UNKNOWN_STRUCTURE, atr'))"

definition ATR_Sync_GetProtocolType :: "ATR_Sync \<Rightarrow> byte" where
  "ATR_Sync_GetProtocolType atr = drop_bit 4 (H1 atr) AND 0x0F"

definition ATR_Sync_GetStructureID :: "ATR_Sync \<Rightarrow> byte" where
  "ATR_Sync_GetStructureID atr = H1 atr AND 0x07"

definition ATR_Sync_GetProtocolParameter :: "ATR_Sync \<Rightarrow> byte" where
  "ATR_Sync_GetProtocolParameter atr = H2 atr"

text \<open>The loop \<open>for (i = 0; i < n; i++) ret *= 2\<close> on a 32-bit \<open>unsigned\<close>.\<close>

fun double_loop :: "nat \<Rightarrow> nat \<Rightarrow> nat" where
  "double_loop 0 ret = ret"
| "double_loop (Suc n) ret = double_loop n (uint32 (ret * 2))"

definition ATR_Sync_GetNumberOfDataUnits :: "ATR_Sync \<Rightarrow> nat" where
  "ATR_Sync_GetNumberOfDataUnits atr =
     (let e = unat (drop_bit 3 (H2 atr) AND 0x0F)
      in if e = 0 then 0 else double_loop e 64)"

definition ATR_Sync_GetLengthOfDataUnits :: "ATR_Sync \<Rightarrow> nat" where
  "ATR_Sync_GetLengthOfDataUnits atr = double_loop (unat (H2 atr AND 0x07)) 1"

definition ATR_Sync_GetReadToEnd :: "ATR_Sync \<Rightarrow> bool" where
  "ATR_Sync_GetReadToEnd atr \<longleftrightarrow> H2 atr AND 0x80 = 0x00"

definition ATR_Sync_GetHistoricalBytes :: "ATR_Sync \<Rightarrow> byte list" where
  "ATR_Sync_GetHistoricalBytes atr = [H3 atr, H4 atr]"

definition ATR_Sync_GetCategoryIndicator :: "ATR_Sync \<Rightarrow> byte" where
  "ATR_Sync_GetCategoryIndicator atr = H3 atr"

definition ATR_Sync_GetDirDataReference :: "ATR_Sync \<Rightarrow> byte" where
  "ATR_Sync_GetDirDataReference atr = H4 atr"

definition ATR_Sync_GetRaw :: "ATR_Sync \<Rightarrow> byte list" where
  "ATR_Sync_GetRaw atr = [H1 atr, H2 atr, H3 atr, H4 atr]"

lemma double_loop_eq: "ret * 2 ^ n < 4294967296 \<Longrightarrow> double_loop n ret = ret * 2 ^ n"
proof (induction n arbitrary: ret)
  case (Suc n)
  have "ret \<le> ret * 2 ^ n" by simp
  moreover have "ret * 2 ^ n < 2147483648" using Suc.prems by simp
  ultimately have "ret < 2147483648" by (rule le_less_trans)
  then have "uint32 (ret * 2) = ret * 2" by simp
  then show ?case using Suc.prems Suc.IH [of "ret * 2"] by (simp add: mult.assoc)
qed simp

lemma exponent_bounds: "unat (drop_bit 3 (b :: byte) AND 0x0F) \<le> 15" "unat (b AND 0x07) \<le> 7"
  using word_and_le1 [of "drop_bit 3 b" "0x0F"] word_and_le1 [of b "0x07"]
  by (simp_all add: word_le_nat_alt)

text \<open>
  The size of a memory card: the number of data units is a power of two between
  \<open>2 ^ 7\<close> and \<open>2 ^ 21\<close> (or unknown, 0), a unit has \<open>2 ^ u\<close> bits, neither loop
  wraps its 32-bit counter and neither does the product the drivers compute.
\<close>

lemma ATR_Sync_memory_size:
  "ATR_Sync_GetLengthOfDataUnits atr = 2 ^ unat (H2 atr AND 0x07) \<and>
   ATR_Sync_GetNumberOfDataUnits atr =
     (let e = unat (drop_bit 3 (H2 atr) AND 0x0F) in if e = 0 then 0 else 2 ^ (6 + e)) \<and>
   ATR_Sync_GetNumberOfDataUnits atr * ATR_Sync_GetLengthOfDataUnits atr \<le> 2 ^ 28"
proof -
  let ?e = "unat (drop_bit 3 (H2 atr) AND 0x0F)" and ?u = "unat (H2 atr AND 0x07)"
  have e: "(2 :: nat) ^ ?e \<le> 32768" and u: "(2 :: nat) ^ ?u \<le> 128"
    using power_increasing [OF exponent_bounds(1) [of "H2 atr"], of "2 :: nat"]
      power_increasing [OF exponent_bounds(2) [of "H2 atr"], of "2 :: nat"] by simp_all
  have loops: "double_loop ?e 64 = 64 * 2 ^ ?e" "double_loop ?u 1 = 1 * 2 ^ ?u"
    using e u by (intro double_loop_eq; simp)+
  moreover have "64 * 2 ^ ?e * 2 ^ ?u \<le> 64 * 32768 * (128 :: nat)"
    using e u by (intro mult_mono) auto
  ultimately show ?thesis
    by (auto simp: ATR_Sync_GetNumberOfDataUnits_def ATR_Sync_GetLengthOfDataUnits_def Let_def power_add)
qed

end
