(* ===== verification/Ifd.thy ===== *)
theory Ifd
  imports Atr AtrSync
begin

text \<open>
  The Towitoko interface device, \<^verbatim>\<open>src/src/driver/ifd_towitoko.c\<close> and
  \<^verbatim>\<open>ifd_towitoko.h\<close>, built with strict checking of the answer to reset.  Every command
  is a short byte string closed by a checksum; the device answers with data and a status
  byte.  The structure \<open>IFD\<close> is passed and returned by value; the serial port it points
  to is the state of the monad.
\<close>

section \<open>Constants and data\<close>

datatype ifd_ret =
  IFD_TOWITOKO_OK | IFD_TOWITOKO_IO_ERROR | IFD_TOWITOKO_CHK_ERROR | IFD_TOWITOKO_PARAM_ERROR
  | IFD_TOWITOKO_UNSUPPORTED

datatype icc_kind =
  IFD_TOWITOKO_I2C_SHORT | IFD_TOWITOKO_I2C_LONG | IFD_TOWITOKO_2W | IFD_TOWITOKO_3W | IFD_TOWITOKO_ASYNC

definition IFD_TOWITOKO_SLOT_A :: byte where "IFD_TOWITOKO_SLOT_A = 0x00"
definition IFD_TOWITOKO_SLOT_B :: byte where "IFD_TOWITOKO_SLOT_B = 0x01"
definition IFD_TOWITOKO_CHIPDRIVE_EXT_II :: byte where "IFD_TOWITOKO_CHIPDRIVE_EXT_II = 0x88"
definition IFD_TOWITOKO_CHIPDRIVE_EXT_I :: byte where "IFD_TOWITOKO_CHIPDRIVE_EXT_I = 0x84"
definition IFD_TOWITOKO_CHIPDRIVE_INT :: byte where "IFD_TOWITOKO_CHIPDRIVE_INT = 0x90"
definition IFD_TOWITOKO_KARTENZWERG :: byte where "IFD_TOWITOKO_KARTENZWERG = 0x80"
definition IFD_TOWITOKO_KARTENZWERG_II :: byte where "IFD_TOWITOKO_KARTENZWERG_II = 0x64"
definition IFD_TOWITOKO_CHIPDRIVE_MICRO :: byte where "IFD_TOWITOKO_CHIPDRIVE_MICRO = 0x61"
definition IFD_TOWITOKO_UNKNOWN :: byte where "IFD_TOWITOKO_UNKNOWN = 0x00"
definition IFD_TOWITOKO_LED_OFF :: byte where "IFD_TOWITOKO_LED_OFF = 0x00"
definition IFD_TOWITOKO_LED_RED :: byte where "IFD_TOWITOKO_LED_RED = 0x01"
definition IFD_TOWITOKO_LED_GREEN :: byte where "IFD_TOWITOKO_LED_GREEN = 0x02"
definition IFD_TOWITOKO_LED_YELLOW :: byte where "IFD_TOWITOKO_LED_YELLOW = 0x03"
definition IFD_TOWITOKO_PARITY_ODD :: byte where "IFD_TOWITOKO_PARITY_ODD = 0x80"
definition IFD_TOWITOKO_PARITY_EVEN :: byte where "IFD_TOWITOKO_PARITY_EVEN = 0x40"
definition IFD_TOWITOKO_TIMEOUT :: nat where "IFD_TOWITOKO_TIMEOUT = 1000"
definition IFD_TOWITOKO_DELAY :: nat where "IFD_TOWITOKO_DELAY = 0"
definition IFD_TOWITOKO_BAUDRATE :: nat where "IFD_TOWITOKO_BAUDRATE = 9600"
definition IFD_TOWITOKO_PS :: nat where "IFD_TOWITOKO_PS = 15"
definition IFD_TOWITOKO_MAX_TRANSMIT :: nat where "IFD_TOWITOKO_MAX_TRANSMIT = 255"
definition IFD_TOWITOKO_ATR_TIMEOUT :: nat where "IFD_TOWITOKO_ATR_TIMEOUT = 400"
definition IFD_TOWITOKO_CLOCK_RATE :: nat where "IFD_TOWITOKO_CLOCK_RATE = 372 * 9600"
definition IFD_TOWITOKO_PIN_SIZE :: nat where "IFD_TOWITOKO_PIN_SIZE = 3"

definition IFD_TOWITOKO_CARD :: "byte \<Rightarrow> bool" where
  "IFD_TOWITOKO_CARD status \<longleftrightarrow> status AND 0x40 = 0x40"

definition IFD_TOWITOKO_CHANGE :: "byte \<Rightarrow> bool" where
  "IFD_TOWITOKO_CHANGE status \<longleftrightarrow> status AND 0x80 = 0x80"

record IFD_Timings =
  block_delay :: nat
  char_delay :: nat
  block_timeout :: nat
  char_timeout :: nat

text \<open>\<open>ifd_io\<close> says whether the pointer to the serial port is set.\<close>

record IFD =
  ifd_io :: bool
  slot :: byte
  ifd_type :: byte
  firmware :: byte

definition IFD_Towitoko_Clear :: IFD where
  "IFD_Towitoko_Clear = \<lparr>ifd_io = False, slot = 0x00, ifd_type = 0x00, firmware = 0x00\<rparr>"

definition IFD_Towitoko_New :: IFD where
  "IFD_Towitoko_New = IFD_Towitoko_Clear"

section \<open>Checksums and command exchange\<close>

text \<open>One turn of the checksum loop: a rotation to the left that complements the carry.\<close>

definition checksum_step :: "byte \<Rightarrow> byte \<Rightarrow> byte" where
  "checksum_step checksum b =
     (let c = checksum XOR b;
          x7 = drop_bit 7 (c AND 0x80);
          c' = push_bit 1 c
      in if x7 = 0 then c' OR 0x01 else c' AND 0xFE)"

definition IFD_Towitoko_Checksum :: "byte list \<Rightarrow> byte \<Rightarrow> byte" where
  "IFD_Towitoko_Checksum command initial = foldl checksum_step initial command"

definition IFD_Towitoko_NumTrials :: "byte \<Rightarrow> nat" where
  "IFD_Towitoko_NumTrials b =
     snd (foldl (\<lambda>(b, count) _. (drop_bit 1 b, count + (if b AND 0x01 = 0x01 then 1 else 0))) (b, 0 :: nat) [0..<8])"

text \<open>
  The checksum is stored at the end of the first \<open>size\<close> bytes of the command; at the
  highest rate the size is sent first.  On an error the command keeps its old last byte,
  and the callers ignore the error.
\<close>

definition IFD_Towitoko_PrepareCommand :: "'d os \<Rightarrow> IFD \<Rightarrow> byte list \<Rightarrow> nat \<Rightarrow> ('d, ifd_ret \<times> byte list) io" where
  "IFD_Towitoko_PrepareCommand os ifd command n = do {
     p \<leftarrow> IO_Serial_GetProperties os;
     case p of
       None \<Rightarrow> State_Monad.return (IFD_TOWITOKO_IO_ERROR, command)
     | Some q \<Rightarrow>
         if output_bitrate q \<ge> 115200 then do {
           ok \<leftarrow> IO_Serial_Write os IFD_TOWITOKO_DELAY [low_byte (n - 1)];
           State_Monad.return
             (if \<not> ok then (IFD_TOWITOKO_IO_ERROR, command)
              else (IFD_TOWITOKO_OK, command[n - 1 := IFD_Towitoko_Checksum (take (n - 1) command)
                      (IFD_Towitoko_Checksum [low_byte (n - 1)] (slot ifd))])) }
         else State_Monad.return
           (IFD_TOWITOKO_OK, command[n - 1 := IFD_Towitoko_Checksum (take (n - 1) command) (slot ifd)]) }"

text \<open>
  The steps every command takes: close it, write it, read \<open>k\<close> bytes of answer.  The
  closed command is returned too, since some callers change it and send it again.
\<close>

definition ifd_exchange :: "'d os \<Rightarrow> IFD \<Rightarrow> byte list \<Rightarrow> nat \<Rightarrow> ('d, (ifd_ret + byte list) \<times> byte list) io" where
  "ifd_exchange os ifd command k = do {
     (_, cmd) \<leftarrow> IFD_Towitoko_PrepareCommand os ifd command (length command);
     ok \<leftarrow> IO_Serial_Write os IFD_TOWITOKO_DELAY cmd;
     if \<not> ok then State_Monad.return (Inl IFD_TOWITOKO_IO_ERROR, cmd) else do {
     r \<leftarrow> IO_Serial_Read os IFD_TOWITOKO_TIMEOUT k;
     State_Monad.return (case r of None \<Rightarrow> Inl IFD_TOWITOKO_IO_ERROR | Some bs \<Rightarrow> Inr bs, cmd) }}"

text \<open>A command answered by the single status byte 01.\<close>

definition ifd_command :: "'d os \<Rightarrow> IFD \<Rightarrow> byte list \<Rightarrow> ('d, ifd_ret \<times> byte list) io" where
  "ifd_command os ifd command = do {
     (r, cmd) \<leftarrow> ifd_exchange os ifd command 1;
     State_Monad.return
       (case r of Inl e \<Rightarrow> e | Inr st \<Rightarrow> if st ! 0 \<noteq> 0x01 then IFD_TOWITOKO_CHK_ERROR else IFD_TOWITOKO_OK, cmd) }"

text \<open>The rest of a function, run when a step returned \<open>IFD_TOWITOKO_OK\<close>.\<close>

definition ifd_then :: "('d, ifd_ret) io \<Rightarrow> ('d, ifd_ret) io \<Rightarrow> ('d, ifd_ret) io" where
  "ifd_then m n = do { r \<leftarrow> m; if r \<noteq> IFD_TOWITOKO_OK then State_Monad.return r else n }"

section \<open>The device\<close>

definition IFD_Towitoko_GetMaxBaudrate :: "IFD \<Rightarrow> nat" where
  "IFD_Towitoko_GetMaxBaudrate ifd = 115200"

definition IFD_Towitoko_GetClockRate :: "IFD \<Rightarrow> nat" where
  "IFD_Towitoko_GetClockRate ifd = IFD_TOWITOKO_CLOCK_RATE"

text \<open>The divisors of the rates, bytes 1 and 3 of the command.\<close>

definition baudrate_code :: "nat \<Rightarrow> (byte \<times> byte) option" where
  "baudrate_code baudrate =
     (if baudrate \<le> 1200 then Some (0x60, 0x07)
      else if baudrate \<le> 2400 then Some (0x2E, 0x03)
      else if baudrate \<le> 4800 then Some (0x17, 0x05)
      else if baudrate \<le> 6975 then Some (0x0F, 0x01)
      else if baudrate \<le> 9600 then Some (0x0B, 0x02)
      else if baudrate \<le> 14400 then Some (0x07, 0x01)
      else if baudrate \<le> 19200 then Some (0x05, 0x02)
      else if baudrate \<le> 28800 then Some (0x03, 0x00)
      else if baudrate \<le> 38400 then Some (0x02, 0x00)
      else if baudrate \<le> 57600 then Some (0x01, 0x00)
      else if baudrate \<le> 115200 then Some (0x80, 0x00)
      else None)"

definition IFD_Towitoko_SetBaudrate :: "'d os \<Rightarrow> IFD \<Rightarrow> nat \<Rightarrow> ('d, ifd_ret) io" where
  "IFD_Towitoko_SetBaudrate os ifd baudrate =
     (if IFD_Towitoko_GetMaxBaudrate ifd < baudrate then State_Monad.return IFD_TOWITOKO_PARAM_ERROR
      else do {
        p \<leftarrow> IO_Serial_GetProperties os;
        case p of
          None \<Rightarrow> State_Monad.return IFD_TOWITOKO_IO_ERROR
        | Some q \<Rightarrow>
            if output_bitrate q = baudrate then State_Monad.return IFD_TOWITOKO_OK
            else (case baudrate_code baudrate of
                None \<Rightarrow> State_Monad.return IFD_TOWITOKO_PARAM_ERROR
              | Some (b1, b3) \<Rightarrow> do {
                  (r, _) \<leftarrow> ifd_command os ifd [0x6E, b1, b1 XOR 0x5D, b3, 0x08, 0x00];
                  if r \<noteq> IFD_TOWITOKO_OK then State_Monad.return r else do {
                  ok \<leftarrow> IO_Serial_SetProperties os (q\<lparr>output_bitrate := baudrate, input_bitrate := baudrate\<rparr>);
                  if \<not> ok then State_Monad.return IFD_TOWITOKO_IO_ERROR else do {
                  _ \<leftarrow> syscall (os_nanosleep os 150);
                  State_Monad.return IFD_TOWITOKO_OK }}}) })"

definition IFD_Towitoko_GetBaudrate :: "'d os \<Rightarrow> ('d, ifd_ret + nat) io" where
  "IFD_Towitoko_GetBaudrate os = do {
     p \<leftarrow> IO_Serial_GetProperties os;
     State_Monad.return (case p of None \<Rightarrow> Inl IFD_TOWITOKO_IO_ERROR | Some q \<Rightarrow> Inr (output_bitrate q)) }"

definition IFD_Towitoko_SetParity :: "'d os \<Rightarrow> IFD \<Rightarrow> byte \<Rightarrow> ('d, ifd_ret) io" where
  "IFD_Towitoko_SetParity os ifd par =
     (if ifd_type ifd = IFD_TOWITOKO_KARTENZWERG then State_Monad.return IFD_TOWITOKO_UNSUPPORTED
      else if par \<noteq> IFD_TOWITOKO_PARITY_EVEN \<and> par \<noteq> IFD_TOWITOKO_PARITY_ODD
      then State_Monad.return IFD_TOWITOKO_PARAM_ERROR
      else do {
        p \<leftarrow> IO_Serial_GetProperties os;
        case p of
          None \<Rightarrow> State_Monad.return IFD_TOWITOKO_IO_ERROR
        | Some q \<Rightarrow> do {
            let odd = (parity q = IO_SERIAL_PARITY_ODD);
            let q1 = (if odd then q\<lparr>parity := IO_SERIAL_PARITY_EVEN\<rparr> else q);
            ok \<leftarrow> (if odd then IO_Serial_SetProperties os q1 else State_Monad.return True);
            if \<not> ok then State_Monad.return IFD_TOWITOKO_IO_ERROR else do {
            (r, _) \<leftarrow> ifd_exchange os ifd [0x6F, par, 0x6A, 0x0F, 0x00] 1;
            case r of
              Inl e \<Rightarrow> State_Monad.return e
            | Inr _ \<Rightarrow>
                if par = IFD_TOWITOKO_PARITY_ODD \<and> parity q1 = IO_SERIAL_PARITY_EVEN then do {
                  ok2 \<leftarrow> IO_Serial_SetProperties os (q1\<lparr>parity := IO_SERIAL_PARITY_ODD\<rparr>);
                  State_Monad.return (if \<not> ok2 then IFD_TOWITOKO_IO_ERROR else IFD_TOWITOKO_OK) }
                else State_Monad.return IFD_TOWITOKO_OK }} })"

definition IFD_Towitoko_SetLED :: "'d os \<Rightarrow> IFD \<Rightarrow> byte \<Rightarrow> ('d, ifd_ret) io" where
  "IFD_Towitoko_SetLED os ifd color =
     (if color \<noteq> IFD_TOWITOKO_LED_RED \<and> color \<noteq> IFD_TOWITOKO_LED_GREEN \<and>
         color \<noteq> IFD_TOWITOKO_LED_YELLOW \<and> color \<noteq> IFD_TOWITOKO_LED_OFF
      then State_Monad.return IFD_TOWITOKO_PARAM_ERROR
      else do {
        (r, _) \<leftarrow> ifd_command os ifd [0x6F, color, 0x6A, 0x0F, 0x00];
        State_Monad.return r })"

text \<open>A status request that times out is sent a second time.\<close>

definition IFD_Towitoko_GetStatus :: "'d os \<Rightarrow> IFD \<Rightarrow> ('d, ifd_ret + byte) io" where
  "IFD_Towitoko_GetStatus os ifd = do {
     (_, cmd) \<leftarrow> IFD_Towitoko_PrepareCommand os ifd [0x03, 0x07] 2;
     ok \<leftarrow> IO_Serial_Write os IFD_TOWITOKO_DELAY cmd;
     if \<not> ok then State_Monad.return (Inl IFD_TOWITOKO_IO_ERROR) else do {
     r \<leftarrow> IO_Serial_Read os IFD_TOWITOKO_TIMEOUT 2;
     case r of
       Some st \<Rightarrow> State_Monad.return (Inr (st ! 0))
     | None \<Rightarrow> do {
         (r2, _) \<leftarrow> ifd_exchange os ifd cmd 2;
         State_Monad.return (case r2 of Inl e \<Rightarrow> Inl e | Inr st \<Rightarrow> Inr (st ! 0)) } }}"

definition IFD_Towitoko_ActivateICC :: "'d os \<Rightarrow> IFD \<Rightarrow> ('d, ifd_ret) io" where
  "IFD_Towitoko_ActivateICC os ifd = do {
     (r, _) \<leftarrow> ifd_command os ifd [0x60, 0x0F, 0x9C];
     State_Monad.return r }"

definition IFD_Towitoko_DeactivateICC :: "'d os \<Rightarrow> IFD \<Rightarrow> ('d, ifd_ret) io" where
  "IFD_Towitoko_DeactivateICC os ifd = do {
     (r, _) \<leftarrow> ifd_command os ifd [0x61, 0x0F, 0x98];
     State_Monad.return r }"

definition IFD_Towitoko_GetReaderInfo :: "'d os \<Rightarrow> IFD \<Rightarrow> ('d, ifd_ret \<times> IFD) io" where
  "IFD_Towitoko_GetReaderInfo os ifd = do {
     ok \<leftarrow> IO_Serial_Write os IFD_TOWITOKO_DELAY [0x00, IFD_Towitoko_Checksum [0x00] (slot ifd)];
     if \<not> ok then State_Monad.return (IFD_TOWITOKO_IO_ERROR, ifd) else do {
     r \<leftarrow> IO_Serial_Read os IFD_TOWITOKO_TIMEOUT 3;
     State_Monad.return
       (case r of
          None \<Rightarrow> (IFD_TOWITOKO_IO_ERROR, ifd)
        | Some st \<Rightarrow> (IFD_TOWITOKO_OK, ifd\<lparr>ifd_type := st ! 0, firmware := st ! 1\<rparr>)) }}"

definition default_properties :: IO_Serial_Properties where
  "default_properties =
     \<lparr>input_bitrate = IFD_TOWITOKO_BAUDRATE, output_bitrate = IFD_TOWITOKO_BAUDRATE, bits = 8, stopbits = 2,
      parity = IO_SERIAL_PARITY_EVEN, dtr = IO_SERIAL_HIGH, rts = IO_SERIAL_HIGH\<rparr>"

definition IFD_Towitoko_Init :: "'d os \<Rightarrow> IFD \<Rightarrow> byte \<Rightarrow> ('d, ifd_ret \<times> IFD) io" where
  "IFD_Towitoko_Init os ifd sl =
     (if sl \<noteq> IFD_TOWITOKO_SLOT_A \<and> sl \<noteq> IFD_TOWITOKO_SLOT_B
      then State_Monad.return (IFD_TOWITOKO_PARAM_ERROR, ifd)
      else do {
        ok \<leftarrow> IO_Serial_SetProperties os default_properties;
        if \<not> ok then State_Monad.return (IFD_TOWITOKO_IO_ERROR, ifd) else do {
        let ifd = ifd\<lparr>ifd_io := True, slot := sl, ifd_type := IFD_TOWITOKO_UNKNOWN\<rparr>;
        r \<leftarrow> IFD_Towitoko_SetBaudrate os ifd IFD_TOWITOKO_BAUDRATE;
        if r \<noteq> IFD_TOWITOKO_OK then State_Monad.return (r, IFD_Towitoko_Clear) else do {
        r \<leftarrow> IFD_Towitoko_SetParity os ifd IFD_TOWITOKO_PARITY_EVEN;
        if r \<noteq> IFD_TOWITOKO_OK then State_Monad.return (r, IFD_Towitoko_Clear) else do {
        (r, ifd) \<leftarrow> IFD_Towitoko_GetReaderInfo os ifd;
        if r \<noteq> IFD_TOWITOKO_OK then State_Monad.return (r, IFD_Towitoko_Clear)
        else if ifd_type ifd = IFD_TOWITOKO_KARTENZWERG then do {
          ok \<leftarrow> IO_Serial_SetProperties os
            (default_properties\<lparr>parity := IO_SERIAL_PARITY_NONE, stopbits := 1\<rparr>);
          State_Monad.return (if \<not> ok then (IFD_TOWITOKO_IO_ERROR, IFD_Towitoko_Clear) else (IFD_TOWITOKO_OK, ifd)) }
        else State_Monad.return (IFD_TOWITOKO_OK, ifd) }}}})"

definition IFD_Towitoko_Close :: "'d os \<Rightarrow> IFD \<Rightarrow> ('d, ifd_ret \<times> IFD) io" where
  "IFD_Towitoko_Close os ifd = do {
     r \<leftarrow> IFD_Towitoko_SetLED os ifd IFD_TOWITOKO_LED_OFF;
     State_Monad.return (if r \<noteq> IFD_TOWITOKO_OK then (r, ifd) else (IFD_TOWITOKO_OK, IFD_Towitoko_Clear)) }"

definition IFD_Towitoko_GetType :: "IFD \<Rightarrow> byte" where
  "IFD_Towitoko_GetType ifd = ifd_type ifd"

definition IFD_Towitoko_GetFirmware :: "IFD \<Rightarrow> byte" where
  "IFD_Towitoko_GetFirmware ifd = firmware ifd"

definition IFD_Towitoko_GetSlot :: "IFD \<Rightarrow> byte" where
  "IFD_Towitoko_GetSlot ifd = slot ifd"

definition IFD_Towitoko_GetNumSlots :: "IFD \<Rightarrow> nat" where
  "IFD_Towitoko_GetNumSlots ifd = (if ifd_type ifd = IFD_TOWITOKO_CHIPDRIVE_EXT_II then 2 else 1)"

definition hex_digit :: "nat \<Rightarrow> char" where
  "hex_digit n = (if n < 10 then char_of (48 + n) else char_of (55 + n))"

text \<open>
  \<open>snprintf (buffer, 3, "%02X", firmware)\<close>, copied behind the three characters of the
  type, all cut to the length of the caller's buffer.
\<close>

definition IFD_Towitoko_GetDescription :: "IFD \<Rightarrow> nat \<Rightarrow> string" where
  "IFD_Towitoko_GetDescription ifd len =
     take len
       ((if ifd_type ifd = IFD_TOWITOKO_CHIPDRIVE_EXT_II then ''CE2''
         else if ifd_type ifd = IFD_TOWITOKO_CHIPDRIVE_EXT_I then ''CE1''
         else if ifd_type ifd = IFD_TOWITOKO_CHIPDRIVE_INT then ''CDI''
         else if ifd_type ifd = IFD_TOWITOKO_CHIPDRIVE_MICRO then ''CDM''
         else if ifd_type ifd = IFD_TOWITOKO_KARTENZWERG_II then ''KZ2''
         else if ifd_type ifd = IFD_TOWITOKO_KARTENZWERG then ''KZ1''
         else ''UNK'') @
        [hex_digit (unat (firmware ifd) div 16), hex_digit (unat (firmware ifd) mod 16)])"

section \<open>The checksum detects a changed byte\<close>

lemma bit_checksum_step:
  "bit (checksum_step c b) n \<longleftrightarrow> (if n = 0 then \<not> bit (c XOR b) 7 else n < 8 \<and> bit (c XOR b) (n - 1))"
proof -
  have x7: "drop_bit 7 (x AND 0x80) = 0 \<longleftrightarrow> \<not> bit x 7" for x :: byte
  proof -
    have "drop_bit 7 (x AND 0x80) = of_bool (bit x 7)"
      by (rule byte_eqI) (auto simp: bit_simps)
    then show ?thesis by simp
  qed
  have fe: "bit (0xFE :: byte) n \<longleftrightarrow> 0 < n \<and> n < 8"
    using byte_high_bit [of "0xFE" n] by (auto simp: less_8_cases)
  have one: "bit (1 :: byte) n \<longleftrightarrow> n = 0" by (simp add: bit_1_iff)
  have shift: "bit (push_bit 1 x) n \<longleftrightarrow> 0 < n \<and> n < 8 \<and> bit x (n - 1)" for x :: byte
    unfolding bit_push_bit_iff by (auto simp: Suc_le_eq)
  have "bit (if drop_bit 7 (x AND 0x80) = 0 then push_bit 1 x OR 0x01 else push_bit 1 x AND 0xFE) n \<longleftrightarrow>
      (if n = 0 then \<not> bit x 7 else n < 8 \<and> bit x (n - 1))" for x :: byte
    by (cases "bit x 7"; simp only: x7 simp_thms if_True if_False bit_or_iff bit_and_iff fe one shift) auto
  then show ?thesis unfolding checksum_step_def Let_def by blast
qed

lemma checksum_step_inj: "checksum_step c a = checksum_step c' b \<longleftrightarrow> c XOR a = c' XOR b"
proof
  assume eq: "checksum_step c a = checksum_step c' b"
  show "c XOR a = c' XOR b"
  proof (rule bit_word_eqI)
    fix n assume "n < LENGTH(8)"
    then consider "n = 7" | "n < 7" by force
    then show "bit (c XOR a) n = bit (c' XOR b) n"
    proof cases
      case 1
      then show ?thesis using eq bit_checksum_step [of c a 0] bit_checksum_step [of c' b 0] by simp
    next
      case 2
      then show ?thesis using eq bit_checksum_step [of c a "Suc n"] bit_checksum_step [of c' b "Suc n"] by simp
    qed
  qed
qed (simp add: checksum_step_def)

lemma foldl_checksum_inj: "foldl checksum_step c xs = foldl checksum_step c' xs \<longleftrightarrow> c = c'"
proof (induction xs arbitrary: c c')
  case (Cons x xs)
  have "c XOR x = c' XOR x \<longleftrightarrow> c = c'" by (metis xor.assoc xor.right_neutral xor_self_eq)
  then show ?case by (simp add: Cons.IH checksum_step_inj)
qed simp

text \<open>
  Any change of a single byte of a command changes its checksum, and so does a change
  of the slot it is computed for.
\<close>

lemma IFD_Towitoko_Checksum_detects:
  "(IFD_Towitoko_Checksum (xs @ a # ys) sl = IFD_Towitoko_Checksum (xs @ b # ys) sl \<longleftrightarrow> a = b) \<and>
   (IFD_Towitoko_Checksum xs sl = IFD_Towitoko_Checksum xs sl' \<longleftrightarrow> sl = sl')"
proof -
  have "c XOR a = c XOR b \<longleftrightarrow> a = b" for c :: byte
    by (metis xor.assoc xor.left_neutral xor_self_eq)
  then show ?thesis by (simp add: IFD_Towitoko_Checksum_def foldl_checksum_inj checksum_step_inj)
qed

section \<open>What the device is sent\<close>

text \<open>
  The line is set up when the properties are cached; below the highest rate a command is
  sent as it stands, with the checksum in its last byte.
\<close>

definition line_ready :: "IO_Serial_Properties \<Rightarrow> IO_Serial \<Rightarrow> bool" where
  "line_ready q io \<longleftrightarrow> props io = Some q"

definition sealed :: "IFD \<Rightarrow> byte list \<Rightarrow> byte list" where
  "sealed ifd body = body @ [IFD_Towitoko_Checksum body (slot ifd)]"

lemma line_readyD: "line_ready q io \<Longrightarrow> props io = Some q"
  by (simp add: line_ready_def)

lemma update_last: "xs \<noteq> [] \<Longrightarrow> xs[length xs - 1 := x] = butlast xs @ [x]"
  by (cases xs rule: rev_cases) auto

lemma sends_Prepare:
  assumes "output_bitrate q < 115200"
  shows "sends wire (line_ready q) (IFD_Towitoko_PrepareCommand os ifd command n)
    (\<lambda>(r, c) cs. cs = [] \<and> r = IFD_TOWITOKO_OK \<and>
       c = command[n - 1 := IFD_Towitoko_Checksum (take (n - 1) command) (slot ifd)])"
  unfolding IFD_Towitoko_PrepareCommand_def
  by (rule sends_bind [OF sends_GetProperties_cached [OF line_readyD]])
     (use assms in \<open>auto intro: sends_return\<close>)

lemma sends_exchange:
  assumes "posix_line os wire" "output_bitrate q < 115200" "command \<noteq> []"
  shows "sends wire (line_ready q) (ifd_exchange os ifd command k)
    (\<lambda>(r, c) cs. c = sealed ifd (butlast command) \<and> sends_upto c (\<exists>bs. r = Inr bs) cs \<and>
       (\<forall>bs. r = Inr bs \<longrightarrow> length bs = k) \<and> (\<forall>e. r = Inl e \<longrightarrow> e = IFD_TOWITOKO_IO_ERROR))"
proof -
  have c: "command[length command - 1 := IFD_Towitoko_Checksum (take (length command - 1) command) (slot ifd)] =
      sealed ifd (butlast command)"
    by (simp only: sealed_def update_last [OF assms(3)] butlast_conv_take [symmetric])
  have rd: "sends wire (line_ready q) (do { r \<leftarrow> IO_Serial_Read os IFD_TOWITOKO_TIMEOUT k;
        State_Monad.return (case r of None \<Rightarrow> Inl IFD_TOWITOKO_IO_ERROR | Some bs \<Rightarrow> Inr bs, c) })
      (\<lambda>(r, c') cs. c' = c \<and> cs = [] \<and> (\<forall>bs. r = Inr bs \<longrightarrow> length bs = k) \<and> (\<forall>e. r = Inl e \<longrightarrow> e = IFD_TOWITOKO_IO_ERROR))" for c :: "byte list"
    by (rule sends_bind [OF sends_Read [OF assms(1)]]) (auto intro!: sends_return split: option.splits)
  show ?thesis
    unfolding ifd_exchange_def
  proof (rule sends_bind [OF sends_Prepare [OF assms(2)]], clarsimp simp only: c prod.case append.simps)
    show "sends wire (line_ready q) (do {
        ok \<leftarrow> IO_Serial_Write os IFD_TOWITOKO_DELAY (sealed ifd (butlast command));
        if \<not> ok then State_Monad.return (Inl IFD_TOWITOKO_IO_ERROR, sealed ifd (butlast command))
        else do {
          r \<leftarrow> IO_Serial_Read os IFD_TOWITOKO_TIMEOUT k;
          State_Monad.return (case r of None \<Rightarrow> Inl IFD_TOWITOKO_IO_ERROR | Some bs \<Rightarrow> Inr bs, sealed ifd (butlast command)) } })
      (\<lambda>(r, c) cs. c = sealed ifd (butlast command) \<and> sends_upto c (\<exists>bs. r = Inr bs) cs \<and>
         (\<forall>bs. r = Inr bs \<longrightarrow> length bs = k) \<and> (\<forall>e. r = Inl e \<longrightarrow> e = IFD_TOWITOKO_IO_ERROR))"
      by (rule sends_bind [OF sends_Write [OF assms(1)]], rule sends_if, rule sends_return)
         (auto simp: sends_upto_def intro!: sends_conseq [OF rd])
  qed
qed

lemma sends_command:
  assumes "posix_line os wire" "output_bitrate q < 115200" "command \<noteq> []"
  shows "sends wire (line_ready q) (ifd_command os ifd command)
    (\<lambda>(r, c) cs. c = sealed ifd (butlast command) \<and> sends_upto c (r = IFD_TOWITOKO_OK) cs)"
  unfolding ifd_command_def
  by (rule sends_bind [OF sends_exchange [OF assms]])
     (auto simp: sends_upto_def split: sum.splits intro!: sends_return)

section \<open>Changing the rate\<close>

lemma frame_GetProperties [vcg]: "props io = Some q \<Longrightarrow> keeps (frame io) (IO_Serial_GetProperties os)"
  by (rule keepsI) (auto simp: frame_def IO_Serial_GetProperties_def IO_Serial_GetPropertiesCache_def)

lemma frame_command:
  assumes "props io = Some q" shows "keeps (frame io) (ifd_command os ifd cmd)"
  unfolding ifd_command_def ifd_exchange_def IFD_Towitoko_PrepareCommand_def
  by (intro vcg frame_GetProperties [OF assms])

text \<open>The fastest speed of the line that is not above a rate.\<close>

definition fastest_speed :: "nat \<Rightarrow> speed \<Rightarrow> bool" where
  "fastest_speed b s \<longleftrightarrow> speed_bitrate s \<le> b \<and>
     (\<forall>s'. s' \<noteq> B_other \<and> speed_bitrate s' \<le> b \<longrightarrow> speed_bitrate s' \<le> speed_bitrate s)"

lemma fastest_speed_Bitrate: "b \<le> 115200 \<Longrightarrow> fastest_speed b (IO_Serial_Bitrate (int32 b))"
  using IO_Serial_Bitrate_greatest [of "int b"] by (simp add: fastest_speed_def int32_small)

lemma baudrate_code_Some: "b \<le> 115200 \<Longrightarrow> \<exists>b1 b3. baudrate_code b = Some (b1, b3)"
  by (simp add: baudrate_code_def)

lemma GetBaudrate_cached:
  "props (p_io p) = Some q \<Longrightarrow> run_state (IFD_Towitoko_GetBaudrate os) p = (Inr (output_bitrate q), p)"
  by (simp add: IFD_Towitoko_GetBaudrate_def GetProperties_cached)

text \<open>What a change of the rate asks for, from the settings it found.\<close>

definition rate_asked :: "'d os \<Rightarrow> IFD \<Rightarrow> nat \<Rightarrow> IO_Serial_Properties \<Rightarrow> 'd port \<Rightarrow> 'd port \<Rightarrow> bool" where
  "rate_asked os ifd b q p0 p' \<longleftrightarrow>
     (\<exists>b1 b3 c p1 d. baudrate_code b = Some (b1, b3) \<and>
        run_state (ifd_command os ifd [0x6E, b1, b1 XOR 0x5D, b3, 0x08, 0x00]) p0 = ((IFD_TOWITOKO_OK, c), p1) \<and>
        settings_asked os (fd (p_io p0)) (properties_termios (q\<lparr>output_bitrate := b, input_bitrate := b\<rparr>))
          (properties_lines q) (p_dev p1) d \<and>
        run_state (os_nanosleep os 150) d = ((), p_dev p'))"

lemma SetBaudrate_asks:
  assumes "run_state (IO_Serial_GetProperties os) p = (Some q, p0)" "output_bitrate q \<noteq> b" "b \<le> 115200"
    "run_state (IFD_Towitoko_SetBaudrate os ifd b) p = (r, p')"
  shows "if r = IFD_TOWITOKO_OK
    then rate_asked os ifd b q p0 p' \<and> props (p_io p') = Some (q\<lparr>output_bitrate := b, input_bitrate := b\<rparr>)
    else p_io p' = p_io p0"
proof -
  let ?q = "q\<lparr>output_bitrate := b, input_bitrate := b\<rparr>"
  obtain b1 b3 where code: "baudrate_code b = Some (b1, b3)" using baudrate_code_Some [OF assms(3)] by blast
  obtain r1 c p1 where cmd: "run_state (ifd_command os ifd [0x6E, b1, b1 XOR 0x5D, b3, 0x08, 0x00]) p0 = ((r1, c), p1)"
    by (metis surj_pair)
  have p0: "p_io p0 = (p_io p)\<lparr>props := Some q\<rparr>" by (rule GetPropertiesD [OF assms(1)])
  have p1: "p_io p1 = p_io p0"
    using keepsD [OF frame_command cmd, of "p_io p0" q] p0 by (simp add: frame_def)
  obtain ok p2 where set: "run_state (IO_Serial_SetProperties os ?q) p1 = (ok, p2)" by fastforce
  obtain d where d: "run_state (os_nanosleep os 150) (p_dev p2) = ((), d)"
    by (cases "run_state (os_nanosleep os 150) (p_dev p2)") auto
  have "r = (if r1 \<noteq> IFD_TOWITOKO_OK then r1 else if ok then IFD_TOWITOKO_OK else IFD_TOWITOKO_IO_ERROR) \<and>
      p' = (if r1 \<noteq> IFD_TOWITOKO_OK then p1 else if ok then p2\<lparr>p_dev := d\<rparr> else p2)"
    using assms code cmd set d
    by (auto simp: IFD_Towitoko_SetBaudrate_def IFD_Towitoko_GetMaxBaudrate_def split: if_splits)
  moreover have "rate_asked os ifd b q p0 (p2\<lparr>p_dev := d\<rparr>)" if "ok" "r1 = IFD_TOWITOKO_OK"
    using that code cmd d p1 SetPropertiesD [OF set] unfolding rate_asked_def properties_lines_def by auto
  ultimately show ?thesis
    using SetPropertiesD [OF set] p1 by (cases ok; cases "r1 = IFD_TOWITOKO_OK") auto
qed

text \<open>
  (C40) Changing the rate.  Rates above 115200 are refused without touching the line.  On
  success the new rate is what \<open>IFD_Towitoko_GetBaudrate\<close> reports, and, when it differs
  from the one found, the reader has acknowledged the command for it and the system
  has been asked, successfully, for the fastest standard speed not above it in both
  directions, with the other settings as they were.  On failure the cached settings
  stay.
\<close>

theorem IFD_Towitoko_SetBaudrate_correct:
  assumes "run_state (IFD_Towitoko_SetBaudrate os ifd b) p = (r, p')"
  shows "(b > 115200 \<longrightarrow> r = IFD_TOWITOKO_PARAM_ERROR \<and> p' = p) \<and>
    (r = IFD_TOWITOKO_OK \<longrightarrow> run_state (IFD_Towitoko_GetBaudrate os) p' = (Inr b, p') \<and>
      (\<exists>q p0. run_state (IO_Serial_GetProperties os) p = (Some q, p0) \<and>
        (if output_bitrate q = b then p' = p0 else rate_asked os ifd b q p0 p') \<and>
        (let t = properties_termios (q\<lparr>output_bitrate := b, input_bitrate := b\<rparr>) in
         fastest_speed b (c_ispeed t) \<and> fastest_speed b (c_ospeed t) \<and>
         t = (properties_termios q)\<lparr>c_ispeed := c_ispeed t, c_ospeed := c_ospeed t\<rparr>))) \<and>
    (r \<noteq> IFD_TOWITOKO_OK \<longrightarrow> (\<forall>q. props (p_io p) = Some q \<longrightarrow> p_io p' = p_io p))"
proof (cases "b > 115200")
  case True
  then show ?thesis
    using assms by (auto simp: IFD_Towitoko_SetBaudrate_def IFD_Towitoko_GetMaxBaudrate_def)
next
  case b: False
  obtain x p0 where get: "run_state (IO_Serial_GetProperties os) p = (x, p0)" by fastforce
  show ?thesis
  proof (cases x)
    case None
    then show ?thesis
      using assms get b GetProperties_cached [of p _ os]
      by (auto simp: IFD_Towitoko_SetBaudrate_def IFD_Towitoko_GetMaxBaudrate_def)
  next
    case (Some q)
    have p0: "p_io p0 = (p_io p)\<lparr>props := Some q\<rparr>" by (rule GetPropertiesD [OF get [unfolded Some]])
    have cached: "p0 = p" if "props (p_io p) = Some q'" for q'
      using GetProperties_cached [OF that, of os] get by simp
    let ?t = "properties_termios (q\<lparr>output_bitrate := b, input_bitrate := b\<rparr>)"
    have t: "fastest_speed b (c_ispeed ?t) \<and> fastest_speed b (c_ospeed ?t) \<and>
        ?t = (properties_termios q)\<lparr>c_ispeed := c_ispeed ?t, c_ospeed := c_ospeed ?t\<rparr>"
      using fastest_speed_Bitrate [of b] b by (simp add: properties_termios_def)
    show ?thesis
    proof (cases "output_bitrate q = b")
      case True
      then have "r = IFD_TOWITOKO_OK" "p' = p0"
        using assms get b Some by (auto simp: IFD_Towitoko_SetBaudrate_def IFD_Towitoko_GetMaxBaudrate_def)
      then show ?thesis
        using b get Some True t GetBaudrate_cached [of p0 q os] p0 by (auto simp: Let_def)
    next
      case False
      show ?thesis
        using SetBaudrate_asks [OF get [unfolded Some] False _ assms] b get Some False t cached
          GetBaudrate_cached [of p' "q\<lparr>output_bitrate := b, input_bitrate := b\<rparr>" os]
        by (cases "r = IFD_TOWITOKO_OK") (auto simp: Let_def)
    qed
  qed
qed

text \<open>
  At 14400 baud, a rate the reader has a code for, the driver reports 14400 while the port
  has been set to 9600.
\<close>

lemma IFD_Towitoko_SetBaudrate_correct_witness:
  "\<exists>p'. run_state (IFD_Towitoko_SetBaudrate script_os IFD_Towitoko_Clear 14400)
      (script_port [[0x01]] (Some default_properties)) = (IFD_TOWITOKO_OK, p') \<and>
     run_state (IFD_Towitoko_GetBaudrate script_os) p' = (Inr 14400, p') \<and> c_ospeed (sc_tio (p_dev p')) = B9600"
proof -
  let ?p = "script_port [[0x01]] (Some default_properties)"
  obtain r p' where r: "run_state (IFD_Towitoko_SetBaudrate script_os IFD_Towitoko_Clear 14400) ?p = (r, p')" by fastforce
  then have "r = IFD_TOWITOKO_OK \<and> c_ospeed (sc_tio (p_dev p')) = B9600"
    by (auto simp: IFD_Towitoko_SetBaudrate_def IFD_Towitoko_GetMaxBaudrate_def ifd_command_def ifd_exchange_def IFD_TOWITOKO_DELAY_def
        IFD_Towitoko_PrepareCommand_def GetProperties_cached baudrate_code_def int32_small properties_termios_def IO_Serial_Bitrate_def
        IO_Serial_SetProperties_def set_line_def IO_Serial_SetPropertiesCache_def script_port_def default_properties_def IFD_TOWITOKO_BAUDRATE_def)
  then show ?thesis
    using IFD_Towitoko_SetBaudrate_correct [OF r] r by auto
qed

end
