(* ===== verification/IfdCard.thy ===== *)
theory IfdCard
  imports Ifd
begin

text \<open>
  The operations of \<^verbatim>\<open>src/src/driver/ifd_towitoko.c\<close> on the inserted card: reset,
  transmission and reception of asynchronous cards; addressing, memory access and PIN
  handling of synchronous cards.
\<close>

section \<open>Asynchronous cards\<close>

text \<open>
  One pass of the reset loop: active-low and active-high resets are tried twice each, until
  the card answers.  The result says whether it did and holds what \<open>*atr\<close> points to;
  \<open>None\<close> marks the parser's write outside its structure.  \<open>fresh\<close> is the memory
  \<open>ATR_New\<close> returns.
\<close>

fun reset_tries :: "'d os \<Rightarrow> ATR \<Rightarrow> byte list list \<Rightarrow> ATR option \<Rightarrow> ('d, (bool \<times> ATR option) option) io" where
  "reset_tries os fresh [] atr = State_Monad.return (Some (False, atr))"
| "reset_tries os fresh (cmd # cmds) atr = do {
     ok \<leftarrow> IO_Serial_Write os IFD_TOWITOKO_DELAY cmd;
     if \<not> ok then State_Monad.return (Some (False, atr)) else do {
     r \<leftarrow> ATR_InitFromStream os fresh IFD_TOWITOKO_ATR_TIMEOUT;
     case r of
       None \<Rightarrow> State_Monad.return None
     | Some (Inr a) \<Rightarrow> State_Monad.return (Some (True, Some a))
     | Some (Inl _) \<Rightarrow> reset_tries os fresh cmds None }}"

definition reset_pass :: "'d os \<Rightarrow> IFD \<Rightarrow> ATR \<Rightarrow> ATR option \<Rightarrow> ('d, (bool \<times> ATR option) option) io" where
  "reset_pass os ifd fresh atr =
     (let buffer1 = [0x80, 0x6F, 0x00, 0x05, IFD_Towitoko_Checksum [0x80, 0x6F, 0x00, 0x05] (slot ifd)];
          buffer2 = [0xA0, 0x6F, 0x00, 0x05, IFD_Towitoko_Checksum [0xA0, 0x6F, 0x00, 0x05] (slot ifd)]
      in reset_tries os fresh [buffer2, buffer1, buffer2, buffer1] atr)"

text \<open>
  The \<open>do ... while\<close> loop: a pass in even parity, then, when the card is mute, one in odd
  parity, after which the parity is even again.
\<close>

definition IFD_Towitoko_ResetAsyncICC ::
    "'d os \<Rightarrow> IFD \<Rightarrow> ATR \<Rightarrow> ATR option \<Rightarrow> ('d, (ifd_ret \<times> ATR option) option) io" where
  "IFD_Towitoko_ResetAsyncICC os ifd fresh atr =
     (if ifd_type ifd = IFD_TOWITOKO_KARTENZWERG then State_Monad.return (Some (IFD_TOWITOKO_UNSUPPORTED, atr))
      else do {
        r1 \<leftarrow> reset_pass os ifd fresh atr;
        case r1 of
          None \<Rightarrow> State_Monad.return None
        | Some (True, a) \<Rightarrow> State_Monad.return (Some (IFD_TOWITOKO_OK, a))
        | Some (False, a) \<Rightarrow> do {
            _ \<leftarrow> IFD_Towitoko_SetParity os ifd IFD_TOWITOKO_PARITY_ODD;
            r2 \<leftarrow> reset_pass os ifd fresh a;
            case r2 of
              None \<Rightarrow> State_Monad.return None
            | Some (True, a2) \<Rightarrow> do {
                ret \<leftarrow> IFD_Towitoko_SetParity os ifd IFD_TOWITOKO_PARITY_EVEN;
                State_Monad.return (Some (ret, a2)) }
            | Some (False, a2) \<Rightarrow> do {
                _ \<leftarrow> IFD_Towitoko_SetParity os ifd IFD_TOWITOKO_PARITY_EVEN;
                State_Monad.return (Some (IFD_TOWITOKO_IO_ERROR, a2)) } } })"

text \<open>
  The data part of one turn of the transmission loop; \<open>None\<close> marks a read past the
  end of the caller's buffer.
\<close>

definition transmit_data :: "'d os \<Rightarrow> nat \<Rightarrow> nat \<Rightarrow> byte list \<Rightarrow> nat \<Rightarrow> nat \<Rightarrow> ('d, bool option) io" where
  "transmit_data os bdelay cdelay buffer sent to_send =
     (case bytes_at buffer sent to_send of
        None \<Rightarrow> State_Monad.return None
      | Some data \<Rightarrow>
          if sent = 0 \<and> bdelay \<noteq> cdelay then do {
            ok \<leftarrow> IO_Serial_Write os bdelay (take 1 data);
            if \<not> ok then State_Monad.return (Some False) else do {
            ok \<leftarrow> IO_Serial_Write os cdelay (drop 1 data);
            State_Monad.return (Some ok) }}
          else do {
            ok \<leftarrow> IO_Serial_Write os cdelay data;
            State_Monad.return (Some ok) })"

text \<open>
  The transmission loop.  Every turn sends at least one byte, so it ends; \<open>None\<close> is the
  read past the end of the buffer in a turn.  The header is threaded through, since
  \<open>PrepareCommand\<close> closes it in place.
\<close>

function transmit_loop ::
    "'d os \<Rightarrow> IFD \<Rightarrow> bool \<Rightarrow> nat \<Rightarrow> nat \<Rightarrow> byte list \<Rightarrow> byte list \<Rightarrow> nat \<Rightarrow> ('d, ifd_ret option) io" where
  "transmit_loop os ifd s bdelay cdelay header buffer sent =
     (if sent \<ge> length buffer then State_Monad.return (Some IFD_TOWITOKO_OK)
      else do {
        let to_send = min (length buffer) IFD_TOWITOKO_MAX_TRANSMIT;
        (_, header) \<leftarrow> IFD_Towitoko_PrepareCommand os ifd (header[1 := low_byte to_send]) 4;
        ok \<leftarrow> IO_Serial_Write os IFD_TOWITOKO_DELAY (take (if s then 6 else 4) header);
        if \<not> ok then State_Monad.return (Some IFD_TOWITOKO_IO_ERROR) else do {
        r \<leftarrow> transmit_data os bdelay cdelay buffer sent to_send;
        case r of
          None \<Rightarrow> State_Monad.return None
        | Some False \<Rightarrow> State_Monad.return (Some IFD_TOWITOKO_IO_ERROR)
        | Some True \<Rightarrow> transmit_loop os ifd s bdelay cdelay header buffer (sent + to_send) }})"
  by pat_completeness auto
termination
  by (relation "measure (\<lambda>(_, _, _, _, _, _, buffer, sent). length buffer - sent)")
     (auto simp: IFD_TOWITOKO_MAX_TRANSMIT_def)

declare transmit_loop.simps [simp del]

definition IFD_Towitoko_Transmit :: "'d os \<Rightarrow> IFD \<Rightarrow> IFD_Timings \<Rightarrow> byte list \<Rightarrow> ('d, ifd_ret option) io" where
  "IFD_Towitoko_Transmit os ifd timings buffer =
     (if ifd_type ifd = IFD_TOWITOKO_KARTENZWERG then State_Monad.return (Some IFD_TOWITOKO_UNSUPPORTED)
      else do {
        p \<leftarrow> IO_Serial_GetProperties os;
        case p of
          None \<Rightarrow> State_Monad.return (Some IFD_TOWITOKO_IO_ERROR)
        | Some q \<Rightarrow> transmit_loop os ifd (output_bitrate q > IFD_TOWITOKO_BAUDRATE)
            (IFD_TOWITOKO_DELAY + block_delay timings) (IFD_TOWITOKO_DELAY + char_delay timings)
            [0x6F, 0x00, 0x05, 0x00, 0xFE, 0xF8] buffer 0 })"

definition IFD_Towitoko_Receive :: "'d os \<Rightarrow> IFD \<Rightarrow> IFD_Timings \<Rightarrow> nat \<Rightarrow> ('d, ifd_ret + byte list) io" where
  "IFD_Towitoko_Receive os ifd timings n =
     (if ifd_type ifd = IFD_TOWITOKO_KARTENZWERG then State_Monad.return (Inl IFD_TOWITOKO_UNSUPPORTED)
      else
        let ctimeout = IFD_TOWITOKO_TIMEOUT + char_timeout timings;
            btimeout = IFD_TOWITOKO_TIMEOUT + block_timeout timings
        in if btimeout \<noteq> ctimeout then do {
             r1 \<leftarrow> IO_Serial_Read os btimeout 1;
             case r1 of
               None \<Rightarrow> State_Monad.return (Inl IFD_TOWITOKO_IO_ERROR)
             | Some b \<Rightarrow>
                 if n > 1 then do {
                   r2 \<leftarrow> IO_Serial_Read os ctimeout (n - 1);
                   State_Monad.return (case r2 of None \<Rightarrow> Inl IFD_TOWITOKO_IO_ERROR | Some bs \<Rightarrow> Inr (b @ bs)) }
                 else State_Monad.return (Inr b) }
           else do {
             r \<leftarrow> IO_Serial_Read os ctimeout n;
             State_Monad.return (case r of None \<Rightarrow> Inl IFD_TOWITOKO_IO_ERROR | Some bs \<Rightarrow> Inr bs) })"

definition IFD_Towitoko_Switch :: "'d os \<Rightarrow> ('d, ifd_ret) io" where
  "IFD_Towitoko_Switch os = do {
     p \<leftarrow> IO_Serial_GetProperties os;
     case p of
       None \<Rightarrow> State_Monad.return IFD_TOWITOKO_IO_ERROR
     | Some q \<Rightarrow>
         if output_bitrate q > IFD_TOWITOKO_BAUDRATE then do {
           ok \<leftarrow> IO_Serial_Write os IFD_TOWITOKO_DELAY [0xF8];
           State_Monad.return (if \<not> ok then IFD_TOWITOKO_IO_ERROR else IFD_TOWITOKO_OK) }
         else State_Monad.return IFD_TOWITOKO_OK }"

section \<open>Memory of synchronous cards\<close>

text \<open>
  One block of a read: a command, the data and a status byte that is read and ignored.  The
  command buffer is threaded, as its checksum byte is written in place (its initial
  contents are those of the stack).
\<close>

definition read_block :: "'d os \<Rightarrow> IFD \<Rightarrow> byte list \<Rightarrow> nat \<Rightarrow> ('d, (byte list \<times> byte list) option) io" where
  "read_block os ifd buffer n = do {
     (_, buffer) \<leftarrow> IFD_Towitoko_PrepareCommand os ifd buffer 2;
     ok \<leftarrow> IO_Serial_Write os IFD_TOWITOKO_DELAY buffer;
     if \<not> ok then State_Monad.return None else
     opt_bind (IO_Serial_Read os IFD_TOWITOKO_TIMEOUT n) (\<lambda>data.
     opt_bind (IO_Serial_Read os IFD_TOWITOKO_TIMEOUT 1) (\<lambda>_.
       State_Monad.return (Some (data, buffer)))) }"

fun read_blocks :: "'d os \<Rightarrow> IFD \<Rightarrow> byte list \<Rightarrow> nat \<Rightarrow> byte list \<Rightarrow> ('d, (byte list \<times> byte list) option) io" where
  "read_blocks os ifd buffer 0 acc = State_Monad.return (Some (acc, buffer))"
| "read_blocks os ifd buffer (Suc k) acc =
     opt_bind (read_block os ifd buffer IFD_TOWITOKO_PS) (\<lambda>(data, buffer). read_blocks os ifd buffer k (acc @ data))"

definition IFD_Towitoko_ReadBuffer :: "'d os \<Rightarrow> IFD \<Rightarrow> byte \<Rightarrow> nat \<Rightarrow> ('d, ifd_ret + byte list) io" where
  "IFD_Towitoko_ReadBuffer os ifd stack len = do {
     r \<leftarrow> read_blocks os ifd [low_byte (IFD_TOWITOKO_PS - 1) OR 0x10, stack] (len div IFD_TOWITOKO_PS) [];
     case r of
       None \<Rightarrow> State_Monad.return (Inl IFD_TOWITOKO_IO_ERROR)
     | Some (data, buffer) \<Rightarrow>
         if len mod IFD_TOWITOKO_PS \<noteq> 0 then do {
           r2 \<leftarrow> read_block os ifd (buffer[0 := low_byte (len mod IFD_TOWITOKO_PS - 1) OR 0x10]) (len mod IFD_TOWITOKO_PS);
           State_Monad.return (case r2 of None \<Rightarrow> Inl IFD_TOWITOKO_IO_ERROR | Some (rest, _) \<Rightarrow> Inr (data @ rest)) }
         else State_Monad.return (Inr data) }"

text \<open>
  Writing: full blocks of 15 bytes, then the remainder with an end marker.  \<open>buffer\<close> is
  the 17-byte local command buffer, with the contents of the stack at first.
\<close>

fun write_blocks :: "'d os \<Rightarrow> IFD \<Rightarrow> byte list \<Rightarrow> nat \<Rightarrow> byte list \<Rightarrow> ('d, ifd_ret \<times> byte list) io" where
  "write_blocks os ifd buffer 0 data = State_Monad.return (IFD_TOWITOKO_OK, buffer)"
| "write_blocks os ifd buffer (Suc k) data = do {
     (r, buffer) \<leftarrow> ifd_command os ifd (take 1 buffer @ take IFD_TOWITOKO_PS data @ drop (IFD_TOWITOKO_PS + 1) buffer);
     if r \<noteq> IFD_TOWITOKO_OK then State_Monad.return (r, buffer)
     else write_blocks os ifd buffer k (drop IFD_TOWITOKO_PS data) }"

definition IFD_Towitoko_WriteBuffer :: "'d os \<Rightarrow> IFD \<Rightarrow> byte list \<Rightarrow> byte list \<Rightarrow> ('d, ifd_ret) io" where
  "IFD_Towitoko_WriteBuffer os ifd stack data = do {
     let blocks = length data div IFD_TOWITOKO_PS;
     let remaining = length data mod IFD_TOWITOKO_PS;
     (r, buffer) \<leftarrow> write_blocks os ifd (stack[0 := 0x4E]) blocks data;
     if r \<noteq> IFD_TOWITOKO_OK then State_Monad.return r
     else if remaining \<noteq> 0 then do {
       let buffer = [low_byte (remaining - 1) OR 0x40] @ drop (blocks * IFD_TOWITOKO_PS) data @
                    [0x0F] @ drop (remaining + 2) buffer;
       (r, _) \<leftarrow> ifd_command os ifd (take (remaining + 3) buffer);
       State_Monad.return r }
     else State_Monad.return IFD_TOWITOKO_OK }"

section \<open>Addressing\<close>

definition IFD_Towitoko_ResetSyncICC :: "'d os \<Rightarrow> IFD \<Rightarrow> byte \<Rightarrow> ('d, ifd_ret + ATR_Sync option) io" where
  "IFD_Towitoko_ResetSyncICC os ifd stack = do {
     (r, _) \<leftarrow> ifd_command os ifd [0x70, 0x80, 0x62, 0x0F, 0x00];
     if r \<noteq> IFD_TOWITOKO_OK then State_Monad.return (Inl r) else do {
     r \<leftarrow> IFD_Towitoko_ReadBuffer os ifd stack 8;
     State_Monad.return (case r of
       Inl _ \<Rightarrow> Inl IFD_TOWITOKO_IO_ERROR
     | Inr atr_buffer \<Rightarrow>
         Inr (if atr_buffer ! 0 \<noteq> 0xFF then Some (snd (ATR_Sync_Init ATR_Sync_New atr_buffer ATR_SYNC_SIZE)) else None)) }}"

definition IFD_Towitoko_SetReadAddress :: "'d os \<Rightarrow> IFD \<Rightarrow> icc_kind \<Rightarrow> nat \<Rightarrow> ('d, ifd_ret) io" where
  "IFD_Towitoko_SetReadAddress os ifd icc_type addr =
     (let hi = high_byte addr; lo = low_byte addr;
          send = (\<lambda>cmd. do { (r, _) \<leftarrow> ifd_command os ifd cmd; State_Monad.return r })
      in case icc_type of
           IFD_TOWITOKO_I2C_SHORT \<Rightarrow>
             send [0x7C, 0x64, 0x41, push_bit 1 hi OR 0xA0, lo, 0x64, 0x40, push_bit 1 hi OR 0xA0 OR 0x01, 0x0F, 0x00]
         | IFD_TOWITOKO_I2C_LONG \<Rightarrow> send [0x7C, 0x64, 0x42, 0xA0, hi, lo, 0x64, 0x40, 0xA1, 0x0F, 0x00]
         | IFD_TOWITOKO_2W \<Rightarrow> send [0x70, 0x64, 0x42, 0x30, lo, 0x00, 0x65, 0x0F, 0x00]
         | IFD_TOWITOKO_3W \<Rightarrow> send [0x70, 0xA0, 0x42, push_bit 6 hi OR 0x0E, lo, 0x00, 0x80, 0x50, 0x0F, 0x00]
         | IFD_TOWITOKO_ASYNC \<Rightarrow> State_Monad.return IFD_TOWITOKO_PARAM_ERROR)"

text \<open>
  The first command of the two-byte-address I2C cards reports a failed write as a checksum
  error, all others as an input/output error.
\<close>

definition i2c_first :: "'d os \<Rightarrow> IFD \<Rightarrow> byte list \<Rightarrow> ifd_ret \<Rightarrow> ('d, ifd_ret) io" where
  "i2c_first os ifd command write_error = do {
     (_, cmd) \<leftarrow> IFD_Towitoko_PrepareCommand os ifd command (length command);
     ok \<leftarrow> IO_Serial_Write os IFD_TOWITOKO_DELAY cmd;
     if \<not> ok then State_Monad.return write_error else do {
     r \<leftarrow> IO_Serial_Read os IFD_TOWITOKO_TIMEOUT 1;
     State_Monad.return (case r of
       None \<Rightarrow> IFD_TOWITOKO_IO_ERROR
     | Some st \<Rightarrow> if st ! 0 \<noteq> 0x01 then IFD_TOWITOKO_CHK_ERROR else IFD_TOWITOKO_OK) }}"

text \<open>The second command answers two bytes, which are not examined.\<close>

definition i2c_second :: "'d os \<Rightarrow> IFD \<Rightarrow> ('d, ifd_ret) io" where
  "i2c_second os ifd = do {
     (r, _) \<leftarrow> ifd_exchange os ifd [0x7E, 0x10, 0xDA] 2;
     State_Monad.return (case r of Inl e \<Rightarrow> e | Inr _ \<Rightarrow> IFD_TOWITOKO_OK) }"

definition IFD_Towitoko_SetWriteAddress :: "'d os \<Rightarrow> IFD \<Rightarrow> icc_kind \<Rightarrow> nat \<Rightarrow> byte \<Rightarrow> ('d, ifd_ret) io" where
  "IFD_Towitoko_SetWriteAddress os ifd icc_type addr pagemode =
     (let hi = high_byte addr; lo = low_byte addr;
          send = (\<lambda>cmd. do { (r, _) \<leftarrow> ifd_command os ifd cmd; State_Monad.return r })
      in case icc_type of
           IFD_TOWITOKO_I2C_SHORT \<Rightarrow>
             ifd_then (i2c_first os ifd [0x7C, 0x64, 0x41, 0xA0, 0x00, 0x64, 0x40, 0xA1, 0x0F, 0x36] IFD_TOWITOKO_IO_ERROR)
             (ifd_then (i2c_second os ifd)
               (send [0x7E, 0x66, 0x6E, lo, push_bit 1 hi OR 0xA0, pagemode, 0x0F, 0x00]))
         | IFD_TOWITOKO_I2C_LONG \<Rightarrow>
             ifd_then (i2c_first os ifd [0x7C, 0x64, 0x42, 0xA0, 0x00, 0x00, 0x64, 0x40, 0xA1, 0x0F, 0x0B] IFD_TOWITOKO_CHK_ERROR)
             (ifd_then (i2c_second os ifd)
               (send [0x7F, 0x66, 0x6E, lo, hi, 0xA0, 0x0F, 0x00]))
         | IFD_TOWITOKO_2W \<Rightarrow> send [0x72, 0x6E, lo, 0x38, 0x03, 0x0F, 0x00]
         | IFD_TOWITOKO_3W \<Rightarrow> send [0x73, 0x67, 0x6E, lo, push_bit 6 hi OR 0x33, 0x02, 0x0F, 0x5F]
         | IFD_TOWITOKO_ASYNC \<Rightarrow> State_Monad.return IFD_TOWITOKO_PARAM_ERROR)"

section \<open>PIN handling\<close>

text \<open>
  The number of trials is read only from 2W and 3W cards; for others the function returns
  \<open>IFD_TOWITOKO_OK\<close> and leaves its output parameter unset, which is \<open>None\<close>.
\<close>

definition read_counter :: "'d os \<Rightarrow> IFD \<Rightarrow> byte list \<Rightarrow> byte list \<Rightarrow> nat \<Rightarrow> ('d, ifd_ret \<times> nat option) io" where
  "read_counter os ifd c1 c2 n = do {
     (r, _) \<leftarrow> ifd_command os ifd c1;
     if r \<noteq> IFD_TOWITOKO_OK then State_Monad.return (r, None) else do {
     (r, _) \<leftarrow> ifd_exchange os ifd c2 n;
     State_Monad.return (case r of
       Inl e \<Rightarrow> (e, None)
     | Inr st \<Rightarrow> (IFD_TOWITOKO_OK, Some (IFD_Towitoko_NumTrials (st ! 0)))) }}"

definition IFD_Towitoko_ReadErrorCounter :: "'d os \<Rightarrow> IFD \<Rightarrow> icc_kind \<Rightarrow> ('d, ifd_ret \<times> nat option) io" where
  "IFD_Towitoko_ReadErrorCounter os ifd icc_type =
     (case icc_type of
        IFD_TOWITOKO_2W \<Rightarrow> read_counter os ifd [0x70, 0x64, 0x42, 0x31, 0x00, 0x00, 0x65, 0x0F, 0x80] [0x13, 0x27] 5
      | IFD_TOWITOKO_3W \<Rightarrow> read_counter os ifd [0x70, 0xA0, 0x42, 0xCE, 0xFD, 0xFD, 0x80, 0x50, 0x0F, 0x17] [0x10, 0x21] 2
      | _ \<Rightarrow> State_Monad.return (IFD_TOWITOKO_OK, None))"

text \<open>The error counter written before a verification: one trial fewer.\<close>

definition counter_2W :: "nat \<Rightarrow> byte" where
  "counter_2W trial = (if trial = 3 then 0x06 else if trial = 2 then 0x04 else 0x00)"

definition counter_3W :: "nat \<Rightarrow> byte" where
  "counter_3W trial =
     (if trial = 8 then 0xFE else if trial = 7 then 0xFC else if trial = 6 then 0xF8 else if trial = 5 then 0xF0
      else if trial = 4 then 0xE0 else if trial = 3 then 0xC0 else if trial = 2 then 0x80 else 0x00)"

definition enter_pin_2W :: "'d os \<Rightarrow> IFD \<Rightarrow> byte list \<Rightarrow> nat \<Rightarrow> ('d, ifd_ret) io" where
  "enter_pin_2W os ifd pin trial = do {
     (r, w21) \<leftarrow> ifd_command os ifd [0x72, 0x6E, 0x00, 0x39, 0x03, 0x0F, 0xB5];
     if r \<noteq> IFD_TOWITOKO_OK then State_Monad.return r else do {
     (r, w22) \<leftarrow> ifd_command os ifd [0x40, counter_2W trial, 0x0F, 0x00];
     if r \<noteq> IFD_TOWITOKO_OK then State_Monad.return r else do {
     (r, w21) \<leftarrow> ifd_command os ifd (w21[2 := 0x01, 3 := 0x33]);
     if r \<noteq> IFD_TOWITOKO_OK then State_Monad.return r else do {
     (r, _) \<leftarrow> ifd_exchange os ifd ([0x42] @ take IFD_TOWITOKO_PIN_SIZE pin @ [0x0F, 0x00]) 1;
     case r of
       Inl e \<Rightarrow> State_Monad.return e
     | Inr _ \<Rightarrow> do {
         (r, _) \<leftarrow> ifd_command os ifd (w21[2 := 0x00, 3 := 0x39]);
         if r \<noteq> IFD_TOWITOKO_OK then State_Monad.return r else do {
         (r, _) \<leftarrow> ifd_command os ifd (w22[1 := 0xFF]);
         State_Monad.return r }} }}}}"

definition enter_pin_3W :: "'d os \<Rightarrow> IFD \<Rightarrow> byte list \<Rightarrow> nat \<Rightarrow> ('d, ifd_ret) io" where
  "enter_pin_3W os ifd pin trial = do {
     (r, w31) \<leftarrow> ifd_command os ifd [0x73, 0x67, 0x6E, 0xFD, 0xF2, 0x02, 0x0F, 0x8C];
     if r \<noteq> IFD_TOWITOKO_OK then State_Monad.return r else do {
     (r, w32) \<leftarrow> ifd_command os ifd [0x40, counter_3W trial, 0x0F, 0x00];
     if r \<noteq> IFD_TOWITOKO_OK then State_Monad.return r else do {
     (r, w31) \<leftarrow> ifd_command os ifd (w31[3 := 0xFE, 4 := 0xCD]);
     if r \<noteq> IFD_TOWITOKO_OK then State_Monad.return r else do {
     (r, w32) \<leftarrow> ifd_command os ifd (w32[1 := pin ! 0]);
     if r \<noteq> IFD_TOWITOKO_OK then State_Monad.return r else do {
     (r, w31) \<leftarrow> ifd_command os ifd (w31[3 := 0xFF]);
     if r \<noteq> IFD_TOWITOKO_OK then State_Monad.return r else do {
     (r, w32) \<leftarrow> ifd_command os ifd (w32[1 := pin ! 1]);
     if r \<noteq> IFD_TOWITOKO_OK then State_Monad.return r else do {
     (r, w31) \<leftarrow> ifd_command os ifd (w31[3 := 0xFD, 4 := 0xF3]);
     if r \<noteq> IFD_TOWITOKO_OK then State_Monad.return r else do {
     (r, w32) \<leftarrow> ifd_command os ifd (w32[1 := 0xFF]);
     State_Monad.return r }}}}}}}}"

definition IFD_Towitoko_EnterPin :: "'d os \<Rightarrow> IFD \<Rightarrow> icc_kind \<Rightarrow> byte list \<Rightarrow> nat \<Rightarrow> ('d, ifd_ret) io" where
  "IFD_Towitoko_EnterPin os ifd icc_type pin trial =
     (case icc_type of
        IFD_TOWITOKO_2W \<Rightarrow> enter_pin_2W os ifd pin trial
      | IFD_TOWITOKO_3W \<Rightarrow> enter_pin_3W os ifd pin trial
      | _ \<Rightarrow> State_Monad.return IFD_TOWITOKO_PARAM_ERROR)"

definition IFD_Towitoko_ChangePin :: "'d os \<Rightarrow> IFD \<Rightarrow> icc_kind \<Rightarrow> byte list \<Rightarrow> ('d, ifd_ret) io" where
  "IFD_Towitoko_ChangePin os ifd icc_type pin =
     (case icc_type of
        IFD_TOWITOKO_2W \<Rightarrow> do {
          (r, _) \<leftarrow> ifd_command os ifd [0x72, 0x6E, 0x01, 0x39, 0x03, 0x0F, 0xA5];
          if r \<noteq> IFD_TOWITOKO_OK then State_Monad.return r else do {
          (r, _) \<leftarrow> ifd_command os ifd [0x42, pin ! 0, pin ! 1, pin ! 2, 0x0F, 0x00];
          State_Monad.return r }}
      | IFD_TOWITOKO_3W \<Rightarrow> do {
          (r, w31) \<leftarrow> ifd_command os ifd [0x73, 0x67, 0x6E, 0xFE, 0xF3, 0x02, 0x0F, 0xB4];
          if r \<noteq> IFD_TOWITOKO_OK then State_Monad.return r else do {
          (r, w32) \<leftarrow> ifd_command os ifd [0x40, pin ! 0, 0x0F, 0x00];
          if r \<noteq> IFD_TOWITOKO_OK then State_Monad.return r else do {
          (r, w31) \<leftarrow> ifd_command os ifd (w31[3 := 0xFF]);
          if r \<noteq> IFD_TOWITOKO_OK then State_Monad.return r else do {
          (r, _) \<leftarrow> ifd_command os ifd (w32[1 := pin ! 1]);
          State_Monad.return r }}}}
      | _ \<Rightarrow> State_Monad.return IFD_TOWITOKO_PARAM_ERROR)"

section \<open>Writing to the card memory\<close>

text \<open>
  The stream that writes \<open>data\<close>: a sealed command per 15 bytes and one for the rest.
\<close>

fun full_blocks :: "IFD \<Rightarrow> nat \<Rightarrow> byte list \<Rightarrow> byte list" where
  "full_blocks ifd 0 data = []"
| "full_blocks ifd (Suc k) data = sealed ifd (0x4E # take 15 data) @ full_blocks ifd k (drop 15 data)"

definition write_stream :: "IFD \<Rightarrow> byte list \<Rightarrow> byte list" where
  "write_stream ifd data =
     full_blocks ifd (length data div 15) data @
     (if length data mod 15 = 0 then []
      else sealed ifd ([low_byte (length data mod 15 - 1) OR 0x40] @ drop (length data div 15 * 15) data @ [0x0F]))"

lemma length_sealed [simp]: "length (sealed ifd bs) = length bs + 1"
  by (simp add: sealed_def)

lemma sends_upto_append:
  "sends_upto bs True cs \<Longrightarrow> sends_upto ds ok es \<Longrightarrow> sends_upto (bs @ ds) ok (cs @ es)"
  by (auto simp: sends_upto_def)

lemma sends_upto_prefix: "sends_upto bs False cs \<Longrightarrow> sends_upto (bs @ ds) False cs"
  by (auto simp: sends_upto_def)

lemma block_command:
  assumes "length buffer = 17" "take 1 buffer = [0x4E]" "15 \<le> length data"
  shows "butlast (take 1 buffer @ take IFD_TOWITOKO_PS data @ drop (IFD_TOWITOKO_PS + 1) buffer) = 0x4E # take 15 data"
proof -
  have "length (drop 16 buffer) = Suc 0" using assms(1) by simp
  then obtain x where "drop 16 buffer = [x]" by (auto simp: length_Suc_conv simp del: length_drop)
  then show ?thesis using assms(2) by (simp add: IFD_TOWITOKO_PS_def butlast_append)
qed

lemma sends_write_blocks:
  assumes "posix_line os wire" "output_bitrate q < 115200"
  shows "length buffer = 17 \<Longrightarrow> take 1 buffer = [0x4E] \<Longrightarrow> k * 15 \<le> length data \<Longrightarrow>
    sends wire (line_ready q) (write_blocks os ifd buffer k data)
      (\<lambda>(r, b) cs. sends_upto (full_blocks ifd k data) (r = IFD_TOWITOKO_OK) cs \<and> length b = 17)"
proof (induction k arbitrary: buffer data)
  case 0
  then show ?case by (auto intro!: sends_return simp: sends_upto_def)
next
  case (Suc k)
  let ?cmd = "take 1 buffer @ take IFD_TOWITOKO_PS data @ drop (IFD_TOWITOKO_PS + 1) buffer"
  have b: "butlast ?cmd = 0x4E # take 15 data" and ne: "?cmd \<noteq> []"
    using block_command [of buffer data] Suc.prems by auto
  let ?s = "sealed ifd (0x4E # take 15 data)"
  have s: "length ?s = 17" "take 1 ?s = [0x4E]" using Suc.prems by (simp_all add: sealed_def)
  have step: "sends wire (line_ready q) (ifd_command os ifd ?cmd)
      (\<lambda>(r, c) cs. c = ?s \<and> sends_upto c (r = IFD_TOWITOKO_OK) cs)"
    using sends_command [OF assms ne, of ifd] unfolding b .
  have IH: "sends wire (line_ready q) (write_blocks os ifd ?s k (drop 15 data))
      (\<lambda>(r, b) cs. sends_upto (full_blocks ifd k (drop 15 data)) (r = IFD_TOWITOKO_OK) cs \<and> length b = 17)"
    using Suc.prems s by (intro Suc.IH) auto
  show ?case
    unfolding write_blocks.simps
    by (rule sends_bind [OF step])
       (use s in \<open>auto simp: IFD_TOWITOKO_PS_def split: prod.splits intro!: sends_return sends_conseq [OF IH]
          intro: sends_upto_append sends_upto_prefix\<close>)
qed

lemma take_frame: "length ds = m \<Longrightarrow> take (m + 3) ([h] @ ds @ [e] @ x # xs) = [h] @ ds @ [e] @ [x]"
  by (simp add: numeral_3_eq_3)

lemma sends_WriteBuffer:
  assumes "posix_line os wire" "output_bitrate q < 115200" "length stack = 17"
  shows "sends wire (line_ready q) (IFD_Towitoko_WriteBuffer os ifd stack data)
    (\<lambda>r cs. sends_upto (write_stream ifd data) (r = IFD_TOWITOKO_OK) cs)"
proof -
  let ?k = "length data div 15" and ?m = "length data mod 15"
  have "length (stack[0 := 0x4E]) = 17" "take 1 (stack[0 := 0x4E]) = [0x4E]" "?k * 15 \<le> length data"
    using assms(3) by (cases stack; simp)+
  note blocks = sends_write_blocks [OF assms(1,2) this, of ifd]
  have rest: "sends wire (line_ready q) (do { (r, _) \<leftarrow> ifd_command os ifd (take (?m + 3)
        ([low_byte (?m - 1) OR 0x40] @ drop (?k * 15) data @ [0x0F] @ drop (?m + 2) buffer)); State_Monad.return r })
      (\<lambda>r cs. sends_upto (sealed ifd ([low_byte (?m - 1) OR 0x40] @ drop (?k * 15) data @ [0x0F])) (r = IFD_TOWITOKO_OK) cs)"
    if buffer: "length buffer = 17" for buffer
  proof -
    let ?c = "take (?m + 3) ([low_byte (?m - 1) OR 0x40] @ drop (?k * 15) data @ [0x0F] @ drop (?m + 2) buffer)"
    have l: "length (drop (?k * 15) data) = ?m" by (simp add: minus_div_mult_eq_mod)
    have "?m < 15" by simp
    then obtain x xs where x: "drop (?m + 2) buffer = x # xs" using buffer by (cases "drop (?m + 2) buffer") auto
    have "?c = [low_byte (?m - 1) OR 0x40] @ drop (?k * 15) data @ [0x0F] @ [x]"
      unfolding x by (rule take_frame [OF l])
    then have "butlast ?c = [low_byte (?m - 1) OR 0x40] @ drop (?k * 15) data @ [0x0F]" "?c \<noteq> []"
      by (simp_all add: butlast_append)
    then show ?thesis
      using sends_command [OF assms(1,2), of ?c ifd]
      by (intro sends_bind [OF sends_command [OF assms(1,2)]]) (auto intro!: sends_return)
  qed
  show ?thesis
    unfolding IFD_Towitoko_WriteBuffer_def Let_def IFD_TOWITOKO_PS_def
    by (rule sends_bind [OF blocks])
       (auto simp: write_stream_def split: prod.splits intro!: sends_return sends_if sends_conseq [OF rest [simplified]]
          intro: sends_upto_append sends_upto_prefix)
qed

text \<open>
  Writing to a memory card: with the line set up below the highest rate,
  \<open>IFD_Towitoko_WriteBuffer\<close> puts on the line a prefix of the stream of sealed
  15-byte commands for its data, the whole stream when it returns
  \<open>IFD_TOWITOKO_OK\<close>, whatever the stack held before.
\<close>

lemma IFD_Towitoko_WriteBuffer_stream:
  assumes "posix_line os wire" "props (p_io p) = Some q" "output_bitrate q < 115200" "length stack = 17"
    and "run_state (IFD_Towitoko_WriteBuffer os ifd stack data) p = (r, p')"
  shows "\<exists>cs ds. write_stream ifd data = cs @ ds \<and> wire (p_dev p') = wire (p_dev p) @ cs \<and>
    (r = IFD_TOWITOKO_OK \<longrightarrow> ds = []) \<and> props (p_io p') = Some q"
  using sendsD [OF sends_WriteBuffer [OF assms(1,3,4)] assms(5)] assms(2)
  by (auto simp: line_ready_def sends_upto_def)

section \<open>Reading the card memory\<close>

text \<open>The commands that read \<open>len\<close> bytes.\<close>

definition read_stream :: "IFD \<Rightarrow> nat \<Rightarrow> byte list" where
  "read_stream ifd len =
     concat (replicate (len div 15) (sealed ifd [0x1E])) @
     (if len mod 15 = 0 then [] else sealed ifd [low_byte (len mod 15 - 1) OR 0x10])"

text \<open>A step that sends \<open>bs\<close> when it succeeds and a prefix of it otherwise.\<close>

definition reads_sending :: "byte list \<Rightarrow> ('a \<Rightarrow> bool) \<Rightarrow> 'a option \<Rightarrow> byte list \<Rightarrow> bool" where
  "reads_sending bs P r cs \<longleftrightarrow> sends_upto bs (r \<noteq> None) cs \<and> (\<forall>a. r = Some a \<longrightarrow> P a)"

lemma sends_read_block:
  assumes "posix_line os wire" "output_bitrate q < 115200" "length buffer = 2"
  shows "sends wire (line_ready q) (read_block os ifd buffer n)
    (reads_sending (sealed ifd (take 1 buffer)) (\<lambda>(data, b). length data = n \<and> b = sealed ifd (take 1 buffer)))"
proof -
  have c: "buffer[2 - 1 := IFD_Towitoko_Checksum (take (2 - 1) buffer) (slot ifd)] = sealed ifd (take 1 buffer)"
    using assms(3) by (auto simp: sealed_def numeral_2_eq_2 length_Suc_conv)
  have rd: "sends wire (line_ready q) (opt_bind (IO_Serial_Read os IFD_TOWITOKO_TIMEOUT n) (\<lambda>data.
      opt_bind (IO_Serial_Read os IFD_TOWITOKO_TIMEOUT 1) (\<lambda>_. State_Monad.return (Some (data, b)))))
      (\<lambda>r cs. cs = [] \<and> (\<forall>a. r = Some a \<longrightarrow> length (fst a) = n \<and> snd a = b))" for b :: "byte list"
    unfolding opt_bind_def
    by (rule sends_bind [OF sends_Read [OF assms(1)]])
       (auto intro!: line sends_bind [OF sends_Read [OF assms(1)]] split: option.splits)
  show ?thesis
    unfolding read_block_def
    by (rule sends_bind [OF sends_Prepare [OF assms(2)]], clarsimp simp only: c prod.case append.simps,
        rule sends_bind [OF sends_Write [OF assms(1)]], rule sends_if, rule sends_return)
       (auto simp: reads_sending_def sends_upto_def intro!: sends_conseq [OF rd [simplified]])
qed

lemma sends_read_blocks:
  assumes "posix_line os wire" "output_bitrate q < 115200"
  shows "length buffer = 2 \<Longrightarrow> take 1 buffer = [0x1E] \<Longrightarrow>
    sends wire (line_ready q) (read_blocks os ifd buffer k acc)
      (reads_sending (concat (replicate k (sealed ifd [0x1E]))) (\<lambda>(data, b). length data = length acc + k * 15 \<and> length b = 2))"
proof (induction k arbitrary: buffer acc)
  case 0
  then show ?case by (auto intro!: sends_return simp: reads_sending_def sends_upto_def)
next
  case (Suc k)
  have s: "length (sealed ifd [0x1E]) = 2" "take 1 (sealed ifd [0x1E]) = [0x1E]" by (simp_all add: sealed_def)
  have step: "sends wire (line_ready q) (read_block os ifd buffer IFD_TOWITOKO_PS)
      (reads_sending (sealed ifd [0x1E]) (\<lambda>(data, b). length data = 15 \<and> b = sealed ifd [0x1E]))"
    using sends_read_block [OF assms Suc.prems(1), of ifd IFD_TOWITOKO_PS] unfolding Suc.prems(2) IFD_TOWITOKO_PS_def .
  have IH: "sends wire (line_ready q) (read_blocks os ifd (sealed ifd [0x1E]) k (acc @ data))
      (reads_sending (concat (replicate k (sealed ifd [0x1E]))) (\<lambda>(d, b). length d = length (acc @ data) + k * 15 \<and> length b = 2))" for data
    using s by (rule Suc.IH)
  show ?case
    unfolding read_blocks.simps opt_bind_def
  proof (rule sends_bind [OF step], rule sends_case_option)
    fix x :: "(byte list \<times> byte list) option" and cs assume x: "reads_sending (sealed ifd [0x1E]) (\<lambda>(data, b). length data = 15 \<and> b = sealed ifd [0x1E]) x cs"
    show "sends wire (line_ready q) (State_Monad.return None) (\<lambda>b ds. reads_sending (concat (replicate (Suc k) (sealed ifd [0x1E])))
        (\<lambda>(data, b). length data = length acc + Suc k * 15 \<and> length b = 2) b (cs @ ds))" if "x = None"
      using x that by (auto intro!: sends_return simp: reads_sending_def intro: sends_upto_prefix)
    show "sends wire (line_ready q) (case y of (data, buffer) \<Rightarrow> read_blocks os ifd buffer k (acc @ data))
        (\<lambda>b ds. reads_sending (concat (replicate (Suc k) (sealed ifd [0x1E])))
        (\<lambda>(data, b). length data = length acc + Suc k * 15 \<and> length b = 2) b (cs @ ds))" if "x = Some y" for y
      using x that by (cases y)
        (auto simp: reads_sending_def add.assoc intro!: sends_conseq [OF IH] intro: sends_upto_append)
  qed
qed

lemma sends_ReadBuffer:
  assumes "posix_line os wire" "output_bitrate q < 115200"
  shows "sends wire (line_ready q) (IFD_Towitoko_ReadBuffer os ifd stack len)
    (\<lambda>r cs. sends_upto (read_stream ifd len) (\<exists>bs. r = Inr bs) cs \<and> (\<forall>bs. r = Inr bs \<longrightarrow> length bs = len))"
proof -
  let ?k = "len div 15" and ?m = "len mod 15"
  have "length [low_byte (15 - 1) OR 0x10, stack] = 2" "take 1 [low_byte (15 - 1) OR 0x10, stack] = [0x1E]"
    by (simp_all add: low_byte_def)
  note blocks = sends_read_blocks [OF assms this, of ifd ?k "[]"]
  show ?thesis
    unfolding IFD_Towitoko_ReadBuffer_def IFD_TOWITOKO_PS_def
  proof (rule sends_bind [OF blocks], rule sends_case_option)
    fix x :: "(byte list \<times> byte list) option" and cs assume x: "reads_sending (concat (replicate ?k (sealed ifd [0x1E])))
      (\<lambda>(data, b). length data = length ([] :: byte list) + ?k * 15 \<and> length b = 2) x cs"
    show "sends wire (line_ready q) (State_Monad.return (Inl IFD_TOWITOKO_IO_ERROR))
        (\<lambda>b ds. sends_upto (read_stream ifd len) (\<exists>bs. b = Inr bs) (cs @ ds) \<and> (\<forall>bs. b = Inr bs \<longrightarrow> length bs = len))"
      if "x = None"
      using x that by (auto intro!: sends_return simp: reads_sending_def read_stream_def intro: sends_upto_prefix)
    show "sends wire (line_ready q) (case y of (data, buffer) \<Rightarrow>
          if ?m \<noteq> 0 then do {
            r2 \<leftarrow> read_block os ifd (buffer[0 := low_byte (?m - 1) OR 0x10]) ?m;
            State_Monad.return (case r2 of None \<Rightarrow> Inl IFD_TOWITOKO_IO_ERROR | Some (rest, _) \<Rightarrow> Inr (data @ rest)) }
          else State_Monad.return (Inr data))
        (\<lambda>b ds. sends_upto (read_stream ifd len) (\<exists>bs. b = Inr bs) (cs @ ds) \<and> (\<forall>bs. b = Inr bs \<longrightarrow> length bs = len))"
      if y: "x = Some y" for y
    proof (cases y)
      case (Pair data buffer)
      have s: "sends_upto (concat (replicate ?k (sealed ifd [0x1E]))) True cs" "length data = ?k * 15" "length buffer = 2"
        using x y Pair by (auto simp: reads_sending_def)
      have b: "length (buffer[0 := low_byte (?m - 1) OR 0x10]) = 2"
        "take 1 (buffer[0 := low_byte (?m - 1) OR 0x10]) = [low_byte (?m - 1) OR 0x10]"
        using s(3) by (cases buffer; simp)+
      have len: "?k * 15 + ?m = len" by (rule div_mult_mod_eq)
      note blk = sends_read_block [OF assms b(1), of ifd ?m, unfolded b(2)]
      show ?thesis
      proof (cases "?m = 0")
        case True
        then show ?thesis using s Pair len by (auto simp: read_stream_def intro!: sends_return)
      next
        case False
        have "sends wire (line_ready q) (do {
            r2 \<leftarrow> read_block os ifd (buffer[0 := low_byte (?m - 1) OR 0x10]) ?m;
            State_Monad.return (case r2 of None \<Rightarrow> Inl IFD_TOWITOKO_IO_ERROR | Some (rest, _) \<Rightarrow> Inr (data @ rest)) })
          (\<lambda>b ds. sends_upto (read_stream ifd len) (\<exists>bs. b = Inr bs) (cs @ ds) \<and> (\<forall>bs. b = Inr bs \<longrightarrow> length bs = len))"
          by (rule sends_bind [OF blk]) (use s False len in \<open>auto intro!: sends_return
            simp: reads_sending_def read_stream_def split: option.splits intro: sends_upto_append\<close>)
        then show ?thesis using Pair False by simp
      qed
    qed
  qed
qed

text \<open>
  Reading a memory card: with the line set up below the highest rate,
  \<open>IFD_Towitoko_ReadBuffer\<close> sends the read commands, all of them when it succeeds, and
  then delivers exactly the number of bytes asked for.
\<close>

lemma IFD_Towitoko_ReadBuffer_exact:
  assumes "posix_line os wire" "props (p_io p) = Some q" "output_bitrate q < 115200"
    and "run_state (IFD_Towitoko_ReadBuffer os ifd stack len) p = (r, p')"
  shows "\<exists>cs ds. read_stream ifd len = cs @ ds \<and> wire (p_dev p') = wire (p_dev p) @ cs \<and>
    (\<forall>bs. r = Inr bs \<longrightarrow> ds = [] \<and> length bs = len) \<and> props (p_io p') = Some q"
  using sendsD [OF sends_ReadBuffer [OF assms(1,3)] assms(4)] assms(2)
  by (auto simp: line_ready_def sends_upto_def)

text \<open>The evaluation of commands on the scripted line.\<close>

lemmas ifd_eval =
  ifd_command_def ifd_exchange_def IFD_TOWITOKO_DELAY_def IFD_Towitoko_PrepareCommand_def
  IO_Serial_GetProperties_def IO_Serial_GetPropertiesCache_def default_properties_def IFD_TOWITOKO_BAUDRATE_def

lemma read_block_length: "run_state (read_block os ifd buffer n) p = (Some (data, b), p') \<Longrightarrow> length data = n"
  unfolding read_block_def
  by (auto simp del: run_opt_bind split: prod.splits if_splits elim!: opt_bind_SomeE dest: serial_reader.rd_length [OF TrueI])

lemma read_blocks_length:
  "run_state (read_blocks os ifd buffer k acc) p = (Some (data, b), p') \<Longrightarrow> length data = length acc + k * 15"
  by (induction k arbitrary: buffer acc p)
     (fastforce simp del: run_opt_bind simp: IFD_TOWITOKO_PS_def split: prod.splits elim!: opt_bind_SomeE dest: read_block_length)+

lemma ReadBuffer_length:
  assumes "run_state (IFD_Towitoko_ReadBuffer os ifd stack n) p = (Inr bs, p')" shows "length bs = n"
proof -
  have "n div 15 * 15 + n mod 15 = n" by (rule div_mult_mod_eq)
  then show ?thesis
    using assms unfolding IFD_Towitoko_ReadBuffer_def IFD_TOWITOKO_PS_def
    by (auto split: prod.splits option.splits if_splits dest!: read_block_length read_blocks_length)
qed

interpretation memory_reader: exact_reader "\<lambda>n. ok_bytes (IFD_Towitoko_ReadBuffer os ifd stack n)" "\<lambda>_. True"
  by unfold_locales (auto simp: run_ok_bytes_Some dest: ReadBuffer_length)

text \<open>
  A reception of no bytes at all reads one when the two timeouts differ.
\<close>

interpretation card_receiver: exact_reader "\<lambda>n. ok_bytes (IFD_Towitoko_Receive os ifd timings n)"
  "\<lambda>n. 0 < n \<or> block_timeout timings = char_timeout timings"
proof unfold_locales
  fix n s bs s'
  assume a: "0 < n \<or> block_timeout timings = char_timeout timings"
    and "run_state (ok_bytes (IFD_Towitoko_Receive os ifd timings n)) s = (Some bs, s')"
  then have "run_state (IFD_Towitoko_Receive os ifd timings n) s = (Inr bs, s')" by (simp add: run_ok_bytes_Some)
  with a show "length bs = n"
    unfolding IFD_Towitoko_Receive_def
    by (auto simp: Let_def split: if_splits prod.splits option.splits dest!: serial_reader.rd_length [OF TrueI])
qed

section \<open>Transmission\<close>

definition transmit_stream :: "IFD \<Rightarrow> bool \<Rightarrow> byte list \<Rightarrow> byte list" where
  "transmit_stream ifd fast data =
     (if data = [] then []
      else sealed ifd [0x6F, low_byte (length data), 0x05] @ (if fast then [0xFE, 0xF8] else []) @ data)"

text \<open>The command that opens a turn of the loop.\<close>

definition transmit_header :: "IFD \<Rightarrow> bool \<Rightarrow> nat \<Rightarrow> byte list" where
  "transmit_header ifd fast n = sealed ifd [0x6F, low_byte n, 0x05] @ (if fast then [0xFE, 0xF8] else [])"

text \<open>A system on which every write is accepted at once and in full.\<close>

definition writes_all :: "'d os \<Rightarrow> bool" where
  "writes_all os \<longleftrightarrow> (\<forall>h t d. fst (run_state (os_poll_out os h t) d)) \<and>
     (\<forall>h bs d. fst (run_state (os_write os h bs) d) = int (length bs))"

lemma writes_all_run:
  "writes_all os \<Longrightarrow> run_state (serial_write_run os delay bs) p = (ok, p') \<Longrightarrow> ok"
  unfolding serial_write_run_def IO_Serial_WaitToWrite_def writes_all_def
  by (auto split: prod.splits if_splits) (metis fst_conv)+

lemma writes_all_bytes:
  "writes_all os \<Longrightarrow> run_state (serial_write_bytes os delay bs) p = (ok, p') \<Longrightarrow> ok"
  by (induction bs arbitrary: p) (auto split: prod.splits if_splits dest: writes_all_run)

lemma writes_all_Write:
  "writes_all os \<Longrightarrow> run_state (IO_Serial_Write os delay data) p = (ok, p') \<Longrightarrow> ok"
  unfolding IO_Serial_Write_def by (auto split: prod.splits if_splits dest: writes_all_run writes_all_bytes)

lemma sends_Write_all:
  "posix_line os wire \<Longrightarrow> sends wire J (IO_Serial_Write os delay data)
     (\<lambda>ok cs. sends_upto data ok cs \<and> (writes_all os \<longrightarrow> ok))"
  by (rule sends_conj [OF sends_Write]) (auto dest: writes_all_Write)

text \<open>
  An operation that sends \<open>data\<close> and reports whether it could: all of it, or part of it
  and a failure, which a system that accepts every write does not cause.
\<close>

definition sent_all :: "'d os \<Rightarrow> byte list \<Rightarrow> bool \<Rightarrow> byte list \<Rightarrow> bool" where
  "sent_all os data ok cs \<longleftrightarrow> (if ok then cs = data else (\<exists>ds. data = cs @ ds) \<and> \<not> writes_all os)"

lemma sends_Write_sent: "posix_line os wire \<Longrightarrow> sends wire J (IO_Serial_Write os delay data) (sent_all os data)"
  by (erule sends_conseq [OF sends_Write_all]) (auto simp: sends_upto_def sent_all_def)

lemma sent_all_append: "sent_all os ys ok ds \<Longrightarrow> sent_all os (xs @ ys) ok (xs @ ds)"
  and sent_all_prefix: "sent_all os xs False cs \<Longrightarrow> sent_all os (xs @ ys) False cs"
  by (auto simp: sent_all_def)

lemma sent_all_True: "sent_all os data True cs \<longleftrightarrow> cs = data"
  by (simp add: sent_all_def)

lemma sends_transmit_data:
  assumes "posix_line os wire" "sent + n \<le> length buffer"
  shows "sends wire J (transmit_data os bdelay cdelay buffer sent n)
    (\<lambda>r cs. r \<noteq> None \<and> sent_all os (take n (drop sent buffer)) (r = Some True) cs)"
proof -
  have all: "sends wire J (do { ok \<leftarrow> IO_Serial_Write os cdelay data; State_Monad.return (Some ok) })
      (\<lambda>r cs. r \<noteq> None \<and> sent_all os data (r = Some True) cs)" for data
    by (rule sends_bind [OF sends_Write_sent [OF assms(1)]], rule sends_return) simp
  have two: "sends wire J (do { ok \<leftarrow> IO_Serial_Write os bdelay xs;
      if \<not> ok then State_Monad.return (Some False) else do {
      ok \<leftarrow> IO_Serial_Write os cdelay ys; State_Monad.return (Some ok) }})
      (\<lambda>r cs. r \<noteq> None \<and> sent_all os (xs @ ys) (r = Some True) cs)" for xs ys
    by (rule sends_bind [OF sends_Write_sent [OF assms(1)]], rule sends_if, rule sends_return,
        simp add: sent_all_prefix, rule sends_conseq [OF all])
       (clarsimp simp: sent_all_True sent_all_append)
  obtain data where data: "bytes_at buffer sent n = Some data" "take n (drop sent buffer) = data"
    by (rule that [OF _ refl]) (simp only: bytes_at_def assms(2) if_True)
  show ?thesis
    unfolding transmit_data_def data(1) data(2) option.case
    by (rule sends_if, rule two [of "take 1 data" "drop 1 data", unfolded append_take_drop_id], rule all)
qed

lemma transmit_loop_turn:
  "sent < length buffer \<Longrightarrow> to_send = min (length buffer) IFD_TOWITOKO_MAX_TRANSMIT \<Longrightarrow>
   transmit_loop os ifd s bd cd header buffer sent = do {
     (_, header) \<leftarrow> IFD_Towitoko_PrepareCommand os ifd (header[1 := low_byte to_send]) 4;
     ok \<leftarrow> IO_Serial_Write os IFD_TOWITOKO_DELAY (take (if s then 6 else 4) header);
     if \<not> ok then State_Monad.return (Some IFD_TOWITOKO_IO_ERROR) else do {
     r \<leftarrow> transmit_data os bd cd buffer sent to_send;
     case r of None \<Rightarrow> State_Monad.return None | Some False \<Rightarrow> State_Monad.return (Some IFD_TOWITOKO_IO_ERROR)
     | Some True \<Rightarrow> transmit_loop os ifd s bd cd header buffer (sent + to_send) }}"
  by (hypsubst, subst transmit_loop.simps, simp add: Let_def)

lemma transmit_loop_end: "length buffer \<le> sent \<Longrightarrow>
    transmit_loop os ifd s bd cd header buffer sent = State_Monad.return (Some IFD_TOWITOKO_OK)"
  by (simp add: transmit_loop.simps)

text \<open>
  One turn: the header, whatever its bytes 1 and 3 were, then what the data part and the
  rest of the loop send.
\<close>

lemma sends_turn:
  assumes "posix_line os wire" "output_bitrate q < 115200" "sent < length buffer"
    and n: "n = min (length buffer) IFD_TOWITOKO_MAX_TRANSMIT"
    and rest: "\<And>x y. sends wire (line_ready q) (do {
      r \<leftarrow> transmit_data os bd cd buffer sent n;
      case r of None \<Rightarrow> State_Monad.return None | Some False \<Rightarrow> State_Monad.return (Some IFD_TOWITOKO_IO_ERROR)
      | Some True \<Rightarrow> transmit_loop os ifd fast bd cd [0x6F, x, 0x05, y, 0xFE, 0xF8] buffer (sent + n) }) R"
  shows "sends wire (line_ready q) (transmit_loop os ifd fast bd cd [0x6F, a, 0x05, b, 0xFE, 0xF8] buffer sent)
    (\<lambda>r cs. (\<exists>ds. cs = transmit_header ifd fast n @ ds \<and> R r ds) \<or>
       r = Some IFD_TOWITOKO_IO_ERROR \<and> sent_all os (transmit_header ifd fast n) False cs)"
proof -
  let ?h = "[0x6F, low_byte n, 0x05, IFD_Towitoko_Checksum [0x6F, low_byte n, 0x05] (slot ifd), 0xFE, 0xF8]"
  have h: "([0x6F, a, 0x05, b, 0xFE, 0xF8 :: byte][1 := low_byte n])[4 - 1 := IFD_Towitoko_Checksum
      (take (4 - 1) ([0x6F, a, 0x05, b, 0xFE, 0xF8 :: byte][1 := low_byte n])) (slot ifd)] = ?h"
    by (simp add: numeral_3_eq_3)
  have head: "take (if fast then 6 else 4) ?h = transmit_header ifd fast n"
    by (simp add: sealed_def transmit_header_def)
  have "sends wire (line_ready q) (do {
      ok \<leftarrow> IO_Serial_Write os IFD_TOWITOKO_DELAY hs;
      if \<not> ok then State_Monad.return (Some IFD_TOWITOKO_IO_ERROR) else do {
      r \<leftarrow> transmit_data os bd cd buffer sent n;
      case r of None \<Rightarrow> State_Monad.return None | Some False \<Rightarrow> State_Monad.return (Some IFD_TOWITOKO_IO_ERROR)
      | Some True \<Rightarrow> transmit_loop os ifd fast bd cd ?h buffer (sent + n) }})
    (\<lambda>r cs. (\<exists>ds. cs = hs @ ds \<and> R r ds) \<or> r = Some IFD_TOWITOKO_IO_ERROR \<and> sent_all os hs False cs)" for hs
    by (rule sends_bind [OF sends_Write_sent [OF assms(1)]], rule sends_if, rule sends_return, force,
        rule sends_conseq [OF rest]) (auto simp: sent_all_True)
  then show ?thesis
    unfolding transmit_loop_turn [OF assms(3) n]
    by (intro sends_bind [OF sends_Prepare [OF assms(2)]]) (clarsimp simp only: h prod.case append.simps head)
qed

text \<open>The first turn of a block, and the only one of a block of at most 255 bytes.\<close>

lemma sends_first_turn:
  assumes "posix_line os wire" "output_bitrate q < 115200" "buffer \<noteq> []"
    and n: "n = min (length buffer) IFD_TOWITOKO_MAX_TRANSMIT"
    and later: "\<And>x y. sends wire (line_ready q) (transmit_loop os ifd fast bd cd [0x6F, x, 0x05, y, 0xFE, 0xF8] buffer n) R"
  shows "sends wire (line_ready q) (transmit_loop os ifd fast bd cd [0x6F, a, 0x05, b, 0xFE, 0xF8] buffer 0)
    (\<lambda>r cs. (\<exists>ds. cs = transmit_header ifd fast n @ take n buffer @ ds \<and> R r ds) \<or>
       r = Some IFD_TOWITOKO_IO_ERROR \<and> sent_all os (transmit_header ifd fast n @ take n buffer) False cs)"
proof -
  have le: "0 + n \<le> length buffer" using n by simp
  have "sends wire (line_ready q) (do {
      r \<leftarrow> transmit_data os bd cd buffer 0 n;
      case r of None \<Rightarrow> State_Monad.return None | Some False \<Rightarrow> State_Monad.return (Some IFD_TOWITOKO_IO_ERROR)
      | Some True \<Rightarrow> transmit_loop os ifd fast bd cd [0x6F, x, 0x05, y, 0xFE, 0xF8] buffer (0 + n) })
    (\<lambda>r cs. (\<exists>ds. cs = take n buffer @ ds \<and> R r ds) \<or>
       r = Some IFD_TOWITOKO_IO_ERROR \<and> sent_all os (take n buffer) False cs)" for x y
    by (rule sends_bind [OF sends_transmit_data [OF assms(1) le]])
       (auto simp: sent_all_True split: bool.split option.split intro!: sends_return sends_conseq [OF later])
  then show ?thesis
    using assms(3) by (intro sends_conseq [OF sends_turn [OF assms(1,2) _ n]])
      (auto intro: sent_all_append sent_all_prefix)
qed

lemma sends_Transmit_loop:
  assumes "\<And>bd cd. sends wire (line_ready q) (transmit_loop os ifd (output_bitrate q > 9600) bd cd [0x6F, 0x00, 0x05, 0x00, 0xFE, 0xF8] buffer 0) R"
    and "ifd_type ifd = IFD_TOWITOKO_KARTENZWERG \<Longrightarrow> R (Some IFD_TOWITOKO_UNSUPPORTED) []"
  shows "sends wire (line_ready q) (IFD_Towitoko_Transmit os ifd timings buffer) R"
  unfolding IFD_Towitoko_Transmit_def
  by (rule sends_if, force intro!: sends_return assms(2),
      rule sends_bind [OF sends_GetProperties_cached [OF line_readyD]])
     (use assms(1) in \<open>auto simp: IFD_TOWITOKO_BAUDRATE_def\<close>)

lemma sends_Transmit:
  assumes "posix_line os wire" "output_bitrate q < 115200" "length buffer \<le> 255"
  shows "sends wire (line_ready q) (IFD_Towitoko_Transmit os ifd timings buffer)
    (\<lambda>r cs. r \<noteq> None \<and>
       sends_upto (transmit_stream ifd (output_bitrate q > 9600) buffer) (r = Some IFD_TOWITOKO_OK) cs)"
proof (rule sends_Transmit_loop)
  let ?n = "length buffer" and ?fast = "output_bitrate q > 9600"
  show "sends wire (line_ready q) (transmit_loop os ifd ?fast bd cd [0x6F, 0x00, 0x05, 0x00, 0xFE, 0xF8] buffer 0)
    (\<lambda>r cs. r \<noteq> None \<and> sends_upto (transmit_stream ifd ?fast buffer) (r = Some IFD_TOWITOKO_OK) cs)" for bd cd
  proof (cases "buffer = []")
    case True
    then show ?thesis by (auto intro!: sends_return simp: transmit_loop_end transmit_stream_def sends_upto_def)
  next
    case False
    have m: "?n = min ?n IFD_TOWITOKO_MAX_TRANSMIT" using assms(3) by (simp add: IFD_TOWITOKO_MAX_TRANSMIT_def)
    have last: "sends wire (line_ready q) (transmit_loop os ifd ?fast bd cd [0x6F, x, 0x05, y, 0xFE, 0xF8] buffer ?n)
        (\<lambda>r cs. r = Some IFD_TOWITOKO_OK \<and> cs = [])" for x y
      by (auto intro!: sends_return simp: transmit_loop_end)
    show ?thesis
      by (rule sends_conseq [OF sends_first_turn [OF assms(1,2) False m last]])
         (use False in \<open>auto simp: transmit_stream_def transmit_header_def sends_upto_def sent_all_def\<close>)
  qed
qed (simp add: sends_upto_def)

text \<open>
  (C33) Transmission to a card on a line whose settings are cached and whose rate is below
  115200 baud: a block of at most 255 bytes is never read beyond its end; what reaches the
  line is a prefix of the sealed transmit command (with the switch sequence above 9600
  baud) and the block, all of it when the function returns \<open>IFD_TOWITOKO_OK\<close>, for
  every combination of block and character delays.
\<close>

theorem IFD_Towitoko_Transmit_stream:
  assumes "posix_line os wire" "props (p_io p) = Some q" "output_bitrate q < 115200" "length buffer \<le> 255"
    and "run_state (IFD_Towitoko_Transmit os ifd timings buffer) p = (r, p')"
  shows "r \<noteq> None \<and> (\<exists>cs ds. transmit_stream ifd (output_bitrate q > 9600) buffer = cs @ ds \<and>
    wire (p_dev p') = wire (p_dev p) @ cs \<and> (r = Some IFD_TOWITOKO_OK \<longrightarrow> ds = [])) \<and> props (p_io p') = Some q"
  using sendsD [OF sends_Transmit [OF assms(1,3,4)] assms(5)] assms(2)
  by (auto simp: line_ready_def sends_upto_def)

definition no_timings :: IFD_Timings where
  "no_timings = \<lparr>block_delay = 0, char_delay = 0, block_timeout = 0, char_timeout = 0\<rparr>"

lemma IFD_Towitoko_Transmit_stream_witness:
  "\<exists>p'. run_state (IFD_Towitoko_Transmit script_os IFD_Towitoko_Clear no_timings [0x41, 0x42])
      (script_port [] (Some default_properties)) = (Some IFD_TOWITOKO_OK, p') \<and>
     script_view (p_dev p') = transmit_stream IFD_Towitoko_Clear False [0x41, 0x42]"
proof -
  let ?p = "script_port [] (Some default_properties)"
  have q: "props (p_io ?p) = Some default_properties" "output_bitrate default_properties < 115200"
    "output_bitrate default_properties = 9600" "script_view (p_dev ?p) = []"
    by (simp_all add: script_port_def default_properties_def IFD_TOWITOKO_BAUDRATE_def script_view_def)
  obtain r p' where r: "run_state (IFD_Towitoko_Transmit script_os IFD_Towitoko_Clear no_timings [0x41, 0x42]) ?p = (r, p')"
    by fastforce
  then have "r = Some IFD_TOWITOKO_OK"
    by (simp add: IFD_Towitoko_Transmit_def transmit_loop.simps transmit_data_def bytes_at_def IFD_TOWITOKO_MAX_TRANSMIT_def
        ifd_eval script_port_def no_timings_def IFD_Towitoko_Clear_def IFD_TOWITOKO_KARTENZWERG_def Let_def)
  then show ?thesis
    using IFD_Towitoko_Transmit_stream [OF script_posix q(1,2) _ r] q(3,4) r by auto
qed

lemma transmit_data_overrun: "sent + n > length buffer \<Longrightarrow> transmit_data os bd cd buffer sent n = State_Monad.return None"
  by (simp add: transmit_data_def bytes_at_def)

text \<open>
  (C34) Beyond 255 bytes every turn of the loop sends 255 bytes, not the rest: for a block
  of 256 to 509 bytes, on a line with cached settings below 115200 baud and a reader that can
  transmit (not the Kartenzwerg), the second turn reads 255 bytes from offset 255, past the end of the block.  The model stops there: the
  result \<open>None\<close> means that the command and the first 255 bytes and the
  command of the second turn, which announces 255 more, have been sent and the
  read past the end comes next; the only other result is the error of a failed write, and
  a system that accepts every write reaches the over-read.  (The C function goes on, sends
  what lies behind the block and returns \<open>IFD_TOWITOKO_OK\<close>.)
\<close>

theorem IFD_Towitoko_Transmit_overruns:
  assumes "posix_line os wire" "props (p_io p) = Some q" "output_bitrate q < 115200"
    and "255 < length buffer" "length buffer < 510" "ifd_type ifd \<noteq> IFD_TOWITOKO_KARTENZWERG"
    and "run_state (IFD_Towitoko_Transmit os ifd timings buffer) p = (r, p')"
  shows "(r = None \<longrightarrow> wire (p_dev p') = wire (p_dev p) @ transmit_header ifd (output_bitrate q > 9600) 255 @ take 255 buffer @
      transmit_header ifd (output_bitrate q > 9600) 255) \<and>
    (r \<noteq> None \<longrightarrow> r = Some IFD_TOWITOKO_IO_ERROR \<and> \<not> writes_all os)"
proof -
  let ?fast = "output_bitrate q > 9600" and ?h = "transmit_header ifd (output_bitrate q > 9600) 255"
  have m: "255 = min (length buffer) IFD_TOWITOKO_MAX_TRANSMIT" using assms(4) by (simp add: IFD_TOWITOKO_MAX_TRANSMIT_def)
  have ne: "buffer \<noteq> []" using assms(4) by auto
  have over: "transmit_data os bd cd buffer 255 255 = State_Monad.return None" for bd cd
    by (rule transmit_data_overrun) (use assms(5) in simp)
  have stop: "sends wire (line_ready q) (do {
      r \<leftarrow> transmit_data os bd cd buffer 255 255;
      case r of None \<Rightarrow> State_Monad.return None | Some False \<Rightarrow> State_Monad.return (Some IFD_TOWITOKO_IO_ERROR)
      | Some True \<Rightarrow> transmit_loop os ifd ?fast bd cd [0x6F, x, 0x05, y, 0xFE, 0xF8] buffer (255 + 255) })
    (\<lambda>r cs. r = None \<and> cs = [])" for bd cd x y
    unfolding over by (auto intro!: sends_return)
  have second: "sends wire (line_ready q) (transmit_loop os ifd ?fast bd cd [0x6F, x, 0x05, y, 0xFE, 0xF8] buffer 255)
      (\<lambda>r cs. r = None \<and> cs = ?h \<or> r = Some IFD_TOWITOKO_IO_ERROR \<and> \<not> writes_all os)" for bd cd x y
    by (rule sends_conseq [OF sends_turn [OF assms(1,3,4) m stop]]) (auto simp: sent_all_def)
  have "sends wire (line_ready q) (IFD_Towitoko_Transmit os ifd timings buffer)
      (\<lambda>r cs. r = None \<and> cs = ?h @ take 255 buffer @ ?h \<or> r = Some IFD_TOWITOKO_IO_ERROR \<and> \<not> writes_all os)"
    by (rule sends_Transmit_loop, rule sends_conseq [OF sends_first_turn [OF assms(1,3) ne m second]])
       (use assms(6) in \<open>auto simp: sent_all_def\<close>)
  from sendsD [OF this assms(7)] show ?thesis
    using assms(2) by (auto simp: line_ready_def)
qed

text \<open>On the scripted line, which accepts every write, 300 bytes are over-read.\<close>

lemma IFD_Towitoko_Transmit_overruns_witness:
  "writes_all script_os \<and>
   fst (run_state (IFD_Towitoko_Transmit script_os IFD_Towitoko_Clear no_timings (replicate 300 0x42))
          (script_port [] (Some default_properties))) = None"
proof -
  have q: "props (p_io (script_port [] (Some default_properties))) = Some default_properties" "output_bitrate default_properties < 115200"
    "ifd_type IFD_Towitoko_Clear \<noteq> IFD_TOWITOKO_KARTENZWERG"
    by (simp_all add: script_port_def default_properties_def IFD_TOWITOKO_BAUDRATE_def IFD_Towitoko_Clear_def IFD_TOWITOKO_KARTENZWERG_def)
  have w: "writes_all script_os" by (simp add: writes_all_def)
  then show ?thesis
    using IFD_Towitoko_Transmit_overruns [OF script_posix q(1,2) _ _ q(3) prod.collapse [symmetric], of "replicate 300 0x42" no_timings] by auto
qed

section \<open>Reset\<close>

lemma reset_tries_wf:
  assumes "length (ib fresh) = ATR_MAX_PROTOCOLS" "run_state (reset_tries os fresh cmds atr) p = (Some (True, a), p')"
  shows "\<exists>x. a = Some x \<and> atr_wf x"
  using assms(2)
proof (induction cmds arbitrary: atr p)
  case (Cons cmd cmds)
  then show ?case
    using InitFromStream_result [OF _ assms(1)] atr_result_wf [OF _ assms(1)]
    by (auto split: prod.splits if_splits option.splits sum.splits) blast+
qed simp

lemma reset_pass_wf:
  "length (ib fresh) = ATR_MAX_PROTOCOLS \<Longrightarrow> run_state (reset_pass os ifd fresh atr) p = (Some (True, a), p') \<Longrightarrow>
   \<exists>x. a = Some x \<and> atr_wf x"
  unfolding reset_pass_def Let_def by (rule reset_tries_wf)

text \<open>
  (C36) A reset of an asynchronous card that succeeds yields a well-formed answer to reset,
  found in even or in odd parity; a reader without support for such cards is refused and
  leaves the answer as it was.
\<close>

theorem IFD_Towitoko_ResetAsyncICC_wf:
  assumes "length (ib fresh) = ATR_MAX_PROTOCOLS"
    and "run_state (IFD_Towitoko_ResetAsyncICC os ifd fresh atr) p = (Some (ret, a), p')"
  shows "(ret = IFD_TOWITOKO_OK \<longrightarrow> (\<exists>x. a = Some x \<and> atr_wf x)) \<and>
    (ifd_type ifd = IFD_TOWITOKO_KARTENZWERG \<longrightarrow> ret = IFD_TOWITOKO_UNSUPPORTED \<and> a = atr \<and> p' = p)"
  using assms(2) unfolding IFD_Towitoko_ResetAsyncICC_def
  by (auto split: prod.splits if_splits option.splits bool.splits dest!: reset_pass_wf [OF assms(1)])

lemma IFD_Towitoko_ResetAsyncICC_wf_witness:
  "\<exists>x p'. run_state (IFD_Towitoko_ResetAsyncICC script_os IFD_Towitoko_Clear blank_ATR None)
      (script_port [[0x3B, 0x00]] (Some default_properties)) = (Some (IFD_TOWITOKO_OK, Some x), p') \<and> atr_wf x"
proof -
  let ?run = "run_state (IFD_Towitoko_ResetAsyncICC script_os IFD_Towitoko_Clear blank_ATR None)
      (script_port [[0x3B, 0x00]] (Some default_properties))"
  have "\<exists>a p'. ?run = (Some (IFD_TOWITOKO_OK, a), p')"
    by (simp add: IFD_Towitoko_ResetAsyncICC_def reset_pass_def ifd_eval script_port_def IFD_Towitoko_Clear_def
        IFD_TOWITOKO_KARTENZWERG_def ATR_InitFromStream_def ATR_GetNextByte_def stream_body_def stream_row_def stream_byte_def
        row_size_def Let_def ATR_PROTOCOL_TYPE_T0_def ATR_MAX_PROTOCOLS_def blank_ATR_def stream_interface_numeral)
  then obtain a p' where r: "?run = (Some (IFD_TOWITOKO_OK, a), p')" by blast
  have "length (ib blank_ATR) = ATR_MAX_PROTOCOLS" by (simp add: blank_ATR_def ATR_MAX_PROTOCOLS_def)
  then show ?thesis using IFD_Towitoko_ResetAsyncICC_wf [OF _ r] r by auto
qed

section \<open>Error counters\<close>

lemma NumTrials_popcount: "IFD_Towitoko_NumTrials b = (\<Sum>n<8. of_bool (bit b n))"
proof -
  have "x AND 0x01 = 0x01 \<longleftrightarrow> bit x 0" for x :: byte
    by (simp add: and_one_eq odd_iff_mod_2_eq_one [symmetric] bit_0)
  then show ?thesis
    by (simp add: IFD_Towitoko_NumTrials_def upt_rec lessThan_Suc numeral_eq_Suc bit_drop_bit_eq)
qed

text \<open>
  Before a PIN is presented the error counter is written with one trial fewer: the
  number of trials read back from the byte \<open>IFD_Towitoko_EnterPin\<close> writes (the number
  of its set bits) is one less than the number it was called with.
\<close>

lemma EnterPin_counter_decrements:
  "(1 \<le> trial \<and> trial \<le> 3 \<longrightarrow> IFD_Towitoko_NumTrials (counter_2W trial) = trial - 1) \<and>
   (1 \<le> trial \<and> trial \<le> 8 \<longrightarrow> IFD_Towitoko_NumTrials (counter_3W trial) = trial - 1) \<and>
   IFD_Towitoko_NumTrials b = card {n. bit b n}"
proof (intro conjI impI)
  have small: "trial \<in> {1, 2, 3, 4, 5, 6, 7, 8}" if "1 \<le> trial \<and> trial \<le> 8" using that by auto
  show "IFD_Towitoko_NumTrials (counter_2W trial) = trial - 1" if "1 \<le> trial \<and> trial \<le> 3"
  proof -
    have "trial \<in> {1, 2, 3}" using that by auto
    then show ?thesis by (auto simp: counter_2W_def IFD_Towitoko_NumTrials_def upt_rec)
  qed
  show "IFD_Towitoko_NumTrials (counter_3W trial) = trial - 1" if "1 \<le> trial \<and> trial \<le> 8"
    using small [OF that] by (auto simp: counter_3W_def IFD_Towitoko_NumTrials_def upt_rec)
  have "{..<8} \<inter> {n. bit b n} = {n. bit b n}" by (auto dest: byte_high_bit)
  moreover have "IFD_Towitoko_NumTrials b = card ({..<8} \<inter> {n. bit b n})"
    by (simp add: NumTrials_popcount)
  ultimately show "IFD_Towitoko_NumTrials b = card {n. bit b n}" by simp
qed

end
