(* ===== verification/IccAsync.thy ===== *)
theory IccAsync
  imports IfdCard
begin

text \<open>
  Asynchronous cards, \<^verbatim>\<open>src/src/driver/icc_async.c\<close> and \<^verbatim>\<open>icc_async.h\<close>: the card
  behind an interface device, its convention, rate and timings.
\<close>

section \<open>Data\<close>

datatype icc_async_ret = ICC_ASYNC_OK | ICC_ASYNC_IFD_ERROR | ICC_ASYNC_ATR_ERROR

definition ICC_ASYNC_BAUDRATE :: nat where "ICC_ASYNC_BAUDRATE = 9600"

record ICC_Async_Timings =
  icc_block_delay :: nat
  icc_char_delay :: nat
  icc_block_timeout :: nat
  icc_char_timeout :: nat

text \<open>
  The pointers to the interface device and to the answer are \<open>None\<close> when they are
  \<open>NULL\<close>; the structure of the device does not change while the card is in use.
\<close>

record ICC_Async =
  icc_ifd :: "IFD option"
  icc_atr :: "ATR option"
  convention :: atr_convention
  baudrate :: nat
  timings :: ICC_Async_Timings

definition ICC_Async_Clear :: ICC_Async where
  "ICC_Async_Clear =
     \<lparr>icc_ifd = None, icc_atr = None, convention = ATR_CONVENTION_DIRECT, baudrate = 0,
      timings = \<lparr>icc_block_delay = 0, icc_char_delay = 0, icc_block_timeout = 0, icc_char_timeout = 0\<rparr>\<rparr>"

definition ICC_Async_New :: ICC_Async where
  "ICC_Async_New = ICC_Async_Clear"

definition ICC_Async_InvertBuffer :: "byte list \<Rightarrow> byte list" where
  "ICC_Async_InvertBuffer buffer = map (\<lambda>b. NOT (INVERT_BYTE b)) buffer"

section \<open>Initialisation\<close>

text \<open>
  \<open>None\<close> marks the write outside the structure in the parser of the answer to reset.
\<close>

definition ICC_Async_Init :: "'d os \<Rightarrow> ATR \<Rightarrow> ICC_Async \<Rightarrow> IFD \<Rightarrow> ('d, (icc_async_ret \<times> ICC_Async) option) io" where
  "ICC_Async_Init os fresh icc ifd = do {
     r \<leftarrow> IFD_Towitoko_SetLED os ifd IFD_TOWITOKO_LED_RED;
     if r \<noteq> IFD_TOWITOKO_OK then State_Monad.return (Some (ICC_ASYNC_IFD_ERROR, icc)) else do {
     r \<leftarrow> IFD_Towitoko_SetBaudrate os ifd ICC_ASYNC_BAUDRATE;
     if r \<noteq> IFD_TOWITOKO_OK then State_Monad.return (Some (ICC_ASYNC_IFD_ERROR, icc)) else do {
     r \<leftarrow> IFD_Towitoko_ActivateICC os ifd;
     if r \<noteq> IFD_TOWITOKO_OK then State_Monad.return (Some (ICC_ASYNC_IFD_ERROR, icc)) else do {
     reset \<leftarrow> IFD_Towitoko_ResetAsyncICC os ifd fresh (icc_atr icc);
     case reset of
       None \<Rightarrow> State_Monad.return None
     | Some (ret, atr) \<Rightarrow>
         if ret \<noteq> IFD_TOWITOKO_OK then State_Monad.return (Some (ICC_ASYNC_IFD_ERROR, icc\<lparr>icc_atr := None\<rparr>))
         else (case ATR_GetConvention (the atr) of
           Inl _ \<Rightarrow> State_Monad.return
             (Some (ICC_ASYNC_ATR_ERROR, icc\<lparr>icc_atr := None, convention := ATR_CONVENTION_DIRECT\<rparr>))
         | Inr conv \<Rightarrow> do {
             r \<leftarrow> IFD_Towitoko_SetLED os ifd IFD_TOWITOKO_LED_GREEN;
             State_Monad.return (Some
               (if r \<noteq> IFD_TOWITOKO_OK
                then (ICC_ASYNC_IFD_ERROR, icc\<lparr>icc_atr := None, convention := ATR_CONVENTION_DIRECT\<rparr>)
                else (ICC_ASYNC_OK, icc\<lparr>icc_atr := atr, convention := conv, baudrate := ICC_ASYNC_BAUDRATE,
                                         icc_ifd := Some ifd\<rparr>))) }) }}}}"

definition ICC_Async_Close :: "'d os \<Rightarrow> ICC_Async \<Rightarrow> ('d, icc_async_ret \<times> ICC_Async) io" where
  "ICC_Async_Close os icc = do {
     r \<leftarrow> IFD_Towitoko_DeactivateICC os (the (icc_ifd icc));
     if r \<noteq> IFD_TOWITOKO_OK then State_Monad.return (ICC_ASYNC_IFD_ERROR, icc) else do {
     r \<leftarrow> IFD_Towitoko_SetLED os (the (icc_ifd icc)) IFD_TOWITOKO_LED_OFF;
     State_Monad.return
       (if r \<noteq> IFD_TOWITOKO_OK then (ICC_ASYNC_IFD_ERROR, icc) else (ICC_ASYNC_OK, ICC_Async_Clear)) }}"

section \<open>Attributes\<close>

definition ICC_Async_SetTimings :: "ICC_Async \<Rightarrow> ICC_Async_Timings \<Rightarrow> icc_async_ret \<times> ICC_Async" where
  "ICC_Async_SetTimings icc t = (ICC_ASYNC_OK, icc\<lparr>timings := t\<rparr>)"

definition ICC_Async_GetTimings :: "ICC_Async \<Rightarrow> icc_async_ret \<times> ICC_Async_Timings" where
  "ICC_Async_GetTimings icc = (ICC_ASYNC_OK, timings icc)"

definition ICC_Async_SetBaudrate :: "ICC_Async \<Rightarrow> nat \<Rightarrow> icc_async_ret \<times> ICC_Async" where
  "ICC_Async_SetBaudrate icc b = (ICC_ASYNC_OK, icc\<lparr>baudrate := b\<rparr>)"

definition ICC_Async_GetBaudrate :: "ICC_Async \<Rightarrow> icc_async_ret \<times> nat" where
  "ICC_Async_GetBaudrate icc = (ICC_ASYNC_OK, baudrate icc)"

definition ICC_Async_GetAtr :: "ICC_Async \<Rightarrow> ATR option" where
  "ICC_Async_GetAtr icc = icc_atr icc"

definition ICC_Async_GetIFD :: "ICC_Async \<Rightarrow> IFD option" where
  "ICC_Async_GetIFD icc = icc_ifd icc"

definition ICC_Async_GetClockRate :: "ICC_Async \<Rightarrow> nat" where
  "ICC_Async_GetClockRate icc = IFD_Towitoko_GetClockRate (the (icc_ifd icc))"

section \<open>Transmission\<close>

definition ICC_Async_BeginTransmission :: "'d os \<Rightarrow> ICC_Async \<Rightarrow> ('d, icc_async_ret) io" where
  "ICC_Async_BeginTransmission os icc = do {
     r \<leftarrow> (if convention icc = ATR_CONVENTION_INVERSE
           then IFD_Towitoko_SetParity os (the (icc_ifd icc)) IFD_TOWITOKO_PARITY_ODD
           else State_Monad.return IFD_TOWITOKO_OK);
     if r \<noteq> IFD_TOWITOKO_OK then State_Monad.return ICC_ASYNC_IFD_ERROR else do {
     r \<leftarrow> IFD_Towitoko_SetBaudrate os (the (icc_ifd icc)) (baudrate icc);
     State_Monad.return (if r \<noteq> IFD_TOWITOKO_OK then ICC_ASYNC_IFD_ERROR else ICC_ASYNC_OK) }}"

text \<open>
  The structure passed to the device has only the fields the callee reads; the others are
  those of the stack, here 0.  \<open>None\<close> marks the device's read past the end of the data.
\<close>

definition ICC_Async_Transmit :: "'d os \<Rightarrow> ICC_Async \<Rightarrow> byte list \<Rightarrow> ('d, icc_async_ret option) io" where
  "ICC_Async_Transmit os icc data = do {
     let sent = (if convention icc = ATR_CONVENTION_INVERSE then ICC_Async_InvertBuffer data else data);
     r \<leftarrow> IFD_Towitoko_Transmit os (the (icc_ifd icc))
       \<lparr>block_delay = icc_block_delay (timings icc), char_delay = icc_char_delay (timings icc),
        block_timeout = 0, char_timeout = 0\<rparr> sent;
     State_Monad.return (case r of
       None \<Rightarrow> None
     | Some ret \<Rightarrow> Some (if ret \<noteq> IFD_TOWITOKO_OK then ICC_ASYNC_IFD_ERROR else ICC_ASYNC_OK)) }"

definition ICC_Async_Receive :: "'d os \<Rightarrow> ICC_Async \<Rightarrow> nat \<Rightarrow> ('d, icc_async_ret + byte list) io" where
  "ICC_Async_Receive os icc n = do {
     r \<leftarrow> IFD_Towitoko_Receive os (the (icc_ifd icc))
       \<lparr>block_delay = 0, char_delay = 0,
        block_timeout = icc_block_timeout (timings icc), char_timeout = icc_char_timeout (timings icc)\<rparr> n;
     State_Monad.return (case r of
       Inl _ \<Rightarrow> Inl ICC_ASYNC_IFD_ERROR
     | Inr data \<Rightarrow> Inr (if convention icc = ATR_CONVENTION_INVERSE then ICC_Async_InvertBuffer (take n data) @ drop n data else data)) }"

definition ICC_Async_Switch :: "'d os \<Rightarrow> ICC_Async \<Rightarrow> ('d, icc_async_ret) io" where
  "ICC_Async_Switch os icc =
     (if baudrate icc > ICC_ASYNC_BAUDRATE then do {
        r \<leftarrow> IFD_Towitoko_Switch os;
        State_Monad.return (if r \<noteq> IFD_TOWITOKO_OK then ICC_ASYNC_IFD_ERROR else ICC_ASYNC_OK) }
      else State_Monad.return ICC_ASYNC_OK)"

definition ICC_Async_EndTransmission :: "'d os \<Rightarrow> ICC_Async \<Rightarrow> ('d, icc_async_ret) io" where
  "ICC_Async_EndTransmission os icc =
     (if convention icc = ATR_CONVENTION_INVERSE then do {
        r \<leftarrow> IFD_Towitoko_SetParity os (the (icc_ifd icc)) IFD_TOWITOKO_PARITY_EVEN;
        State_Monad.return (if r \<noteq> IFD_TOWITOKO_OK then ICC_ASYNC_IFD_ERROR else ICC_ASYNC_OK) }
      else State_Monad.return ICC_ASYNC_OK)"

section \<open>The card as its users see it\<close>

lemma InvertBuffer_involution [simp]: "ICC_Async_InvertBuffer (ICC_Async_InvertBuffer bs) = bs"
  using atr_invert_involution by (simp add: ICC_Async_InvertBuffer_def atr_invert_def o_def)

lemma length_InvertBuffer [simp]: "length (ICC_Async_InvertBuffer bs) = length bs"
  by (simp add: ICC_Async_InvertBuffer_def)

lemma ICC_Async_Receive_length:
  assumes "run_state (ICC_Async_Receive os icc n) p = (Inr bs, p')"
    and "0 < n \<or> icc_block_timeout (timings icc) = icc_char_timeout (timings icc)"
  shows "length bs = n"
proof -
  let ?t = "\<lparr>block_delay = 0, char_delay = 0,
        block_timeout = icc_block_timeout (timings icc), char_timeout = icc_char_timeout (timings icc)\<rparr>"
  obtain data where data: "run_state (IFD_Towitoko_Receive os (the (icc_ifd icc)) ?t n) p = (Inr data, p')" "length bs = length data"
    using assms(1) by (auto simp: ICC_Async_Receive_def split: prod.splits sum.splits if_splits)
  then have "run_state (ok_bytes (IFD_Towitoko_Receive os (the (icc_ifd icc)) ?t n)) p = (Some data, p')"
    by (simp add: run_ok_bytes_Some)
  then show ?thesis using card_receiver.rd_length [of n ?t] assms(2) data(2) by fastforce
qed

interpretation async_receiver: exact_reader "\<lambda>n. ok_bytes (ICC_Async_Receive os icc n)"
  "\<lambda>n. 0 < n \<or> icc_block_timeout (timings icc) = icc_char_timeout (timings icc)"
  by unfold_locales (auto simp: run_ok_bytes_Some dest: ICC_Async_Receive_length)



end
