(* ===== verification/Apdu.thy ===== *)
theory Apdu
  imports Interfaces
begin

text \<open>
  Command and response APDUs, \<^verbatim>\<open>src/src/driver/apdu.c\<close> and \<^verbatim>\<open>apdu.h\<close>: the two
  structures, their constructors and accessors, and truncation and concatenation of
  responses.  Allocation is taken to succeed; a \<open>NULL\<close> that the code returns for any other
  reason is \<open>None\<close>.  The second half gives the abstract syntax of ISO 7816-4 command
  bodies and shows that the accessors decode exactly its encodings.
\<close>

section \<open>The data types\<close>

definition APDU_MAX_CMD_SIZE :: nat where "APDU_MAX_CMD_SIZE = 65545"
definition APDU_MAX_RSP_SIZE :: nat where "APDU_MAX_RSP_SIZE = 65538"
definition APDU_MIN_CMD_SIZE :: nat where "APDU_MIN_CMD_SIZE = 4"
definition APDU_MIN_RSP_SIZE :: nat where "APDU_MIN_RSP_SIZE = 2"

text \<open>The return value of \<open>APDU_Cmd_Case\<close>.\<close>

datatype apdu_case =
    APDU_CASE_1 | APDU_CASE_2S | APDU_CASE_3S | APDU_CASE_4S
  | APDU_CASE_2E | APDU_CASE_3E | APDU_CASE_4E | APDU_MALFORMED

datatype apdu_ret = APDU_OK | APDU_RET_MALFORMED

record APDU_Cmd =
  command :: "byte list"
  cmd_length :: nat

record APDU_Rsp =
  response :: "byte list"
  rsp_length :: nat

section \<open>Command APDUs\<close>

text \<open>\<open>data\<close> is the caller's buffer, which holds at least \<open>len\<close> bytes.\<close>

definition APDU_Cmd_New :: "byte list \<Rightarrow> nat \<Rightarrow> APDU_Cmd option" where
  "APDU_Cmd_New data len =
     (if len > APDU_MAX_CMD_SIZE then None
      else
        let l = max APDU_MIN_CMD_SIZE len
        in Some \<lparr>command = take len data @ replicate (l - len) 0, cmd_length = l\<rparr>)"

text \<open>
  \<open>L\<close> is the length of the body; \<open>APDU_Cmd_New\<close> makes \<open>cmd_length\<close> at least 4, so
  the subtraction does not wrap.
\<close>

definition APDU_Cmd_Case :: "APDU_Cmd \<Rightarrow> apdu_case" where
  "APDU_Cmd_Case apdu =
     (let L = cmd_length apdu - 4
      in if L = 0 then APDU_CASE_1
         else
           let B1 = unat (command apdu ! 4)
           in if B1 \<noteq> 0 \<and> L = B1 + 1 then APDU_CASE_2S
              else if L = 1 then APDU_CASE_3S
              else if B1 \<noteq> 0 \<and> L = B1 + 2 then APDU_CASE_4S
              else if B1 = 0 \<and> L > 2 then
                (let B2B3 = be16 (command apdu ! 5) (command apdu ! 6)
                 in if B2B3 \<noteq> 0 \<and> L = B2B3 + 3 then APDU_CASE_2E
                    else if L = 3 then APDU_CASE_3E
                    else if B2B3 \<noteq> 0 \<and> L = B2B3 + 5 then APDU_CASE_4E
                    else APDU_MALFORMED)
              else APDU_MALFORMED)"

definition APDU_Cmd_Cla :: "APDU_Cmd \<Rightarrow> byte" where "APDU_Cmd_Cla apdu = command apdu ! 0"
definition APDU_Cmd_Ins :: "APDU_Cmd \<Rightarrow> byte" where "APDU_Cmd_Ins apdu = command apdu ! 1"
definition APDU_Cmd_P1 :: "APDU_Cmd \<Rightarrow> byte" where "APDU_Cmd_P1 apdu = command apdu ! 2"
definition APDU_Cmd_P2 :: "APDU_Cmd \<Rightarrow> byte" where "APDU_Cmd_P2 apdu = command apdu ! 3"

definition APDU_Cmd_Lc :: "APDU_Cmd \<Rightarrow> nat" where
  "APDU_Cmd_Lc apdu =
     (let c = APDU_Cmd_Case apdu
      in if c = APDU_CASE_1 \<or> c = APDU_CASE_3S \<or> c = APDU_CASE_3E then 0
         else if c = APDU_CASE_2S \<or> c = APDU_CASE_4S then unat (command apdu ! 4)
         else if c = APDU_CASE_2E \<or> c = APDU_CASE_4E
              then be16 (command apdu ! 5) (command apdu ! 6)
         else 0)"

definition APDU_Cmd_Le :: "APDU_Cmd \<Rightarrow> nat" where
  "APDU_Cmd_Le apdu =
     (let c = APDU_Cmd_Case apdu; n = cmd_length apdu
      in if c = APDU_CASE_1 \<or> c = APDU_CASE_2S \<or> c = APDU_CASE_2E then 0
         else if c = APDU_CASE_3S then
           (if command apdu ! 4 = 0 then 256 else unat (command apdu ! 4))
         else if c = APDU_CASE_4S then
           (if command apdu ! (n - 1) = 0 then 256 else unat (command apdu ! (n - 1)))
         else if c = APDU_CASE_3E then
           (if be16 (command apdu ! 5) (command apdu ! 6) = 0 then 65536
            else be16 (command apdu ! 5) (command apdu ! 6))
         else if c = APDU_CASE_4E then
           (if be16 (command apdu ! (n - 2)) (command apdu ! (n - 1)) = 0 then 65536
            else be16 (command apdu ! (n - 2)) (command apdu ! (n - 1)))
         else 0)"

definition APDU_Cmd_Le_Available :: "APDU_Cmd \<Rightarrow> bool" where
  "APDU_Cmd_Le_Available apdu =
     (let c = APDU_Cmd_Case apdu; n = cmd_length apdu
      in if c = APDU_CASE_3S then command apdu ! 4 = 0
         else if c = APDU_CASE_4S then command apdu ! (n - 1) = 0
         else if c = APDU_CASE_3E then be16 (command apdu ! 5) (command apdu ! 6) = 0
         else if c = APDU_CASE_4E then
           be16 (command apdu ! (n - 2)) (command apdu ! (n - 1)) = 0
         else False)"

definition APDU_Cmd_Header :: "APDU_Cmd \<Rightarrow> byte list" where "APDU_Cmd_Header apdu = command apdu"

text \<open>A pointer into the command is the rest of the command from there on.\<close>

definition APDU_Cmd_Data :: "APDU_Cmd \<Rightarrow> byte list option" where
  "APDU_Cmd_Data apdu =
     (let c = APDU_Cmd_Case apdu
      in if c = APDU_CASE_1 \<or> c = APDU_CASE_3S \<or> c = APDU_CASE_3E then None
         else if c = APDU_CASE_2S \<or> c = APDU_CASE_4S then Some (drop 5 (command apdu))
         else if c = APDU_CASE_2E \<or> c = APDU_CASE_4E then Some (drop 7 (command apdu))
         else None)"

definition APDU_Cmd_Raw :: "APDU_Cmd \<Rightarrow> byte list" where "APDU_Cmd_Raw apdu = command apdu"
definition APDU_Cmd_RawLen :: "APDU_Cmd \<Rightarrow> nat" where "APDU_Cmd_RawLen apdu = cmd_length apdu"

section \<open>Response APDUs\<close>

definition APDU_Rsp_New :: "byte list \<Rightarrow> nat \<Rightarrow> APDU_Rsp option" where
  "APDU_Rsp_New data len =
     (if len < APDU_MIN_RSP_SIZE then None
      else Some \<lparr>response = take len data, rsp_length = len\<rparr>)"

definition APDU_Rsp_SW1 :: "APDU_Rsp \<Rightarrow> byte" where
  "APDU_Rsp_SW1 apdu = response apdu ! (rsp_length apdu - 2)"

definition APDU_Rsp_SW2 :: "APDU_Rsp \<Rightarrow> byte" where
  "APDU_Rsp_SW2 apdu = response apdu ! (rsp_length apdu - 1)"

definition APDU_Rsp_DataLen :: "APDU_Rsp \<Rightarrow> nat" where
  "APDU_Rsp_DataLen apdu = rsp_length apdu - 2"

definition APDU_Rsp_Raw :: "APDU_Rsp \<Rightarrow> byte list" where "APDU_Rsp_Raw apdu = response apdu"
definition APDU_Rsp_Data :: "APDU_Rsp \<Rightarrow> byte list" where "APDU_Rsp_Data apdu = response apdu"
definition APDU_Rsp_RawLen :: "APDU_Rsp \<Rightarrow> nat" where "APDU_Rsp_RawLen apdu = rsp_length apdu"

text \<open>
  The array keeps its size, only \<open>rsp_length\<close> shrinks; the two status bytes are moved one
  after the other, each read from the array as it then is.
\<close>

definition APDU_Rsp_TruncateData :: "APDU_Rsp \<Rightarrow> nat \<Rightarrow> APDU_Rsp" where
  "APDU_Rsp_TruncateData apdu len =
     (if len > 0 \<and> len < rsp_length apdu - 2
      then
        let apdu1 = apdu\<lparr>response := (response apdu)[len := APDU_Rsp_SW1 apdu]\<rparr>;
            apdu2 = apdu1\<lparr>response := (response apdu1)[len + 1 := APDU_Rsp_SW2 apdu1]\<rparr>
        in apdu2\<lparr>rsp_length := len + 2\<rparr>
      else apdu)"

definition APDU_Rsp_AppendData :: "APDU_Rsp \<Rightarrow> APDU_Rsp \<Rightarrow> apdu_ret \<times> APDU_Rsp" where
  "APDU_Rsp_AppendData apdu1 apdu2 =
     (let len = APDU_Rsp_DataLen apdu1 + APDU_Rsp_RawLen apdu2
      in if len > 2 \<and> len \<le> APDU_MAX_RSP_SIZE
         then (APDU_OK,
               \<lparr>response = take (APDU_Rsp_DataLen apdu1) (response apdu1)
                           @ take (APDU_Rsp_RawLen apdu2) (APDU_Rsp_Raw apdu2),
                rsp_length = len\<rparr>)
         else (APDU_RET_MALFORMED, apdu1))"

section \<open>Well-formed APDUs\<close>

definition apdu_cmd_wf :: "APDU_Cmd \<Rightarrow> bool" where
  "apdu_cmd_wf c \<longleftrightarrow>
     length (command c) = cmd_length c \<and> APDU_MIN_CMD_SIZE \<le> cmd_length c \<and>
     cmd_length c \<le> APDU_MAX_CMD_SIZE"

definition apdu_rsp_wf :: "APDU_Rsp \<Rightarrow> bool" where
  "apdu_rsp_wf r \<longleftrightarrow> APDU_MIN_RSP_SIZE \<le> rsp_length r \<and> rsp_length r \<le> length (response r)"

definition rsp_data :: "APDU_Rsp \<Rightarrow> byte list" where
  "rsp_data r = take (rsp_length r - 2) (response r)"

lemmas apdu_sizes =
  APDU_MAX_CMD_SIZE_def APDU_MAX_RSP_SIZE_def APDU_MIN_CMD_SIZE_def APDU_MIN_RSP_SIZE_def

lemma APDU_Cmd_New_wf:
  "len \<le> length data \<Longrightarrow> APDU_Cmd_New data len = Some c \<Longrightarrow> apdu_cmd_wf c"
  by (auto simp: APDU_Cmd_New_def apdu_cmd_wf_def apdu_sizes Let_def split: if_splits)

lemma APDU_Cmd_New_exact:
  "4 \<le> length bs \<Longrightarrow> length bs \<le> APDU_MAX_CMD_SIZE \<Longrightarrow>
   APDU_Cmd_New bs (length bs) = Some \<lparr>command = bs, cmd_length = length bs\<rparr>"
  by (simp add: APDU_Cmd_New_def apdu_sizes)

lemma APDU_Rsp_New_wf: "len \<le> length data \<Longrightarrow> APDU_Rsp_New data len = Some r \<Longrightarrow> apdu_rsp_wf r"
  by (auto simp: APDU_Rsp_New_def apdu_rsp_wf_def apdu_sizes split: if_splits)

section \<open>The abstract syntax of command bodies\<close>

text \<open>
  The seven cases of ISO 7816-4 as the code numbers them: \<open>2\<close> carries data to the card,
  \<open>3\<close> asks for data, \<open>4\<close> does both; \<open>S\<close> is the short and \<open>E\<close> the extended form.
\<close>

datatype apdu_body =
    Body1
  | Body2S "byte list"
  | Body3S nat
  | Body4S "byte list" nat
  | Body2E "byte list"
  | Body3E nat
  | Body4E "byte list" nat

fun body_wf :: "apdu_body \<Rightarrow> bool" where
  "body_wf Body1 = True"
| "body_wf (Body2S d) = (1 \<le> length d \<and> length d \<le> 255)"
| "body_wf (Body3S le) = (1 \<le> le \<and> le \<le> 256)"
| "body_wf (Body4S d le) = (1 \<le> length d \<and> length d \<le> 255 \<and> 1 \<le> le \<and> le \<le> 256)"
| "body_wf (Body2E d) = (1 \<le> length d \<and> length d \<le> 65535)"
| "body_wf (Body3E le) = (1 \<le> le \<and> le \<le> 65536)"
| "body_wf (Body4E d le) = (1 \<le> length d \<and> length d \<le> 65535 \<and> 1 \<le> le \<and> le \<le> 65536)"

text \<open>A length of 256 (short) or 65536 (extended) is sent as zero.\<close>

fun encode_body :: "apdu_body \<Rightarrow> byte list" where
  "encode_body Body1 = []"
| "encode_body (Body2S d) = low_byte (length d) # d"
| "encode_body (Body3S le) = [low_byte le]"
| "encode_body (Body4S d le) = low_byte (length d) # d @ [low_byte le]"
| "encode_body (Body2E d) = [0, high_byte (length d), low_byte (length d)] @ d"
| "encode_body (Body3E le) = [0, high_byte le, low_byte le]"
| "encode_body (Body4E d le) =
     [0, high_byte (length d), low_byte (length d)] @ d @ [high_byte le, low_byte le]"

type_synonym apdu_msg = "(byte \<times> byte \<times> byte \<times> byte) \<times> apdu_body"

fun msg_wf :: "apdu_msg \<Rightarrow> bool" where
  "msg_wf (h, b) = body_wf b"

fun encode_msg :: "apdu_msg \<Rightarrow> byte list" where
  "encode_msg ((cla, ins, p1, p2), b) = [cla, ins, p1, p2] @ encode_body b"

text \<open>What the accessors of \<open>apdu.c\<close> say of a command.\<close>

definition apdu_view :: "APDU_Cmd \<Rightarrow> apdu_msg option" where
  "apdu_view c =
     (let h = (APDU_Cmd_Cla c, APDU_Cmd_Ins c, APDU_Cmd_P1 c, APDU_Cmd_P2 c);
          d = (case APDU_Cmd_Data c of None \<Rightarrow> [] | Some p \<Rightarrow> take (APDU_Cmd_Lc c) p);
          le = APDU_Cmd_Le c
      in case APDU_Cmd_Case c of
           APDU_CASE_1 \<Rightarrow> Some (h, Body1)
         | APDU_CASE_2S \<Rightarrow> Some (h, Body2S d)
         | APDU_CASE_3S \<Rightarrow> Some (h, Body3S le)
         | APDU_CASE_4S \<Rightarrow> Some (h, Body4S d le)
         | APDU_CASE_2E \<Rightarrow> Some (h, Body2E d)
         | APDU_CASE_3E \<Rightarrow> Some (h, Body3E le)
         | APDU_CASE_4E \<Rightarrow> Some (h, Body4E d le)
         | APDU_MALFORMED \<Rightarrow> None)"

text \<open>Parsing raw bytes: build the command, then look at it.\<close>

definition parse_msg :: "byte list \<Rightarrow> apdu_msg option" where
  "parse_msg bs =
     (if length bs < 4 then None
      else case APDU_Cmd_New bs (length bs) of None \<Rightarrow> None | Some c \<Rightarrow> apdu_view c)"

lemmas apdu_accessors =
  APDU_Cmd_Cla_def APDU_Cmd_Ins_def APDU_Cmd_P1_def APDU_Cmd_P2_def APDU_Cmd_Lc_def
  APDU_Cmd_Le_def APDU_Cmd_Data_def APDU_Cmd_Case_def Let_def

lemma encode_msg_length:
  "msg_wf m \<Longrightarrow> 4 \<le> length (encode_msg m) \<and> length (encode_msg m) \<le> APDU_MAX_CMD_SIZE"
  by (cases "snd m"; cases m) (auto simp: apdu_sizes)

lemma parse_msg_view:
  "4 \<le> length bs \<Longrightarrow> length bs \<le> APDU_MAX_CMD_SIZE \<Longrightarrow>
   parse_msg bs = apdu_view \<lparr>command = bs, cmd_length = length bs\<rparr>"
  by (simp add: parse_msg_def APDU_Cmd_New_exact)

lemma view_encode:
  assumes "body_wf b"
  shows "apdu_view \<lparr>command = encode_msg (h, b), cmd_length = length (encode_msg (h, b))\<rparr> = Some (h, b)"
  using assms
  by (cases h; cases b)
     (auto simp: apdu_view_def apdu_accessors c_simps nth_append low_byte_eq_0_iff
           intro: mod_le_self mod_le_zero)

lemma low_byte_short_le: "low_byte (if b = 0 then 256 else unat b) = b"
  by (auto simp: c_simps low_byte_eq_0_iff)

lemma ext_le_bytes:
  "high_byte (if be16 h l = 0 then 65536 else be16 h l) = h"
  "low_byte (if be16 h l = 0 then 65536 else be16 h l) = l"
  by (auto simp: c_simps be16_eq word_unat_eq_iff unat_high_byte unat_low_byte)

lemma short_le_bounds: "1 \<le> (if b = 0 then 256 else unat b) \<and> (if b = 0 then 256 else unat b) \<le> (256 :: nat)"
  for b :: byte
  using unat_byte_less [of b] by (auto simp: Suc_le_eq unat_gt_0 simp del: unat_byte_less)

lemma ext_le_bounds:
  "1 \<le> (if be16 h l = 0 then 65536 else be16 h l) \<and>
   (if be16 h l = 0 then 65536 else be16 h l) \<le> 65536"
  using be16_less [of h l] by auto

lemma snoc_nth: "length xs = Suc n \<Longrightarrow> take n xs @ [xs ! n] = xs"
  by (metis lessI order_refl take_Suc_conv_app_nth take_all)

lemma snoc2_nth: "length xs = Suc (Suc n) \<Longrightarrow> take n xs @ [xs ! n, xs ! Suc n] = xs"
  by (metis Cons_eq_appendI Suc_lessD append_assoc append_self_conv2 lessI order_refl
      take_Suc_conv_app_nth take_all)

lemma encode_view:
  assumes view: "apdu_view \<lparr>command = cla # ins # p1 # p2 # body, cmd_length = 4 + length body\<rparr> = Some (h, b)"
  shows "h = (cla, ins, p1, p2) \<and> body_wf b \<and> encode_body b = body"
proof (cases body)
  case Nil
  with view show ?thesis by (auto simp: apdu_view_def apdu_accessors)
next
  case (Cons B1 rest)
  let ?c = "\<lparr>command = cla # ins # p1 # p2 # B1 # rest, cmd_length = 5 + length rest\<rparr>"
  have view: "apdu_view ?c = Some (h, b)" using view Cons by simp
  consider (short) "B1 \<noteq> 0 \<or> rest = []" | (long) B2 B3 d where "B1 = 0" "rest = B2 # B3 # d"
    using view by (cases "B1 = 0"; cases rest; cases "tl rest") (auto simp: apdu_view_def apdu_accessors)
  then show ?thesis
  proof cases
    case short
    have "b = Body2S rest \<and> length rest = unat B1 \<and> B1 \<noteq> 0 \<or>
          b = Body3S (if B1 = 0 then 256 else unat B1) \<and> rest = [] \<or>
          length rest = Suc (unat B1) \<and> B1 \<noteq> 0 \<and>
          b = Body4S (take (unat B1) rest) (if rest ! unat B1 = 0 then 256 else unat (rest ! unat B1))"
      using view short
      by (auto simp: apdu_view_def apdu_accessors unat_eq_zero split: if_splits)
    moreover have "h = (cla, ins, p1, p2)"
      using view by (auto simp: apdu_view_def apdu_accessors split: if_splits)
    ultimately show ?thesis
      using Cons short_le_bounds [of B1] short_le_bounds [of "rest ! unat B1"]
      by (auto simp: c_simps low_byte_short_le snoc_nth Suc_le_eq unat_gt_0 less_Suc_eq_le)
  next
    case long
    let ?n = "be16 B2 B3"
    have "b = Body2E d \<and> length d = ?n \<and> ?n \<noteq> 0 \<or>
          b = Body3E (if ?n = 0 then 65536 else ?n) \<and> d = [] \<or>
          length d = Suc (Suc ?n) \<and> ?n \<noteq> 0 \<and>
          b = Body4E (take ?n d) (if be16 (d ! ?n) (d ! Suc ?n) = 0 then 65536
                                  else be16 (d ! ?n) (d ! Suc ?n))"
      using view long by (auto simp: apdu_view_def apdu_accessors split: if_splits)
    moreover have "h = (cla, ins, p1, p2)"
      using view by (auto simp: apdu_view_def apdu_accessors split: if_splits)
    ultimately show ?thesis
      using Cons long ext_le_bounds [of B2 B3] ext_le_bounds [of "d ! ?n" "d ! Suc ?n"] be16_less [of B2 B3]
      by (auto simp: c_simps ext_le_bytes snoc2_nth)
  qed
qed

lemma split_header:
  assumes "4 \<le> length bs"
  obtains cla ins p1 p2 body where "bs = cla # ins # p1 # p2 # body"
  using assms by (auto simp: numeral_eq_Suc Suc_le_length_iff)

lemma parse_sound:
  assumes "parse_msg bs = Some m"
  shows "msg_wf m \<and> encode_msg m = bs"
proof -
  obtain h b where m: "m = (h, b)" by (cases m)
  from assms have len: "4 \<le> length bs" "length bs \<le> APDU_MAX_CMD_SIZE"
    by (auto simp: parse_msg_def APDU_Cmd_New_def split: if_splits)
  then obtain cla ins p1 p2 body where bs: "bs = cla # ins # p1 # p2 # body"
    using split_header by blast
  with assms len m have "apdu_view \<lparr>command = cla # ins # p1 # p2 # body, cmd_length = 4 + length body\<rparr> = Some (h, b)"
    by (simp add: parse_msg_view eval_nat_numeral)
  from encode_view [OF this] show ?thesis by (auto simp: m bs)
qed

interpretation apdu_codec: byte_codec msg_wf encode_msg parse_msg
proof unfold_locales
  show "parse_msg (encode_msg m) = Some m" if "msg_wf m" for m
    using that encode_msg_length [OF that] view_encode [of "snd m" "fst m"]
    by (cases m) (simp add: parse_msg_view)
  show "msg_wf m \<and> encode_msg m = bs" if "parse_msg bs = Some m" for bs m
    using that by (rule parse_sound)
qed

section \<open>Properties\<close>


lemma rsp_data_length: "apdu_rsp_wf r \<Longrightarrow> length (rsp_data r) = APDU_Rsp_DataLen r"
  by (auto simp: apdu_rsp_wf_def rsp_data_def APDU_Rsp_DataLen_def)

text \<open>
  Truncating a response to \<open>n > 0\<close> data bytes keeps the first \<open>n\<close> data bytes and
  both status bytes, whatever the lengths; truncation to zero bytes leaves it unchanged.
\<close>

lemma APDU_Rsp_TruncateData_correct:
  assumes "apdu_rsp_wf r"
  shows "apdu_rsp_wf (APDU_Rsp_TruncateData r n) \<and>
    rsp_data (APDU_Rsp_TruncateData r n) = (if n = 0 then rsp_data r else take n (rsp_data r)) \<and>
    APDU_Rsp_SW1 (APDU_Rsp_TruncateData r n) = APDU_Rsp_SW1 r \<and>
    APDU_Rsp_SW2 (APDU_Rsp_TruncateData r n) = APDU_Rsp_SW2 r"
  using assms
  by (auto simp: APDU_Rsp_TruncateData_def apdu_rsp_wf_def rsp_data_def APDU_Rsp_SW1_def
      APDU_Rsp_SW2_def apdu_sizes Let_def nth_list_update min_def)

lemma rsp_split:
  assumes "apdu_rsp_wf r"
  shows "take (rsp_length r) (response r) = rsp_data r @ [APDU_Rsp_SW1 r, APDU_Rsp_SW2 r]"
proof -
  from assms obtain n where n: "rsp_length r = Suc (Suc n)" "Suc (Suc n) \<le> length (response r)"
    using le_Suc_ex [of 2 "rsp_length r"] by (auto simp: apdu_rsp_wf_def apdu_sizes)
  then show ?thesis
    by (simp add: rsp_data_def APDU_Rsp_SW1_def APDU_Rsp_SW2_def take_Suc_conv_app_nth)
qed

lemma rsp_of_bytes:
  "apdu_rsp_wf \<lparr>response = d @ [sw1, sw2], rsp_length = Suc (Suc (length d))\<rparr>"
  "rsp_data \<lparr>response = d @ [sw1, sw2], rsp_length = Suc (Suc (length d))\<rparr> = d"
  "APDU_Rsp_SW1 \<lparr>response = d @ [sw1, sw2], rsp_length = Suc (Suc (length d))\<rparr> = sw1"
  "APDU_Rsp_SW2 \<lparr>response = d @ [sw1, sw2], rsp_length = Suc (Suc (length d))\<rparr> = sw2"
  by (simp_all add: apdu_rsp_wf_def apdu_sizes rsp_data_def APDU_Rsp_SW1_def APDU_Rsp_SW2_def nth_append)

lemma AppendData_eq:
  assumes "apdu_rsp_wf r1" and "apdu_rsp_wf r2"
  shows "APDU_Rsp_AppendData r1 r2 =
    (let d = rsp_data r1 @ rsp_data r2
     in if d \<noteq> [] \<and> length d + 2 \<le> APDU_MAX_RSP_SIZE
        then (APDU_OK, \<lparr>response = d @ [APDU_Rsp_SW1 r2, APDU_Rsp_SW2 r2], rsp_length = Suc (Suc (length d))\<rparr>)
        else (APDU_RET_MALFORMED, r1))"
proof -
  have len: "APDU_Rsp_DataLen r1 + APDU_Rsp_RawLen r2 = length (rsp_data r1 @ rsp_data r2) + 2"
    using assms by (auto simp: rsp_data_length APDU_Rsp_DataLen_def APDU_Rsp_RawLen_def apdu_rsp_wf_def apdu_sizes)
  have "take (APDU_Rsp_DataLen r1) (response r1) = rsp_data r1"
    by (simp add: APDU_Rsp_DataLen_def rsp_data_def)
  moreover have "take (APDU_Rsp_RawLen r2) (APDU_Rsp_Raw r2) = rsp_data r2 @ [APDU_Rsp_SW1 r2, APDU_Rsp_SW2 r2]"
    using rsp_split [OF assms(2)] by (simp add: APDU_Rsp_RawLen_def APDU_Rsp_Raw_def)
  ultimately show ?thesis
    unfolding APDU_Rsp_AppendData_def len by (simp add: Let_def)
qed

text \<open>
  Appending a response to another succeeds exactly when the result holds at least one
  data byte and fits the maximum size; then its data is the concatenation of the two data
  fields and its status bytes are those of the appended response.  On failure the first
  response is unchanged.
\<close>

lemma APDU_Rsp_AppendData_correct:
  assumes "apdu_rsp_wf r1" and "apdu_rsp_wf r2"
  shows "case APDU_Rsp_AppendData r1 r2 of (ret, r) \<Rightarrow>
      (ret = APDU_OK \<longleftrightarrow>
         rsp_data r1 @ rsp_data r2 \<noteq> [] \<and>
         length (rsp_data r1 @ rsp_data r2) + 2 \<le> APDU_MAX_RSP_SIZE) \<and>
      (if ret = APDU_OK
       then apdu_rsp_wf r \<and> rsp_data r = rsp_data r1 @ rsp_data r2 \<and>
            APDU_Rsp_SW1 r = APDU_Rsp_SW1 r2 \<and> APDU_Rsp_SW2 r = APDU_Rsp_SW2 r2
       else r = r1)"
  using rsp_of_bytes [of "rsp_data r1 @ rsp_data r2"]
  by (simp add: AppendData_eq [OF assms] Let_def)

end
