(* ===== verification/ProtocolBase.thy ===== *)
theory ProtocolBase
  imports IccAsync Apdu
begin

text \<open>
  What the protocol layers share: the result of code that may read or write outside its
  arrays or may run forever, rules to reason about it, the parameters of
  \<^verbatim>\<open>src/src/driver/pps.h\<close>, and the reception of bytes from a card into an array.
\<close>

section \<open>Outcomes\<close>

text \<open>
  \<open>Returns\<close> is a return of the function, \<open>Faults\<close> an access outside an array, to a
  \<open>NULL\<close> pointer or to freed memory, and \<open>Runs_on\<close> that the fuel given to the loops of
  the function did not suffice.
\<close>

datatype 'a outcome = Returns 'a | Faults | Runs_on

definition out_bind :: "('s, 'a outcome) state \<Rightarrow> ('a \<Rightarrow> ('s, 'b outcome) state) \<Rightarrow> ('s, 'b outcome) state" where
  "out_bind m f = do {
     r \<leftarrow> m;
     case r of Returns a \<Rightarrow> f a | Faults \<Rightarrow> State_Monad.return Faults | Runs_on \<Rightarrow> State_Monad.return Runs_on }"

definition out_return :: "'a \<Rightarrow> ('s, 'a outcome) state" where
  "out_return a = State_Monad.return (Returns a)"

definition out_fault :: "('s, 'a outcome) state" where
  "out_fault = State_Monad.return Faults"

text \<open>A computation that always returns, and one whose \<open>None\<close> is a fault.\<close>

definition out_lift :: "('s, 'a) state \<Rightarrow> ('s, 'a outcome) state" where
  "out_lift m = do { a \<leftarrow> m; State_Monad.return (Returns a) }"

fun out_of :: "'a option \<Rightarrow> 'a outcome" where
  "out_of None = Faults"
| "out_of (Some a) = Returns a"

definition out_check :: "('s, 'a option) state \<Rightarrow> ('s, 'a outcome) state" where
  "out_check m = do { r \<leftarrow> m; State_Monad.return (out_of r) }"

lemma run_out_bind [simp]:
  "run_state (out_bind m f) s =
     (case run_state m s of (Returns a, s') \<Rightarrow> run_state (f a) s' | (Faults, s') \<Rightarrow> (Faults, s') | (Runs_on, s') \<Rightarrow> (Runs_on, s'))"
  by (simp add: out_bind_def split: prod.split outcome.split)

lemma run_out_return [simp]: "run_state (out_return a) s = (Returns a, s)"
  by (simp add: out_return_def)

lemma run_out_fault [simp]: "run_state out_fault s = (Faults, s)"
  by (simp add: out_fault_def)

lemma run_out_lift [simp]: "run_state (out_lift m) s = (case run_state m s of (a, s') \<Rightarrow> (Returns a, s'))"
  by (simp add: out_lift_def split: prod.split)

lemma run_out_check [simp]: "run_state (out_check m) s = (case run_state m s of (r, s') \<Rightarrow> (out_of r, s'))"
  by (simp add: out_check_def split: prod.split)

text \<open>
  \<open>yields P m Q\<close>: started where \<open>P\<close> holds, \<open>m\<close> does not fault, and what it
  returns satisfies \<open>Q\<close>.  With \<open>ends P m\<close>, that it does return, this is total
  correctness.
\<close>

definition yields :: "('s \<Rightarrow> bool) \<Rightarrow> ('s, 'a outcome) state \<Rightarrow> ('a \<Rightarrow> 's \<Rightarrow> bool) \<Rightarrow> bool" where
  "yields P m Q \<longleftrightarrow> valid P m (\<lambda>r s. r \<noteq> Faults \<and> (\<forall>a. r = Returns a \<longrightarrow> Q a s))"

definition ends :: "('s, 'a outcome) state \<Rightarrow> bool" where
  "ends m \<longleftrightarrow> (\<forall>s. fst (run_state m s) \<noteq> Runs_on)"

lemma yieldsD:
  "yields P m Q \<Longrightarrow> P s \<Longrightarrow> run_state m s = (r, s') \<Longrightarrow> r \<noteq> Faults \<and> (\<forall>a. r = Returns a \<longrightarrow> Q a s')"
  unfolding yields_def by (erule (2) validD)

lemma yieldsI:
  "(\<And>s r s'. P s \<Longrightarrow> run_state m s = (r, s') \<Longrightarrow> r \<noteq> Faults \<and> (\<forall>a. r = Returns a \<longrightarrow> Q a s')) \<Longrightarrow> yields P m Q"
  unfolding yields_def by (rule validI)

lemma yields_conseq: "yields P m Q \<Longrightarrow> (\<And>s. P' s \<Longrightarrow> P s) \<Longrightarrow> (\<And>a s. Q a s \<Longrightarrow> Q' a s) \<Longrightarrow> yields P' m Q'"
  unfolding yields_def by (erule valid_conseq) auto

lemma yields_bind: "yields P m R \<Longrightarrow> (\<And>a. yields (R a) (f a) Q) \<Longrightarrow> yields P (out_bind m f) Q"
  by (rule yieldsI) (fastforce dest: yieldsD split: prod.splits outcome.splits)

lemma yields_return [vcg]: "(\<And>s. P s \<Longrightarrow> Q a s) \<Longrightarrow> yields P (out_return a) Q"
  by (simp add: yields_def valid_def)

lemma yields_lift: "valid P m Q \<Longrightarrow> yields P (out_lift m) Q"
  by (auto simp: yields_def valid_def split: prod.splits)

lemma yields_if [vcg]: "(c \<Longrightarrow> yields P m Q) \<Longrightarrow> (\<not> c \<Longrightarrow> yields P n Q) \<Longrightarrow> yields P (if c then m else n) Q"
  by simp

lemma yields_pure: "(\<And>s. P s \<Longrightarrow> C) \<Longrightarrow> (C \<Longrightarrow> yields P m Q) \<Longrightarrow> yields P m Q"
  by (auto simp: yields_def valid_def)

text \<open>Most steps need no assertion on the state, only on what they return.\<close>

abbreviation gives :: "('s, 'a outcome) state \<Rightarrow> ('a \<Rightarrow> bool) \<Rightarrow> bool" where
  "gives m Q \<equiv> yields (\<lambda>_. True) m (\<lambda>a _. Q a)"

lemma gives_bind: "gives m R \<Longrightarrow> (\<And>a. R a \<Longrightarrow> gives (f a) Q) \<Longrightarrow> gives (out_bind m f) Q"
  by (rule yields_bind, assumption, rule yields_pure) (auto elim: yields_conseq)

lemma out_bind_cong_gives: "gives m R \<Longrightarrow> (\<And>a. R a \<Longrightarrow> f a = g a) \<Longrightarrow> out_bind m f = out_bind m g"
  by (rule state.expand, rule ext) (auto split: prod.split outcome.split dest!: yieldsD)

lemma gives_lift: "gives (out_lift m) (\<lambda>_. True)"
  by (rule yields_lift) (simp add: valid_def)

lemma gives_conseq: "gives m Q \<Longrightarrow> (\<And>a. Q a \<Longrightarrow> Q' a) \<Longrightarrow> gives m Q'"
  by (erule yields_conseq) auto

text \<open>
  \<open>gives_or R m Q\<close> allows faults, in states where \<open>R\<close> holds: the state in
  which the program stops.
\<close>

definition yields_or :: "('s \<Rightarrow> bool) \<Rightarrow> ('s \<Rightarrow> bool) \<Rightarrow> ('s, 'a outcome) state \<Rightarrow> ('a \<Rightarrow> 's \<Rightarrow> bool) \<Rightarrow> bool" where
  "yields_or R P m Q \<longleftrightarrow> valid P m (\<lambda>r s. (r = Faults \<longrightarrow> R s) \<and> (\<forall>a. r = Returns a \<longrightarrow> Q a s))"

abbreviation gives_or :: "('s \<Rightarrow> bool) \<Rightarrow> ('s, 'a outcome) state \<Rightarrow> ('a \<Rightarrow> bool) \<Rightarrow> bool" where
  "gives_or R m Q \<equiv> yields_or R (\<lambda>_. True) m (\<lambda>a _. Q a)"

lemma yields_orD:
  "yields_or R P m Q \<Longrightarrow> P s \<Longrightarrow> run_state m s = (r, s') \<Longrightarrow> (r = Faults \<longrightarrow> R s') \<and> (\<forall>a. r = Returns a \<longrightarrow> Q a s')"
  unfolding yields_or_def by (erule (2) validD)

lemma yields_or_bind: "yields_or R P m T \<Longrightarrow> (\<And>a. yields_or R (T a) (f a) Q) \<Longrightarrow> yields_or R P (out_bind m f) Q"
  unfolding yields_or_def [of R P "out_bind m f"]
  by (rule validI) (fastforce dest: yields_orD split: prod.splits outcome.splits)

lemma yields_yields_or: "yields P m Q \<Longrightarrow> yields_or R P m Q"
  unfolding yields_def yields_or_def by (erule valid_conseq) auto

lemma yields_or_return: "(\<And>s. P s \<Longrightarrow> Q a s) \<Longrightarrow> yields_or R P (out_return a) Q"
  and yields_or_fault: "(\<And>s. P s \<Longrightarrow> R s) \<Longrightarrow> yields_or R P out_fault Q"
  and yields_or_if: "(c \<Longrightarrow> yields_or R P m Q) \<Longrightarrow> (\<not> c \<Longrightarrow> yields_or R P n Q) \<Longrightarrow> yields_or R P (if c then m else n) Q"
  and yields_or_pure: "(\<And>s. P s \<Longrightarrow> C) \<Longrightarrow> (C \<Longrightarrow> yields_or R P m Q) \<Longrightarrow> yields_or R P m Q"
  by (auto simp: yields_or_def valid_def)

lemma yields_or_conseq: "yields_or R P m Q \<Longrightarrow> (\<And>s. P' s \<Longrightarrow> P s) \<Longrightarrow> (\<And>a s. Q a s \<Longrightarrow> Q' a s) \<Longrightarrow> yields_or R P' m Q'"
  unfolding yields_or_def by (erule valid_conseq) auto

lemma gives_or_bind:
  assumes "gives m T" "\<And>a. T a \<Longrightarrow> gives_or R (f a) Q"
  shows "yields_or R P (out_bind m f) (\<lambda>a _. Q a)"
proof (rule yields_or_bind [OF yields_yields_or])
  show "yields P m (\<lambda>a _. T a)" by (rule yields_conseq [OF assms(1)]) auto
  show "yields_or R (\<lambda>_. T a) (f a) (\<lambda>a _. Q a)" for a
    by (rule yields_or_pure [where C = "T a"]) (auto intro: yields_or_conseq [OF assms(2)])
qed

text \<open>
  \<open>returns_unless F P m Q\<close>: started where \<open>P\<close> holds, \<open>m\<close> ends, and returns with
  \<open>Q\<close>, or else the condition \<open>F\<close>, under which it may fault, holds.
\<close>

definition returns_unless :: "bool \<Rightarrow> ('s \<Rightarrow> bool) \<Rightarrow> ('s, 'a outcome) state \<Rightarrow> ('a \<Rightarrow> 's \<Rightarrow> bool) \<Rightarrow> bool" where
  "returns_unless F P m Q \<longleftrightarrow> valid P m (\<lambda>r s. (\<exists>a. r = Returns a \<and> Q a s) \<or> (r = Faults \<and> F))"

abbreviation returns :: "('s \<Rightarrow> bool) \<Rightarrow> ('s, 'a outcome) state \<Rightarrow> ('a \<Rightarrow> 's \<Rightarrow> bool) \<Rightarrow> bool" where
  "returns \<equiv> returns_unless False"

lemma returns_unlessD:
  "returns_unless F P m Q \<Longrightarrow> P s \<Longrightarrow> run_state m s = (r, s') \<Longrightarrow> (\<exists>a. r = Returns a \<and> Q a s') \<or> (r = Faults \<and> F)"
  unfolding returns_unless_def by (erule (2) validD)

lemma returnsD: "returns P m Q \<Longrightarrow> P s \<Longrightarrow> \<exists>a s'. run_state m s = (Returns a, s') \<and> Q a s'"
  by (cases "run_state m s") (auto dest: returns_unlessD)

lemma returns_return: "(\<And>s. P s \<Longrightarrow> Q a s) \<Longrightarrow> returns_unless F P (out_return a) Q"
  and returns_fault: "F \<Longrightarrow> returns_unless F P out_fault Q"
  and returns_if: "(c \<Longrightarrow> returns_unless F P m Q) \<Longrightarrow> (\<not> c \<Longrightarrow> returns_unless F P n Q) \<Longrightarrow> returns_unless F P (if c then m else n) Q"
  and returns_pure: "(\<And>s. P s \<Longrightarrow> C) \<Longrightarrow> (C \<Longrightarrow> returns_unless F P m Q) \<Longrightarrow> returns_unless F P m Q"
  by (auto simp: returns_unless_def valid_def split: prod.splits)

lemma returns_lift: "valid P m Q \<Longrightarrow> returns_unless F P (out_lift m) Q"
  by (auto simp: returns_unless_def valid_def split: prod.splits)

lemma returns_bind:
  assumes "returns_unless F P m R" "\<And>a. returns_unless F (R a) (f a) Q" shows "returns_unless F P (out_bind m f) Q"
  unfolding returns_unless_def
proof (rule validI)
  fix s r s2 assume P: "P s" and "run_state (out_bind m f) s = (r, s2)"
  then obtain r1 s1 where m: "run_state m s = (r1, s1)" and
    f: "case r1 of Returns a \<Rightarrow> run_state (f a) s1 = (r, s2) | Faults \<Rightarrow> r = Faults | Runs_on \<Rightarrow> True"
    by (auto split: prod.splits outcome.splits)
  from returns_unlessD [OF assms(1) P m] show "(\<exists>a. r = Returns a \<and> Q a s2) \<or> (r = Faults \<and> F)"
  proof
    assume "\<exists>a. r1 = Returns a \<and> R a s1"
    then show ?thesis using f by (elim exE conjE) (simp add: returns_unlessD [OF assms(2)])
  qed (use f in simp)
qed

lemma returns_conseq: "returns_unless F P m Q \<Longrightarrow> (\<And>s. P' s \<Longrightarrow> P s) \<Longrightarrow> (\<And>a s. Q a s \<Longrightarrow> Q' a s) \<Longrightarrow> returns_unless F P' m Q'"
  unfolding returns_unless_def by (erule valid_conseq) auto

text \<open>Binding after a step that keeps an invariant of the state and says something of its result.\<close>

lemma returns_lift_bind:
  assumes "valid I m (\<lambda>a s. I s \<and> C a)" "\<And>a. C a \<Longrightarrow> returns_unless F I (f a) Q"
  shows "returns_unless F I (out_bind (out_lift m) f) Q"
  by (rule returns_bind [OF returns_lift [OF assms(1)]], rule returns_pure) (auto intro: returns_conseq [OF assms(2)])

lemma ends_return [vcg]: "ends (out_return a)"
  and ends_fault [vcg]: "ends out_fault"
  and ends_lift [vcg]: "ends (out_lift m)"
  by (simp_all add: ends_def split: prod.split)

lemma out_of_neq [simp]: "out_of r \<noteq> Runs_on"
  by (cases r) simp_all

lemma ends_check [vcg]: "ends (out_check m)"
  by (simp add: ends_def split: prod.split)

lemma ends_bind [vcg]: "ends m \<Longrightarrow> (\<And>a. ends (f a)) \<Longrightarrow> ends (out_bind m f)"
  by (simp add: ends_def split: prod.split outcome.split) (metis fst_conv)

lemma gives_ends_bind: "gives m R \<Longrightarrow> ends m \<Longrightarrow> (\<And>a. R a \<Longrightarrow> ends (f a)) \<Longrightarrow> ends (out_bind m f)"
  unfolding ends_def by (auto split: prod.split outcome.split dest!: yieldsD) (metis fst_conv)+

lemma ends_run [vcg]: "(\<And>a. ends (f a)) \<Longrightarrow> ends (State_Monad.bind m f)"
  by (simp add: ends_def split: prod.split)

lemma ends_case_sum [vcg]: "(\<And>a. ends (f a)) \<Longrightarrow> (\<And>b. ends (g b)) \<Longrightarrow> ends (case x of Inl a \<Rightarrow> f a | Inr b \<Rightarrow> g b)"
  by (cases x) simp_all

lemma ends_if [vcg]: "(c \<Longrightarrow> ends m) \<Longrightarrow> (\<not> c \<Longrightarrow> ends n) \<Longrightarrow> ends (if c then m else n)"
  by simp

lemma ends_case_option [vcg]: "ends m \<Longrightarrow> (\<And>a. ends (f a)) \<Longrightarrow> ends (case x of None \<Rightarrow> m | Some a \<Rightarrow> f a)"
  by (cases x) simp_all

section \<open>Protocol parameters\<close>

text \<open>
  The structure of \<^verbatim>\<open>pps.h\<close>.  Its \<open>double\<close>s are the exact values of the tables;
  the arithmetic of the protocols on them takes the rounding to \<open>double\<close> as an argument.
\<close>

record PPS_ProtocolParameters =
  pps_f :: rat
  pps_d :: rat
  pps_n :: rat
  pps_t :: byte

section \<open>Receiving into an array\<close>

text \<open>
  \<open>ICC_Async_Receive (icc, n, buffer + off)\<close>: \<open>None\<close> when it does not return
  \<open>ICC_ASYNC_OK\<close>, a fault when the requested or the received bytes do not fit the array.
\<close>

definition icc_receive :: "'d os \<Rightarrow> ICC_Async \<Rightarrow> nat \<Rightarrow> byte list \<Rightarrow> nat \<Rightarrow> ('d, byte list option outcome) io" where
  "icc_receive os icc n buffer off =
     (if off + n > length buffer then out_fault else do {
        r \<leftarrow> ICC_Async_Receive os icc n;
        case r of
          Inl _ \<Rightarrow> out_return None
        | Inr bs \<Rightarrow> (case memcpy_at buffer off bs of None \<Rightarrow> out_fault | Some b \<Rightarrow> out_return (Some b)) })"

definition icc_equal_timeouts :: "ICC_Async \<Rightarrow> bool" where
  "icc_equal_timeouts icc \<longleftrightarrow> icc_block_timeout (timings icc) = icc_char_timeout (timings icc)"

lemma gives_icc_receive:
  assumes "0 < n \<or> icc_equal_timeouts icc" "off + n \<le> length buffer"
  shows "gives (icc_receive os icc n buffer off)
    (\<lambda>r. \<forall>b. r = Some b \<longrightarrow> length b = length buffer \<and> take off b = take off buffer)"
proof (rule yieldsI, goal_cases)
  case (1 s r s')
  obtain x s1 where x: "run_state (ICC_Async_Receive os icc n) s = (x, s1)" by fastforce
  show ?case
  proof (cases x)
    case (Inr bs)
    then have "length bs = n" using ICC_Async_Receive_length [of os icc n s bs s1] x assms(1)
      by (simp add: icc_equal_timeouts_def)
    then show ?thesis using 1 x Inr assms(2) by (auto simp: icc_receive_def memcpy_at_def)
  qed (use 1 x assms(2) in \<open>auto simp: icc_receive_def\<close>)
qed

lemma ends_icc_receive [vcg]: "ends (icc_receive os icc n buffer off)"
  unfolding icc_receive_def by (intro vcg)

section \<open>Sending from an array\<close>

text \<open>Blocks of at most 255 bytes are never read beyond their end, whatever the line does.\<close>

lemma transmit_data_in_bounds:
  "sent + n \<le> length buffer \<Longrightarrow> run_state (transmit_data os bd cd buffer sent n) p = (r, p') \<Longrightarrow> r \<noteq> None"
  by (auto simp: transmit_data_def bytes_at_def split: prod.splits if_splits)

lemma IFD_Towitoko_Transmit_in_bounds:
  assumes "length buffer \<le> 255" "run_state (IFD_Towitoko_Transmit os ifd t buffer) p = (r, p')"
  shows "r \<noteq> None"
proof -
  have m: "length buffer = min (length buffer) IFD_TOWITOKO_MAX_TRANSMIT" using assms(1) by (simp add: IFD_TOWITOKO_MAX_TRANSMIT_def)
  have "run_state (transmit_loop os ifd s bd cd h buffer 0) p1 = (x, p2) \<Longrightarrow> x \<noteq> None" for s bd cd h p1 x p2
  proof (cases "buffer = []")
    case False
    then have pos: "0 < length buffer" by simp
    show "run_state (transmit_loop os ifd s bd cd h buffer 0) p1 = (x, p2) \<Longrightarrow> x \<noteq> None"
      unfolding transmit_loop_turn [OF pos m]
      by (auto simp: transmit_loop_end split: prod.splits if_splits option.splits bool.splits dest!: transmit_data_in_bounds [rotated])
  qed (auto simp: transmit_loop_end)
  then show ?thesis using assms(2) unfolding IFD_Towitoko_Transmit_def
    by (auto split: prod.splits if_splits option.splits)
qed

lemma gives_Transmit: "length bs \<le> 255 \<Longrightarrow> gives (out_check (ICC_Async_Transmit os icc bs)) (\<lambda>_. True)"
  by (rule yieldsI)
     (auto simp: ICC_Async_Transmit_def Let_def split: prod.splits option.splits if_splits dest: IFD_Towitoko_Transmit_in_bounds [rotated])

text \<open>Reception from the scripted line.\<close>

lemma script_Receive:
  assumes "icc_ifd icc = Some ifd" "ifd_type ifd \<noteq> IFD_TOWITOKO_KARTENZWERG" "convention icc = ATR_CONVENTION_DIRECT"
    "0 < n \<or> icc_equal_timeouts icc" "n \<le> length (sc_rx (p_dev p))"
  shows "run_state (ICC_Async_Receive script_os icc n) p =
           (Inr (take n (sc_rx (p_dev p))), set_rx (drop n (sc_rx (p_dev p))) p)"
proof (cases "icc_equal_timeouts icc")
  case True
  then show ?thesis using assms by (simp add: ICC_Async_Receive_def IFD_Towitoko_Receive_def icc_equal_timeouts_def)
next
  case False
  then obtain m where "n = Suc m" using assms(4) by (cases n) auto
  moreover obtain b bs where "sc_rx (p_dev p) = b # bs" using assms(5) calculation by (cases "sc_rx (p_dev p)") auto
  ultimately show ?thesis
    using False assms by (simp add: ICC_Async_Receive_def IFD_Towitoko_Receive_def icc_equal_timeouts_def)
qed

end
