(* ===== verification/ProtocolT0.thy ===== *)
theory ProtocolT0
  imports ProtocolBase
begin

text \<open>
  The character protocol T=0, \<^verbatim>\<open>src/src/driver/protocol_t0.c\<close>: the exchange of one
  TPDU with its loop over procedure bytes, and the mapping of the seven cases of command
  APDUs onto TPDUs.  Two configuration macros are arguments: \<open>iso7816\<close> for
  \<open>PROTOCOL_T0_ISO\<close>, and \<open>PROTOCOL_T0_USE_DEFAULT_TIMINGS\<close> is not set.
\<close>

section \<open>Constants and the handler\<close>

definition PROTOCOL_T0_MAX_NULLS :: nat where "PROTOCOL_T0_MAX_NULLS = 200"
definition PROTOCOL_T0_DEFAULT_WI :: byte where "PROTOCOL_T0_DEFAULT_WI = 10"
definition PROTOCOL_T0_MAX_SHORT_COMMAND :: nat where "PROTOCOL_T0_MAX_SHORT_COMMAND = 260"
definition PROTOCOL_T0_MAX_SHORT_RESPONSE :: nat where "PROTOCOL_T0_MAX_SHORT_RESPONSE = 258"

datatype t0_ret =
    PROTOCOL_T0_OK | PROTOCOL_T0_NULL_ERROR | PROTOCOL_T0_ICC_ERROR | PROTOCOL_T0_IFD_ERROR | PROTOCOL_T0_ERROR

text \<open>The card the handler points to is part of it: only the handler uses it meanwhile.\<close>

record Protocol_T0 =
  t0_icc :: "ICC_Async option"
  wwt :: nat

definition Protocol_T0_Clear :: Protocol_T0 where
  "Protocol_T0_Clear = \<lparr>t0_icc = None, wwt = 0\<rparr>"

definition Protocol_T0_New :: Protocol_T0 where
  "Protocol_T0_New = Protocol_T0_Clear"

text \<open>
  \<open>fl\<close> rounds to \<open>double\<close>; the conversion to an integer truncates.  The new timings
  are stored in the card, whose fields have 32 bits.
\<close>

definition Protocol_T0_Init :: "(rat \<Rightarrow> rat) \<Rightarrow> ICC_Async \<Rightarrow> PPS_ProtocolParameters \<Rightarrow> t0_ret \<times> Protocol_T0" where
  "Protocol_T0_Init fl icc params =
     (let wi = (case ATR_GetInterfaceByte (the (ICC_Async_GetAtr icc)) 2 ATR_INTERFACE_BYTE_TC of
                  Inl _ \<Rightarrow> PROTOCOL_T0_DEFAULT_WI | Inr b \<Rightarrow> b);
          w = nat \<lfloor>fl (fl (of_nat (960 * unat wi) * fl (pps_f params / of_nat (ICC_Async_GetClockRate icc))) * 1000)\<rfloor>;
          t = snd (ICC_Async_GetTimings icc);
          t' = t\<lparr>icc_block_timeout := uint32 w, icc_char_timeout := uint32 w\<rparr>
      in (PROTOCOL_T0_OK, \<lparr>t0_icc = Some (snd (ICC_Async_SetTimings icc t')), wwt = w\<rparr>))"

definition Protocol_T0_Close :: "Protocol_T0 \<Rightarrow> t0_ret \<times> Protocol_T0" where
  "Protocol_T0_Close t0 = (PROTOCOL_T0_OK, Protocol_T0_Clear)"

section \<open>Exchange of a TPDU\<close>

text \<open>What a function leaves in \<open>*rsp\<close>: nothing, \<open>NULL\<close> or a new response.\<close>

datatype t0_rsp = T0_Unset | T0_Null | T0_Rsp APDU_Rsp

text \<open>
  The local variables of the loop over procedure bytes, and what a turn does: leave the
  loop, leave the function, or go on.
\<close>

record t0_vars =
  t0_buffer :: "byte list"
  recv :: nat
  sent :: nat
  nulls :: nat

datatype t0_step = T0_Break t0_ret t0_vars | T0_Return t0_ret | T0_Continue t0_vars

text \<open>The status byte SW1 has been received: read SW2.\<close>

definition t0_status :: "'d os \<Rightarrow> ICC_Async \<Rightarrow> t0_vars \<Rightarrow> ('d, t0_step outcome) io" where
  "t0_status os icc v =
     (let v1 = v\<lparr>recv := recv v + 1\<rparr>
      in if recv v1 \<ge> PROTOCOL_T0_MAX_SHORT_RESPONSE then out_return (T0_Return PROTOCOL_T0_ERROR)
         else out_bind (icc_receive os icc 1 (t0_buffer v1) (recv v1)) (\<lambda>r. out_return (case r of
           None \<Rightarrow> T0_Break PROTOCOL_T0_ICC_ERROR v1
         | Some b \<Rightarrow> T0_Break PROTOCOL_T0_OK (v1\<lparr>t0_buffer := b, recv := recv v1 + 1\<rparr>))))"

text \<open>
  A procedure byte asks for \<open>n\<close> bytes of the command data, from \<open>data + sent\<close> on.
\<close>

definition t0_send :: "'d os \<Rightarrow> ICC_Async \<Rightarrow> APDU_Cmd \<Rightarrow> nat \<Rightarrow> t0_vars \<Rightarrow> ('d, t0_step outcome) io" where
  "t0_send os icc cmd n v =
     (if sent v \<ge> APDU_Cmd_Lc cmd then out_return (T0_Return PROTOCOL_T0_ERROR)
      else out_bind (out_lift (ICC_Async_Switch os icc)) (\<lambda>sw.
        if sw \<noteq> ICC_ASYNC_OK then out_return (T0_Break PROTOCOL_T0_ICC_ERROR v)
        else (case Option.bind (APDU_Cmd_Data cmd) (\<lambda>data. bytes_at data (sent v) n) of
          None \<Rightarrow> out_fault
        | Some bs \<Rightarrow> out_bind (out_check (ICC_Async_Transmit os icc bs)) (\<lambda>r.
            out_return (if r \<noteq> ICC_ASYNC_OK then T0_Break PROTOCOL_T0_ICC_ERROR v
                        else T0_Continue (v\<lparr>sent := sent v + n\<rparr>))))))"

text \<open>
  A procedure byte announces \<open>n\<close> bytes of response data; \<open>recv'\<close> is the new value of
  \<open>recv\<close>.
\<close>

definition t0_take :: "'d os \<Rightarrow> ICC_Async \<Rightarrow> nat \<Rightarrow> nat \<Rightarrow> t0_vars \<Rightarrow> ('d, t0_step outcome) io" where
  "t0_take os icc n recv' v =
     (if recv v \<ge> PROTOCOL_T0_MAX_SHORT_RESPONSE then out_return (T0_Return PROTOCOL_T0_ERROR)
      else out_bind (icc_receive os icc n (t0_buffer v) (recv v)) (\<lambda>r. out_return (case r of
        None \<Rightarrow> T0_Break PROTOCOL_T0_ICC_ERROR v
      | Some b \<Rightarrow> T0_Continue (v\<lparr>t0_buffer := b, recv := recv'\<rparr>))))"

definition t0_turn :: "'d os \<Rightarrow> ICC_Async \<Rightarrow> APDU_Cmd \<Rightarrow> t0_vars \<Rightarrow> ('d, t0_step outcome) io" where
  "t0_turn os icc cmd v =
     out_bind (icc_receive os icc 1 (t0_buffer v) (recv v)) (\<lambda>r. case r of
       None \<Rightarrow> out_return (T0_Break PROTOCOL_T0_ICC_ERROR v)
     | Some buffer \<Rightarrow>
         let v1 = v\<lparr>t0_buffer := buffer\<rparr>; b = buffer ! recv v; ins = APDU_Cmd_Ins cmd
         in if b = 0x60 then
              let v2 = v1\<lparr>nulls := nulls v1 + 1\<rparr>
              in out_return (if nulls v2 \<ge> PROTOCOL_T0_MAX_NULLS then T0_Break PROTOCOL_T0_NULL_ERROR v2
                             else T0_Continue v2)
            else if b AND 0xF0 = 0x60 \<or> b AND 0xF0 = 0x90 then t0_status os icc v1
            else if b AND 0x0E = ins AND 0x0E then
              let v2 = v1\<lparr>nulls := 0\<rparr>
              in if APDU_Cmd_Case cmd = APDU_CASE_2S then t0_send os icc cmd (APDU_Cmd_Lc cmd - sent v2) v2
                 else t0_take os icc (APDU_Cmd_Le cmd - recv v2) (APDU_Cmd_Le cmd) v2
            else if b AND 0x0E = NOT ins AND 0x0E then
              let v2 = v1\<lparr>nulls := 0\<rparr>
              in if APDU_Cmd_Case cmd = APDU_CASE_2S then t0_send os icc cmd 1 v2
                 else t0_take os icc 1 (recv v2 + 1) v2
            else out_return (T0_Break PROTOCOL_T0_ERROR v1))"

fun t0_loop :: "nat \<Rightarrow> 'd os \<Rightarrow> ICC_Async \<Rightarrow> APDU_Cmd \<Rightarrow> t0_vars \<Rightarrow> ('d, t0_step outcome) io" where
  "t0_loop 0 os icc cmd v = State_Monad.return Runs_on"
| "t0_loop (Suc fuel) os icc cmd v =
     (if recv v < PROTOCOL_T0_MAX_SHORT_RESPONSE
      then out_bind (t0_turn os icc cmd v) (\<lambda>st. case st of
        T0_Continue v' \<Rightarrow> t0_loop fuel os icc cmd v'
      | _ \<Rightarrow> out_return st)
      else out_return (T0_Break PROTOCOL_T0_OK v))"

text \<open>
  The end of the exchange.  \<open>APDU_Rsp_New\<close> yields \<open>NULL\<close> for less than two bytes.
\<close>

definition t0_finish :: "'d os \<Rightarrow> ICC_Async \<Rightarrow> t0_ret \<Rightarrow> t0_vars \<Rightarrow> ('d, (t0_ret \<times> t0_rsp) outcome) io" where
  "t0_finish os icc ret v = do {
     sw \<leftarrow> ICC_Async_Switch os icc;
     let ret' = (if sw \<noteq> ICC_ASYNC_OK then PROTOCOL_T0_ICC_ERROR else ret);
     let rsp = (if ret' = PROTOCOL_T0_OK
                then (case APDU_Rsp_New (t0_buffer v) (recv v) of None \<Rightarrow> T0_Null | Some r \<Rightarrow> T0_Rsp r) else T0_Null);
     e \<leftarrow> ICC_Async_EndTransmission os icc;
     out_return (if e \<noteq> ICC_ASYNC_OK then PROTOCOL_T0_ICC_ERROR else ret', rsp) }"

text \<open>\<open>stack\<close> is what the uninitialised receive buffer holds at first.\<close>

definition Protocol_T0_ExchangeTPDU ::
    "nat \<Rightarrow> 'd os \<Rightarrow> byte list \<Rightarrow> Protocol_T0 \<Rightarrow> APDU_Cmd \<Rightarrow> ('d, (t0_ret \<times> t0_rsp) outcome) io" where
  "Protocol_T0_ExchangeTPDU fuel os stack t0 cmd =
     (let icc = the (t0_icc t0)
      in if APDU_Cmd_Case cmd \<noteq> APDU_CASE_2S \<and> APDU_Cmd_Case cmd \<noteq> APDU_CASE_3S
         then out_return (PROTOCOL_T0_ERROR, T0_Unset)
         else out_bind (out_lift (ICC_Async_BeginTransmission os icc)) (\<lambda>b.
           if b \<noteq> ICC_ASYNC_OK then out_return (PROTOCOL_T0_ICC_ERROR, T0_Null)
           else (case bytes_at (APDU_Cmd_Header cmd) 0 5 of
             None \<Rightarrow> out_fault
           | Some header \<Rightarrow> out_bind (out_check (ICC_Async_Transmit os icc header)) (\<lambda>t.
               if t \<noteq> ICC_ASYNC_OK
               then out_bind (out_lift (ICC_Async_EndTransmission os icc)) (\<lambda>_. out_return (PROTOCOL_T0_ICC_ERROR, T0_Null))
               else out_bind (t0_loop fuel os icc cmd \<lparr>t0_buffer = stack, recv = 0, sent = 0, nulls = 0\<rparr>) (\<lambda>st.
                 case st of
                   T0_Return ret \<Rightarrow> out_return (ret, T0_Unset)
                 | T0_Break ret v \<Rightarrow> t0_finish os icc ret v
                 | T0_Continue _ \<Rightarrow> State_Monad.return Runs_on)))))"

section \<open>Mapping of APDUs onto TPDUs\<close>

text \<open>
  A TPDU built in a local array, sent and deleted; and the use of the response behind a
  pointer, which must not be \<open>NULL\<close>.
\<close>

definition t0_exchange_bytes ::
    "nat \<Rightarrow> 'd os \<Rightarrow> byte list \<Rightarrow> Protocol_T0 \<Rightarrow> byte list \<Rightarrow> ('d, (t0_ret \<times> t0_rsp) outcome) io" where
  "t0_exchange_bytes fuel os stack t0 bytes =
     (case APDU_Cmd_New bytes (length bytes) of
        None \<Rightarrow> out_fault
      | Some tpdu_cmd \<Rightarrow> Protocol_T0_ExchangeTPDU fuel os stack t0 tpdu_cmd)"

definition t0_deref :: "t0_rsp \<Rightarrow> (APDU_Rsp \<Rightarrow> ('s, 'a outcome) state) \<Rightarrow> ('s, 'a outcome) state" where
  "t0_deref rsp f = (case rsp of T0_Rsp r \<Rightarrow> f r | _ \<Rightarrow> out_fault)"

definition t0_trim :: "APDU_Cmd \<Rightarrow> APDU_Rsp \<Rightarrow> APDU_Rsp" where
  "t0_trim cmd r = (if APDU_Rsp_DataLen r > APDU_Cmd_Le cmd then APDU_Rsp_TruncateData r (APDU_Cmd_Le cmd) else r)"

definition Protocol_T0_Case1 ::
    "nat \<Rightarrow> 'd os \<Rightarrow> byte list \<Rightarrow> Protocol_T0 \<Rightarrow> APDU_Cmd \<Rightarrow> ('d, (t0_ret \<times> t0_rsp) outcome) io" where
  "Protocol_T0_Case1 fuel os stack t0 cmd =
     (case bytes_at (APDU_Cmd_Raw cmd) 0 4 of
        None \<Rightarrow> out_fault
      | Some header \<Rightarrow> t0_exchange_bytes fuel os stack t0 (header @ [0x00]))"

definition Protocol_T0_Case2S ::
    "nat \<Rightarrow> 'd os \<Rightarrow> byte list \<Rightarrow> Protocol_T0 \<Rightarrow> APDU_Cmd \<Rightarrow> ('d, (t0_ret \<times> t0_rsp) outcome) io" where
  "Protocol_T0_Case2S fuel os stack t0 cmd = Protocol_T0_ExchangeTPDU fuel os stack t0 cmd"

text \<open>SW1 = 6C: the command is issued again with the length the card indicates.\<close>

definition t0_reissue ::
    "nat \<Rightarrow> 'd os \<Rightarrow> byte list \<Rightarrow> Protocol_T0 \<Rightarrow> APDU_Cmd \<Rightarrow> APDU_Rsp \<Rightarrow> ('d, (t0_ret \<times> t0_rsp) outcome) io" where
  "t0_reissue fuel os stack t0 cmd r =
     (case bytes_at (APDU_Cmd_Raw cmd) 0 4 of
        None \<Rightarrow> out_fault
      | Some header \<Rightarrow> t0_exchange_bytes fuel os stack t0 (header @ [APDU_Rsp_SW2 r]))"

text \<open>
  SW1 = 61: the GET RESPONSE loop.  The loop's condition is tested after the response has
  been deleted, and the next turn reads the length from the deleted response: a fault.
\<close>

definition t0_get_response ::
    "nat \<Rightarrow> 'd os \<Rightarrow> byte list \<Rightarrow> Protocol_T0 \<Rightarrow> APDU_Cmd \<Rightarrow> APDU_Rsp \<Rightarrow> ('d, (t0_ret \<times> t0_rsp) outcome) io" where
  "t0_get_response fuel os stack t0 cmd r =
     out_bind (t0_exchange_bytes fuel os stack t0 [APDU_Cmd_Cla cmd, 0xC0, 0x00, 0x00, APDU_Rsp_SW2 r]) (\<lambda>(ret, rsp).
       if ret \<noteq> PROTOCOL_T0_OK then out_return (ret, T0_Rsp r)
       else t0_deref rsp (\<lambda>r2.
         let (a, r') = APDU_Rsp_AppendData r r2
         in if a \<noteq> APDU_OK then out_return (PROTOCOL_T0_ERROR, T0_Rsp r')
            else if APDU_Rsp_SW1 r' = 0x61 then out_fault
            else out_return (PROTOCOL_T0_OK, T0_Rsp (t0_trim cmd r'))))"

definition Protocol_T0_Case3S ::
    "bool \<Rightarrow> nat \<Rightarrow> 'd os \<Rightarrow> byte list \<Rightarrow> Protocol_T0 \<Rightarrow> APDU_Cmd \<Rightarrow> ('d, (t0_ret \<times> t0_rsp) outcome) io" where
  "Protocol_T0_Case3S iso7816 fuel os stack t0 cmd =
     out_bind (Protocol_T0_ExchangeTPDU fuel os stack t0 cmd) (\<lambda>(ret, tpdu_rsp).
       if ret \<noteq> PROTOCOL_T0_OK then out_return (ret, T0_Unset)
       else if \<not> iso7816 then out_return (ret, tpdu_rsp)
       else t0_deref tpdu_rsp (\<lambda>r.
         if APDU_Rsp_SW1 r = 0x67 then out_return (ret, T0_Rsp r)
         else if APDU_Rsp_SW1 r = 0x6C then
           out_bind (t0_reissue fuel os stack t0 cmd r) (\<lambda>(ret2, rsp2).
             if ret2 = PROTOCOL_T0_OK
             then t0_deref rsp2 (\<lambda>r2. out_return (ret2, T0_Rsp (t0_trim cmd r2)))
             else out_return (ret2, rsp2))
         else if APDU_Rsp_SW1 r = 0x61 then t0_get_response fuel os stack t0 cmd r
         else out_return (ret, T0_Rsp r)))"

text \<open>The length GET RESPONSE asks for after a command of case 4S.\<close>

definition t0_gr_length :: "APDU_Cmd \<Rightarrow> APDU_Rsp \<Rightarrow> byte" where
  "t0_gr_length cmd r =
     (if APDU_Rsp_SW2 r = 0x00 then low_byte (APDU_Cmd_Le cmd)
      else low_byte (min (APDU_Cmd_Le cmd) (unat (APDU_Rsp_SW2 r))))"

definition Protocol_T0_Case4S ::
    "bool \<Rightarrow> nat \<Rightarrow> 'd os \<Rightarrow> byte list \<Rightarrow> Protocol_T0 \<Rightarrow> APDU_Cmd \<Rightarrow> ('d, (t0_ret \<times> t0_rsp) outcome) io" where
  "Protocol_T0_Case4S iso7816 fuel os stack t0 cmd =
     (case bytes_at (APDU_Cmd_Raw cmd) 0 (APDU_Cmd_RawLen cmd - 1) of
        None \<Rightarrow> out_fault
      | Some bytes \<Rightarrow>
          if length bytes > PROTOCOL_T0_MAX_SHORT_COMMAND then out_fault
          else out_bind (t0_exchange_bytes fuel os stack t0 bytes) (\<lambda>(ret, tpdu_rsp).
            if ret \<noteq> PROTOCOL_T0_OK then out_return (ret, T0_Unset)
            else if \<not> iso7816 then out_return (ret, tpdu_rsp)
            else t0_deref tpdu_rsp (\<lambda>r.
              if APDU_Rsp_SW1 r = 0x61 then
                t0_exchange_bytes fuel os stack t0 [APDU_Cmd_Cla cmd, 0xC0, 0x00, 0x00, t0_gr_length cmd r]
              else if APDU_Rsp_SW1 r AND 0xF0 = 0x60 then out_return (ret, T0_Rsp r)
              else (case APDU_Cmd_New [APDU_Cmd_Cla cmd, 0xC0, 0x00, 0x00, low_byte (APDU_Cmd_Le cmd)] 5 of
                None \<Rightarrow> out_fault
              | Some tpdu_cmd \<Rightarrow> Protocol_T0_Case3S iso7816 fuel os stack t0 tpdu_cmd))))"

text \<open>The loop that sends the whole APDU in ENVELOPE commands of up to 255 bytes.\<close>

function t0_envelope ::
    "nat \<Rightarrow> 'd os \<Rightarrow> byte list \<Rightarrow> Protocol_T0 \<Rightarrow> APDU_Cmd \<Rightarrow> nat \<Rightarrow> ('d, (t0_ret \<times> t0_rsp) outcome) io" where
  "t0_envelope fuel os stack t0 cmd i =
     (if i < APDU_Cmd_RawLen cmd then
        let n = min 255 (APDU_Cmd_RawLen cmd - i)
        in case bytes_at (APDU_Cmd_Raw cmd) i n of
             None \<Rightarrow> out_fault
           | Some seg \<Rightarrow>
               out_bind (t0_exchange_bytes fuel os stack t0 ([APDU_Cmd_Cla cmd, 0xC2, 0x00, 0x00, low_byte n] @ seg)) (\<lambda>(ret, tpdu_rsp).
                 if ret \<noteq> PROTOCOL_T0_OK then out_return (ret, T0_Unset)
                 else t0_deref tpdu_rsp (\<lambda>r.
                   if APDU_Rsp_SW1 r = 0x90 \<and> n + i < APDU_Cmd_RawLen cmd
                   then t0_envelope fuel os stack t0 cmd (i + n)
                   else out_return (ret, T0_Rsp r)))
      else out_return (PROTOCOL_T0_OK, T0_Unset))"
  by pat_completeness auto

termination
  by (relation "measure (\<lambda>(fuel, os, stack, t0, cmd, i). APDU_Cmd_RawLen cmd - i)") auto

declare t0_envelope.simps [simp del]

text \<open>A command with extended length but short data, sent as one TPDU.\<close>

definition t0_short_data ::
    "nat \<Rightarrow> 'd os \<Rightarrow> byte list \<Rightarrow> Protocol_T0 \<Rightarrow> APDU_Cmd \<Rightarrow> ('d, (t0_ret \<times> t0_rsp) outcome) io" where
  "t0_short_data fuel os stack t0 cmd =
     (case Option.bind (APDU_Cmd_Data cmd) (\<lambda>data. bytes_at data 0 (APDU_Cmd_Lc cmd)) of
        None \<Rightarrow> out_fault
      | Some data \<Rightarrow> t0_exchange_bytes fuel os stack t0
          ([APDU_Cmd_Cla cmd, APDU_Cmd_Ins cmd, APDU_Cmd_P1 cmd, APDU_Cmd_P2 cmd, low_byte (APDU_Cmd_Lc cmd)] @ data))"

definition Protocol_T0_Case2E ::
    "nat \<Rightarrow> 'd os \<Rightarrow> byte list \<Rightarrow> Protocol_T0 \<Rightarrow> APDU_Cmd \<Rightarrow> ('d, (t0_ret \<times> t0_rsp) outcome) io" where
  "Protocol_T0_Case2E fuel os stack t0 cmd =
     (if APDU_Cmd_Lc cmd < 256 then t0_short_data fuel os stack t0 cmd
      else t0_envelope fuel os stack t0 cmd 0)"

text \<open>
  The GET RESPONSE loop of case 3E.  \<open>Lx\<close> is what the first response indicated; the loop
  ends when enough data has been collected, whatever the later responses say, so it has
  fuel of its own.
\<close>

fun t0_get_responses ::
    "nat \<Rightarrow> nat \<Rightarrow> 'd os \<Rightarrow> byte list \<Rightarrow> Protocol_T0 \<Rightarrow> APDU_Cmd \<Rightarrow> nat \<Rightarrow> APDU_Rsp \<Rightarrow> ('d, (t0_ret \<times> t0_rsp) outcome) io" where
  "t0_get_responses 0 fuel os stack t0 cmd Lx r = State_Monad.return Runs_on"
| "t0_get_responses (Suc turns) fuel os stack t0 cmd Lx r =
     (let Lm = APDU_Cmd_Le cmd - APDU_Rsp_DataLen r
      in if Lm > 0 then
           out_bind (t0_exchange_bytes fuel os stack t0 [APDU_Cmd_Cla cmd, 0xC0, 0x00, 0x00, low_byte (min Lm Lx)]) (\<lambda>(ret, rsp).
             if ret \<noteq> PROTOCOL_T0_OK then out_return (ret, T0_Rsp r)
             else t0_deref rsp (\<lambda>r2.
               let (a, r') = APDU_Rsp_AppendData r r2
               in if a \<noteq> APDU_OK then out_return (PROTOCOL_T0_ERROR, T0_Rsp r')
                  else t0_get_responses turns fuel os stack t0 cmd Lx r'))
         else out_return (PROTOCOL_T0_OK, T0_Rsp r))"

definition Protocol_T0_Case3E ::
    "bool \<Rightarrow> nat \<Rightarrow> 'd os \<Rightarrow> byte list \<Rightarrow> Protocol_T0 \<Rightarrow> APDU_Cmd \<Rightarrow> ('d, (t0_ret \<times> t0_rsp) outcome) io" where
  "Protocol_T0_Case3E iso7816 fuel os stack t0 cmd =
     (let header = [APDU_Cmd_Cla cmd, APDU_Cmd_Ins cmd, APDU_Cmd_P1 cmd, APDU_Cmd_P2 cmd]
      in if APDU_Cmd_Le cmd \<le> 256 then
           (case APDU_Cmd_New (header @ [low_byte (APDU_Cmd_Le cmd)]) 5 of
              None \<Rightarrow> out_fault
            | Some tpdu_cmd \<Rightarrow> Protocol_T0_Case3S iso7816 fuel os stack t0 tpdu_cmd)
         else
           out_bind (t0_exchange_bytes fuel os stack t0 (header @ [0x00])) (\<lambda>(ret, tpdu_rsp).
             if ret \<noteq> PROTOCOL_T0_OK then out_return (ret, T0_Unset)
             else t0_deref tpdu_rsp (\<lambda>r.
               if APDU_Rsp_SW1 r = 0x67 then out_return (ret, T0_Rsp r)
               else if APDU_Rsp_SW1 r = 0x6C then t0_reissue fuel os stack t0 cmd r
               else if APDU_Rsp_SW1 r = 0x61 then
                 t0_get_responses fuel fuel os stack t0 cmd
                   (if APDU_Rsp_SW2 r = 0x00 then 256 else unat (APDU_Rsp_SW2 r)) r
               else out_return (ret, T0_Rsp r))))"

text \<open>The extended GET RESPONSE command of case 4E.\<close>

definition t0_extended_gr ::
    "bool \<Rightarrow> nat \<Rightarrow> 'd os \<Rightarrow> byte list \<Rightarrow> Protocol_T0 \<Rightarrow> byte \<Rightarrow> nat \<Rightarrow> ('d, (t0_ret \<times> t0_rsp) outcome) io" where
  "t0_extended_gr iso7816 fuel os stack t0 cla Le =
     (case APDU_Cmd_New [cla, 0xC0, 0x00, 0x00, 0x00, low_byte (Le div 256), low_byte Le] 7 of
        None \<Rightarrow> out_fault
      | Some gr_cmd \<Rightarrow> Protocol_T0_Case3E iso7816 fuel os stack t0 gr_cmd)"

definition Protocol_T0_Case4E ::
    "bool \<Rightarrow> nat \<Rightarrow> 'd os \<Rightarrow> byte list \<Rightarrow> Protocol_T0 \<Rightarrow> APDU_Cmd \<Rightarrow> ('d, (t0_ret \<times> t0_rsp) outcome) io" where
  "Protocol_T0_Case4E iso7816 fuel os stack t0 cmd =
     out_bind (if APDU_Cmd_Lc cmd < 256 then t0_short_data fuel os stack t0 cmd
               else Protocol_T0_Case2E fuel os stack t0 cmd) (\<lambda>(ret, tpdu_rsp).
       if ret \<noteq> PROTOCOL_T0_OK then out_return (ret, T0_Unset)
       else t0_deref tpdu_rsp (\<lambda>r.
         if APDU_Rsp_SW1 r = 0x61 then
           t0_extended_gr iso7816 fuel os stack t0 (APDU_Cmd_Cla cmd)
             (if APDU_Rsp_SW2 r \<noteq> 0x00 then min (unat (APDU_Rsp_SW2 r)) (APDU_Cmd_Le cmd) else APDU_Cmd_Le cmd)
         else if APDU_Rsp_SW1 r AND 0xF0 = 0x60 then out_return (ret, T0_Rsp r)
         else t0_extended_gr iso7816 fuel os stack t0 (APDU_Cmd_Cla cmd) (APDU_Cmd_Le cmd)))"

definition Protocol_T0_Command ::
    "bool \<Rightarrow> nat \<Rightarrow> 'd os \<Rightarrow> byte list \<Rightarrow> Protocol_T0 \<Rightarrow> APDU_Cmd \<Rightarrow> ('d, (t0_ret \<times> t0_rsp) outcome) io" where
  "Protocol_T0_Command iso7816 fuel os stack t0 cmd =
     (case APDU_Cmd_Case cmd of
        APDU_CASE_1 \<Rightarrow> Protocol_T0_Case1 fuel os stack t0 cmd
      | APDU_CASE_2S \<Rightarrow> Protocol_T0_Case2S fuel os stack t0 cmd
      | APDU_CASE_3S \<Rightarrow> Protocol_T0_Case3S iso7816 fuel os stack t0 cmd
      | APDU_CASE_4S \<Rightarrow> Protocol_T0_Case4S iso7816 fuel os stack t0 cmd
      | APDU_CASE_2E \<Rightarrow> Protocol_T0_Case2E fuel os stack t0 cmd
      | APDU_CASE_3E \<Rightarrow> Protocol_T0_Case3E iso7816 fuel os stack t0 cmd
      | APDU_CASE_4E \<Rightarrow> Protocol_T0_Case4E iso7816 fuel os stack t0 cmd
      | APDU_MALFORMED \<Rightarrow> out_return (PROTOCOL_T0_ERROR, T0_Unset))"

section \<open>The exchange stays inside its arrays\<close>

lemma short_2S:
  assumes "apdu_cmd_wf cmd" "APDU_Cmd_Case cmd = APDU_CASE_2S"
  shows "0 < APDU_Cmd_Lc cmd" "APDU_Cmd_Lc cmd \<le> 255" "5 \<le> length (APDU_Cmd_Header cmd)"
    "\<exists>data. APDU_Cmd_Data cmd = Some data \<and> length data = APDU_Cmd_Lc cmd"
proof -
  let ?B = "unat (command cmd ! 4)"
  have B: "?B \<noteq> 0" "cmd_length cmd = ?B + 5" "length (command cmd) = ?B + 5"
    using assms by (auto simp: APDU_Cmd_Case_def Let_def apdu_cmd_wf_def apdu_sizes split: if_splits)
  have "?B \<le> 255" by simp
  then show "0 < APDU_Cmd_Lc cmd" "APDU_Cmd_Lc cmd \<le> 255" "5 \<le> length (APDU_Cmd_Header cmd)"
    "\<exists>data. APDU_Cmd_Data cmd = Some data \<and> length data = APDU_Cmd_Lc cmd"
    using B assms(2) by (simp_all add: APDU_Cmd_Lc_def APDU_Cmd_Header_def APDU_Cmd_Data_def Let_def)
qed

lemma short_3S:
  assumes "apdu_cmd_wf cmd" "APDU_Cmd_Case cmd = APDU_CASE_3S"
  shows "0 < APDU_Cmd_Le cmd" "APDU_Cmd_Le cmd \<le> 256" "5 \<le> length (APDU_Cmd_Header cmd)"
proof -
  have "length (command cmd) = 5"
    using assms by (auto simp: APDU_Cmd_Case_def Let_def apdu_cmd_wf_def apdu_sizes split: if_splits)
  then show "0 < APDU_Cmd_Le cmd" "APDU_Cmd_Le cmd \<le> 256" "5 \<le> length (APDU_Cmd_Header cmd)"
    using short_le_bounds [of "command cmd ! 4"] assms(2) by (simp_all add: APDU_Cmd_Le_def APDU_Cmd_Header_def Let_def)
qed

definition t0_short :: "APDU_Cmd \<Rightarrow> bool" where
  "t0_short cmd \<longleftrightarrow> apdu_cmd_wf cmd \<and> (APDU_Cmd_Case cmd = APDU_CASE_2S \<or> APDU_Cmd_Case cmd = APDU_CASE_3S)"

text \<open>The invariant of the loop, and what a turn guarantees on each of its exits.\<close>

definition t0_inv :: "APDU_Cmd \<Rightarrow> t0_vars \<Rightarrow> bool" where
  "t0_inv cmd v \<longleftrightarrow>
     length (t0_buffer v) = PROTOCOL_T0_MAX_SHORT_RESPONSE \<and> recv v \<le> PROTOCOL_T0_MAX_SHORT_RESPONSE \<and>
     sent v \<le> APDU_Cmd_Lc cmd \<and> nulls v < PROTOCOL_T0_MAX_NULLS"

fun t0_exit_ok :: "t0_step \<Rightarrow> bool" where
  "t0_exit_ok (T0_Break ret v) \<longleftrightarrow>
     length (t0_buffer v) = PROTOCOL_T0_MAX_SHORT_RESPONSE \<and> recv v \<le> PROTOCOL_T0_MAX_SHORT_RESPONSE \<and>
     (ret = PROTOCOL_T0_OK \<longrightarrow> 2 \<le> recv v)"
| "t0_exit_ok (T0_Return ret) \<longleftrightarrow> ret \<noteq> PROTOCOL_T0_OK"
| "t0_exit_ok (T0_Continue v) \<longleftrightarrow> False"

text \<open>
  While data is sent, every turn that goes on either consumes one of the at most 199
  \<open>NULL\<close> bytes in a row or sends data: the measure decreases.
\<close>

definition t0_measure :: "APDU_Cmd \<Rightarrow> t0_vars \<Rightarrow> nat" where
  "t0_measure cmd v = (APDU_Cmd_Lc cmd - sent v) * PROTOCOL_T0_MAX_NULLS + (PROTOCOL_T0_MAX_NULLS - 1 - nulls v)"

fun t0_step_ok :: "APDU_Cmd \<Rightarrow> nat \<Rightarrow> t0_step \<Rightarrow> bool" where
  "t0_step_ok cmd M (T0_Continue v) \<longleftrightarrow>
     t0_inv cmd v \<and> (APDU_Cmd_Case cmd = APDU_CASE_2S \<longrightarrow> t0_measure cmd v < M)"
| "t0_step_ok cmd M st \<longleftrightarrow> t0_exit_ok st"

lemmas t0_sizes = PROTOCOL_T0_MAX_SHORT_RESPONSE_def PROTOCOL_T0_MAX_NULLS_def PROTOCOL_T0_MAX_SHORT_COMMAND_def

lemma t0_status_ok:
  "icc_equal_timeouts icc \<Longrightarrow> t0_inv cmd v \<Longrightarrow> gives (t0_status os icc v) (t0_step_ok cmd M)"
  unfolding t0_status_def Let_def
  by (intro yields_if gives_bind [OF gives_icc_receive] vcg)
     (auto simp: t0_inv_def t0_sizes split: option.splits)

lemma t0_take_ok:
  assumes "icc_equal_timeouts icc" "t0_inv cmd v" "recv v + n \<le> PROTOCOL_T0_MAX_SHORT_RESPONSE"
    "recv' \<le> PROTOCOL_T0_MAX_SHORT_RESPONSE" "APDU_Cmd_Case cmd \<noteq> APDU_CASE_2S"
  shows "gives (t0_take os icc n recv' v) (t0_step_ok cmd M)"
  unfolding t0_take_def using assms
  by (intro yields_if gives_bind [OF gives_icc_receive] vcg) (auto simp: t0_inv_def t0_sizes split: option.splits)

lemma t0_send_ok:
  assumes "t0_inv cmd v" "apdu_cmd_wf cmd" "APDU_Cmd_Case cmd = APDU_CASE_2S"
    "sent v < APDU_Cmd_Lc cmd \<Longrightarrow> 0 < n \<and> sent v + n \<le> APDU_Cmd_Lc cmd"
    "(APDU_Cmd_Lc cmd - sent v) * PROTOCOL_T0_MAX_NULLS \<le> M"
  shows "gives (t0_send os icc cmd n v) (t0_step_ok cmd M)"
proof -
  obtain data where data: "APDU_Cmd_Data cmd = Some data" "length data = APDU_Cmd_Lc cmd"
    using short_2S [OF assms(2,3)] by blast
  have "t0_step_ok cmd M (T0_Continue (v\<lparr>sent := sent v + n\<rparr>))" if "sent v < APDU_Cmd_Lc cmd"
    using assms(1,4,5) that by (auto simp: t0_inv_def t0_measure_def t0_sizes)
  then have "gives (case Option.bind (APDU_Cmd_Data cmd) (\<lambda>data. bytes_at data (sent v) n) of None \<Rightarrow> out_fault
        | Some bs \<Rightarrow> out_bind (out_check (ICC_Async_Transmit os icc bs)) (\<lambda>r.
            out_return (if r \<noteq> ICC_ASYNC_OK then T0_Break PROTOCOL_T0_ICC_ERROR v else T0_Continue (v\<lparr>sent := sent v + n\<rparr>))))
      (t0_step_ok cmd M)" if "sent v < APDU_Cmd_Lc cmd"
    using data assms(4) [OF that] short_2S(2) [OF assms(2,3)] assms(1) that
    by (auto simp: bytes_at_def t0_inv_def simp del: t0_step_ok.simps(1) intro!: gives_bind [OF gives_Transmit] vcg)
  then show ?thesis
    unfolding t0_send_def using assms(1)
    by (intro yields_if gives_bind [OF gives_lift] vcg) (auto simp: t0_inv_def)
qed

lemma t0_turn_ok:
  assumes "t0_short cmd" "icc_equal_timeouts icc" "t0_inv cmd v" "recv v < PROTOCOL_T0_MAX_SHORT_RESPONSE"
  shows "gives (t0_turn os icc cmd v) (t0_step_ok cmd (t0_measure cmd v))"
proof -
  have wf: "apdu_cmd_wf cmd" and c3: "APDU_Cmd_Case cmd \<noteq> APDU_CASE_2S \<Longrightarrow> APDU_Cmd_Case cmd = APDU_CASE_3S"
    using assms(1) by (auto simp: t0_short_def)
  have inv: "t0_inv cmd (v\<lparr>t0_buffer := b\<rparr>)" "t0_inv cmd (v\<lparr>t0_buffer := b, nulls := 0\<rparr>)"
    if "length b = PROTOCOL_T0_MAX_SHORT_RESPONSE" for b
    using assms(3) that by (auto simp: t0_inv_def t0_sizes)
  show ?thesis
    unfolding t0_turn_def
  proof (rule gives_bind [OF gives_icc_receive], goal_cases)
    case (3 r)
    then show ?case
    proof (cases r)
      case (Some b)
      then have len: "length b = PROTOCOL_T0_MAX_SHORT_RESPONSE" using 3 assms(3) by (simp add: t0_inv_def)
      show ?thesis
        unfolding Some option.case Let_def
        apply (intro yields_if)
        subgoal using inv [OF len] by (auto intro!: yields_return simp: t0_inv_def t0_measure_def)
        subgoal by (rule t0_status_ok [OF assms(2) inv(1) [OF len]])
        subgoal using inv(2) [OF len] wf by (intro t0_send_ok) (auto simp: t0_measure_def)
        subgoal using inv(2) [OF len] short_3S(2) [OF wf c3] assms(2,4) by (intro t0_take_ok) (auto simp: t0_sizes)
        subgoal using inv(2) [OF len] wf by (intro t0_send_ok) (auto simp: t0_measure_def)
        subgoal using inv(2) [OF len] assms(2,4) by (intro t0_take_ok) auto
        subgoal using inv(1) [OF len] by (auto intro!: yields_return simp: t0_inv_def)
        done
    qed (use assms(3) in \<open>auto intro!: yields_return simp: t0_inv_def\<close>)
  qed (use assms(2,3,4) in \<open>auto simp: t0_inv_def\<close>)
qed

lemma t0_loop_ok:
  assumes "t0_short cmd" "icc_equal_timeouts icc" "t0_inv cmd v"
  shows "gives (t0_loop fuel os icc cmd v) t0_exit_ok"
  using assms(3)
proof (induction fuel arbitrary: v)
  case 0
  show ?case by (simp add: yields_def valid_def)
next
  case (Suc fuel)
  show ?case
    unfolding t0_loop.simps
  proof (intro yields_if)
    assume "recv v < PROTOCOL_T0_MAX_SHORT_RESPONSE"
    then show "gives (out_bind (t0_turn os icc cmd v) (\<lambda>st. case st of
        T0_Continue v' \<Rightarrow> t0_loop fuel os icc cmd v' | _ \<Rightarrow> out_return st)) t0_exit_ok"
      by (rule gives_bind [OF t0_turn_ok [OF assms(1,2) Suc.prems]])
         (auto split: t0_step.splits intro: Suc.IH intro!: yields_return)
  qed (use Suc.prems in \<open>auto intro!: yields_return simp: t0_inv_def t0_sizes\<close>)
qed

lemma ends_turn: "ends (t0_turn os icc cmd v)"
  unfolding t0_turn_def t0_send_def t0_take_def t0_status_def Let_def by (intro vcg)

lemma t0_loop_ends:
  assumes "t0_short cmd" "APDU_Cmd_Case cmd = APDU_CASE_2S" "icc_equal_timeouts icc" "t0_inv cmd v" "t0_measure cmd v < fuel"
  shows "ends (t0_loop fuel os icc cmd v)"
  using assms(4,5)
proof (induction fuel arbitrary: v)
  case (Suc fuel)
  have "ends (case st of T0_Continue v' \<Rightarrow> t0_loop fuel os icc cmd v' | _ \<Rightarrow> out_return st)"
    if "t0_step_ok cmd (t0_measure cmd v) st" for st
    using that Suc.prems(2) assms(2) Suc.IH by (cases st) (auto intro: vcg)
  then show ?case
    unfolding t0_loop.simps
    by (intro ends_if gives_ends_bind [OF t0_turn_ok [OF assms(1,3) Suc.prems(1)] ends_turn] ends_return) auto
qed simp

text \<open>
  A handler that has been initialised, and the memory of the receive buffer; a result that
  comes with a response when it is \<open>PROTOCOL_T0_OK\<close>.
\<close>

definition t0_ready :: "Protocol_T0 \<Rightarrow> byte list \<Rightarrow> bool" where
  "t0_ready t0 stack \<longleftrightarrow>
     icc_equal_timeouts (the (t0_icc t0)) \<and> length stack = PROTOCOL_T0_MAX_SHORT_RESPONSE"

definition t0_good :: "nat \<Rightarrow> t0_ret \<times> t0_rsp \<Rightarrow> bool" where
  "t0_good n = (\<lambda>(ret, rsp). (ret = PROTOCOL_T0_OK \<longrightarrow> (\<exists>r. rsp = T0_Rsp r)) \<and>
     (\<forall>r. rsp = T0_Rsp r \<longrightarrow> apdu_rsp_wf r \<and> rsp_length r \<le> n))"

lemma t0_good_error: "ret \<noteq> PROTOCOL_T0_OK \<Longrightarrow> t0_good n (ret, T0_Unset)" "ret \<noteq> PROTOCOL_T0_OK \<Longrightarrow> t0_good n (ret, T0_Null)"
  by (simp_all add: t0_good_def)

lemma Protocol_T0_Init_ready:
  "length stack = PROTOCOL_T0_MAX_SHORT_RESPONSE \<Longrightarrow> t0_ready (snd (Protocol_T0_Init fl icc params)) stack"
  by (simp add: t0_ready_def Protocol_T0_Init_def icc_equal_timeouts_def ICC_Async_SetTimings_def ICC_Async_GetTimings_def Let_def)

lemma t0_finish_ok:
  assumes "t0_exit_ok (T0_Break ret v)"
  shows "gives (t0_finish os icc ret v) (t0_good PROTOCOL_T0_MAX_SHORT_RESPONSE)"
proof -
  have "t0_good PROTOCOL_T0_MAX_SHORT_RESPONSE
      (ret', case APDU_Rsp_New (t0_buffer v) (recv v) of None \<Rightarrow> T0_Null | Some r \<Rightarrow> T0_Rsp r)" if "2 \<le> recv v" for ret'
    using assms that APDU_Rsp_New_wf [of "recv v" "t0_buffer v"]
    by (auto simp: t0_good_def APDU_Rsp_New_def apdu_sizes split: option.splits)
  then show ?thesis
    using assms by (intro yieldsI) (auto simp: t0_finish_def Let_def t0_good_def split: prod.splits if_splits)
qed

lemma gives_Exchange:
  assumes "t0_ready t0 stack" "apdu_cmd_wf cmd"
  shows "gives (Protocol_T0_ExchangeTPDU fuel os stack t0 cmd) (t0_good PROTOCOL_T0_MAX_SHORT_RESPONSE)"
proof -
  have start: "t0_inv cmd \<lparr>t0_buffer = stack, recv = 0, sent = 0, nulls = 0\<rparr>"
    using assms(1) by (simp add: t0_inv_def t0_ready_def t0_sizes)
  have "5 \<le> length (APDU_Cmd_Header cmd)" if "t0_short cmd"
    using that short_2S(3) short_3S(3) by (auto simp: t0_short_def)
  then have header: "\<exists>h. bytes_at (APDU_Cmd_Header cmd) 0 5 = Some h \<and> length h \<le> 255" if "t0_short cmd"
    using that by (auto simp: bytes_at_def)
  have exit: "gives (case st of T0_Return ret \<Rightarrow> out_return (ret, T0_Unset) | T0_Break ret v \<Rightarrow> t0_finish os icc ret v
      | T0_Continue _ \<Rightarrow> State_Monad.return Runs_on) (t0_good PROTOCOL_T0_MAX_SHORT_RESPONSE)" if "t0_exit_ok st" for st icc
    using that t0_finish_ok by (cases st) (auto intro!: yields_return t0_good_error)
  show ?thesis
  proof (cases "t0_short cmd")
    case True
    then obtain h where h: "bytes_at (APDU_Cmd_Header cmd) 0 5 = Some h" "length h \<le> 255" using header by blast
    show ?thesis
      unfolding Protocol_T0_ExchangeTPDU_def Let_def h(1) option.case
      by (intro yields_if gives_bind [OF gives_lift] gives_bind [OF gives_Transmit [OF h(2)]]
          gives_bind [OF t0_loop_ok [OF True _ start]] exit)
         (use assms(1) in \<open>auto intro!: yields_return t0_good_error simp: t0_ready_def\<close>)
  next
    case False
    then show ?thesis
      using assms(2) by (auto simp: Protocol_T0_ExchangeTPDU_def t0_short_def Let_def intro!: yields_return t0_good_error)
  qed
qed

lemma ends_Exchange:
  assumes "t0_ready t0 stack" "apdu_cmd_wf cmd" "APDU_Cmd_Case cmd = APDU_CASE_2S"
    "PROTOCOL_T0_MAX_NULLS * (APDU_Cmd_Lc cmd + 1) \<le> fuel"
  shows "ends (Protocol_T0_ExchangeTPDU fuel os stack t0 cmd)"
proof -
  let ?v = "\<lparr>t0_buffer = stack, recv = 0, sent = 0, nulls = 0\<rparr>"
  have short: "t0_short cmd" using assms(2,3) by (simp add: t0_short_def)
  have start: "t0_inv cmd ?v" using assms(1) by (simp add: t0_inv_def t0_ready_def t0_sizes)
  have m: "t0_measure cmd ?v < fuel" using assms(4) by (simp add: t0_measure_def t0_sizes)
  have eq: "icc_equal_timeouts (the (t0_icc t0))" using assms(1) by (simp add: t0_ready_def)
  have exit: "ends (case st of T0_Return ret \<Rightarrow> out_return (ret, T0_Unset) | T0_Break ret v \<Rightarrow> t0_finish os icc ret v
      | T0_Continue _ \<Rightarrow> State_Monad.return Runs_on)" if "t0_exit_ok st" for st icc
    using that by (cases st) (auto simp: t0_finish_def Let_def intro!: vcg)
  show ?thesis
    unfolding Protocol_T0_ExchangeTPDU_def Let_def
    by (intro vcg gives_ends_bind [OF t0_loop_ok [OF short eq start] t0_loop_ends [OF short assms(3) eq start m]] exit)
qed

text \<open>
  The exchange of a TPDU with any card, in any state of the line: after
  \<open>Protocol_T0_Init\<close> the exchange of a well-formed command never accesses memory outside its
  arrays, and when it returns \<open>PROTOCOL_T0_OK\<close> it has produced a response with status
  bytes of at most 258 bytes.
\<close>

lemma Protocol_T0_ExchangeTPDU_safe:
  assumes "length stack = 258" "apdu_cmd_wf cmd" "t0 = snd (Protocol_T0_Init fl icc params)"
    "run_state (Protocol_T0_ExchangeTPDU fuel os stack t0 cmd) p = (r, p')"
  shows "r \<noteq> Faults \<and> (\<forall>rsp. r = Returns (PROTOCOL_T0_OK, rsp) \<longrightarrow>
           (\<exists>a. rsp = T0_Rsp a \<and> apdu_rsp_wf a \<and> 2 \<le> rsp_length a \<and> rsp_length a \<le> 258))"
proof -
  have "t0_ready t0 stack" using Protocol_T0_Init_ready assms(1,3) by (simp add: t0_sizes)
  from yieldsD [OF gives_Exchange [OF this assms(2)] _ assms(4)] show ?thesis
    by (auto simp: t0_good_def apdu_rsp_wf_def apdu_sizes t0_sizes)
qed

text \<open>A card and commands to try the properties on.\<close>

definition sample_card :: ICC_Async where
  "sample_card = ICC_Async_Clear\<lparr>icc_ifd := Some IFD_Towitoko_Clear, icc_atr := Some blank_ATR, baudrate := 9600\<rparr>"

definition sample_params :: PPS_ProtocolParameters where
  "sample_params = \<lparr>pps_f = 372, pps_d = 1, pps_n = 0, pps_t = 0\<rparr>"

definition sample_t0 :: Protocol_T0 where
  "sample_t0 = snd (Protocol_T0_Init id sample_card sample_params)"

definition sample_read :: APDU_Cmd where
  "sample_read = \<lparr>command = [0x00, 0xB0, 0x00, 0x00, 0x02], cmd_length = 5\<rparr>"

definition sample_write :: APDU_Cmd where
  "sample_write = \<lparr>command = [0x00, 0xD0, 0x00, 0x00, 0x02, 0xAA, 0xBB], cmd_length = 7\<rparr>"

lemma sample_wf: "apdu_cmd_wf sample_read" "apdu_cmd_wf sample_write"
  "APDU_Cmd_Case sample_read = APDU_CASE_3S" "APDU_Cmd_Case sample_write = APDU_CASE_2S"
  by (simp_all add: apdu_cmd_wf_def sample_read_def sample_write_def apdu_sizes APDU_Cmd_Case_def)

text \<open>
  (C8) The exchange of a command that sends data ends with any card: at most 200 turns of
  the loop per data byte and 200 more are needed, so 51200 turns are always enough.
\<close>

theorem Protocol_T0_ExchangeTPDU_ends:
  assumes "length stack = 258" "apdu_cmd_wf cmd" "APDU_Cmd_Case cmd = APDU_CASE_2S"
    "t0 = snd (Protocol_T0_Init fl icc params)" "51200 \<le> fuel"
  shows "\<exists>ret rsp p'. run_state (Protocol_T0_ExchangeTPDU fuel os stack t0 cmd) p = (Returns (ret, rsp), p')"
proof -
  have ready: "t0_ready t0 stack" using Protocol_T0_Init_ready assms(1,4) by (simp add: t0_sizes)
  obtain r p' where r: "run_state (Protocol_T0_ExchangeTPDU fuel os stack t0 cmd) p = (r, p')" by fastforce
  have "PROTOCOL_T0_MAX_NULLS * (APDU_Cmd_Lc cmd + 1) \<le> fuel"
    using short_2S(2) [OF assms(2,3)] assms(5) by (simp add: t0_sizes)
  then have "r \<noteq> Runs_on" using ends_Exchange [OF ready assms(2,3)] r by (metis ends_def fst_conv)
  moreover have "r \<noteq> Faults" using yieldsD [OF gives_Exchange [OF ready assms(2)] _ r] by blast
  ultimately show ?thesis using r by (cases r) auto
qed

lemma Protocol_T0_ExchangeTPDU_ends_witness:
  "\<exists>ret rsp p'. run_state (Protocol_T0_ExchangeTPDU 51200 script_os (replicate 258 0) sample_t0 sample_write)
     (script_port [[], [0xD0], [], [0x90, 0x00]] (Some default_properties)) = (Returns (ret, rsp), p')"
  by (rule Protocol_T0_ExchangeTPDU_ends [OF _ sample_wf(2,4) sample_t0_def]) simp_all

section \<open>Commands\<close>

lemma t0_good_mono: "t0_good m x \<Longrightarrow> m \<le> n \<Longrightarrow> t0_good n x"
  by (fastforce simp: t0_good_def split: prod.splits)

lemma gives_deref:
  "t0_good n (PROTOCOL_T0_OK, rsp) \<Longrightarrow> (\<And>r. apdu_rsp_wf r \<Longrightarrow> rsp_length r \<le> n \<Longrightarrow> gives (f r) Q) \<Longrightarrow> gives (t0_deref rsp f) Q"
  by (auto simp: t0_good_def t0_deref_def)

lemma gives_exchange_bytes:
  assumes "t0_ready t0 stack" "length bytes \<le> 300"
  shows "gives (t0_exchange_bytes fuel os stack t0 bytes) (t0_good PROTOCOL_T0_MAX_SHORT_RESPONSE)"
proof -
  obtain c where c: "APDU_Cmd_New bytes (length bytes) = Some c"
    using assms(2) by (auto simp: APDU_Cmd_New_def apdu_sizes Let_def)
  then have "apdu_cmd_wf c" using APDU_Cmd_New_wf by blast
  then show ?thesis using gives_Exchange [OF assms(1)] c by (simp add: t0_exchange_bytes_def)
qed

text \<open>The continuation of an exchange: errors are passed on, a response is used.\<close>

lemma gives_after_exchange:
  assumes "gives m (t0_good k)" "\<And>ret rsp. ret \<noteq> PROTOCOL_T0_OK \<Longrightarrow> t0_good k (ret, rsp) \<Longrightarrow> gives (f ret rsp) (t0_good n)"
    "\<And>rsp. t0_good k (PROTOCOL_T0_OK, rsp) \<Longrightarrow> gives (f PROTOCOL_T0_OK rsp) (t0_good n)"
  shows "gives (out_bind m (\<lambda>(ret, rsp). f ret rsp)) (t0_good n)"
proof (rule gives_bind [OF assms(1)])
  fix x assume "t0_good k x"
  then show "gives (case x of (ret, rsp) \<Rightarrow> f ret rsp) (t0_good n)"
    using assms(2,3) by (cases x; cases "fst x = PROTOCOL_T0_OK") auto
qed

lemma gives_exchange_then:
  assumes "gives m (t0_good k)"
    "\<And>r. apdu_rsp_wf r \<Longrightarrow> rsp_length r \<le> k \<Longrightarrow> gives (g PROTOCOL_T0_OK r) (t0_good n)"
    "\<And>ret. ret \<noteq> PROTOCOL_T0_OK \<Longrightarrow> t0_good n (ret, e)"
  shows "gives (out_bind m (\<lambda>(ret, rsp). if ret \<noteq> PROTOCOL_T0_OK then out_return (ret, e) else t0_deref rsp (g ret))) (t0_good n)"
  by (rule gives_after_exchange [OF assms(1)]) (auto intro!: yields_return assms(3) elim!: gives_deref assms(2))

lemma TruncateData_wf:
  "apdu_rsp_wf r \<Longrightarrow> apdu_rsp_wf (APDU_Rsp_TruncateData r n) \<and> rsp_length (APDU_Rsp_TruncateData r n) \<le> rsp_length r"
  by (auto simp: apdu_rsp_wf_def APDU_Rsp_TruncateData_def apdu_sizes Let_def)

lemma t0_trim_good:
  "apdu_rsp_wf r \<Longrightarrow> rsp_length r \<le> n \<Longrightarrow> t0_good n (ret, T0_Rsp (t0_trim cmd r))"
  using TruncateData_wf [of r "APDU_Cmd_Le cmd"] by (auto simp: t0_good_def t0_trim_def)

lemma AppendData_wf:
  "apdu_rsp_wf r \<Longrightarrow> apdu_rsp_wf r2 \<Longrightarrow> APDU_Rsp_AppendData r r2 = (APDU_OK, r') \<Longrightarrow>
   apdu_rsp_wf r' \<and> rsp_length r' \<le> APDU_MAX_RSP_SIZE"
  "APDU_Rsp_AppendData r r2 = (APDU_RET_MALFORMED, r') \<Longrightarrow> r' = r"
  by (auto simp: apdu_rsp_wf_def APDU_Rsp_AppendData_def APDU_Rsp_DataLen_def APDU_Rsp_RawLen_def APDU_Rsp_Raw_def
      apdu_sizes Let_def split: if_splits)

lemmas t0_intro = yields_if gives_deref yields_return t0_good_error

lemma t0_rsp_good: "apdu_rsp_wf r \<Longrightarrow> rsp_length r \<le> n \<Longrightarrow> t0_good n (ret, T0_Rsp r)"
  by (simp add: t0_good_def)

lemma gives_header:
  assumes "apdu_cmd_wf cmd" "\<And>h. length h = 4 \<Longrightarrow> gives (f h) Q"
  shows "gives (case bytes_at (APDU_Cmd_Raw cmd) 0 4 of None \<Rightarrow> out_fault | Some h \<Rightarrow> f h) Q"
  using assms by (simp add: bytes_at_def APDU_Cmd_Raw_def apdu_cmd_wf_def apdu_sizes)

lemma gives_Case3S_plain:
  assumes "t0_ready t0 stack" "apdu_cmd_wf cmd"
  shows "gives (Protocol_T0_Case3S False fuel os stack t0 cmd) (t0_good APDU_MAX_RSP_SIZE)"
  unfolding Protocol_T0_Case3S_def
  by (rule gives_after_exchange [OF gives_Exchange [OF assms]])
     (auto intro!: yields_return t0_good_error elim!: t0_good_mono simp: t0_sizes apdu_sizes)

lemma gives_Case4S_plain:
  assumes "t0_ready t0 stack" "apdu_cmd_wf cmd" "APDU_Cmd_Case cmd = APDU_CASE_4S"
  shows "gives (Protocol_T0_Case4S False fuel os stack t0 cmd) (t0_good APDU_MAX_RSP_SIZE)"
proof -
  have "APDU_Cmd_RawLen cmd = unat (command cmd ! 4) + 6" "length (APDU_Cmd_Raw cmd) = APDU_Cmd_RawLen cmd"
    using assms(2,3) by (auto simp: APDU_Cmd_Case_def Let_def apdu_cmd_wf_def apdu_sizes APDU_Cmd_RawLen_def APDU_Cmd_Raw_def split: if_splits)
  moreover have "unat (command cmd ! 4) \<le> 255" by simp
  ultimately obtain bytes where b: "bytes_at (APDU_Cmd_Raw cmd) 0 (APDU_Cmd_RawLen cmd - 1) = Some bytes" "length bytes \<le> 260"
    by (auto simp: bytes_at_def)
  then show ?thesis
    unfolding Protocol_T0_Case4S_def b(1) option.case
    by (intro yields_if gives_after_exchange [OF gives_exchange_bytes [OF assms(1)]])
       (auto intro!: yields_return t0_good_error elim!: t0_good_mono simp: t0_sizes apdu_sizes)
qed

lemma gives_envelope:
  assumes "t0_ready t0 stack" "apdu_cmd_wf cmd" "i < APDU_Cmd_RawLen cmd"
  shows "gives (t0_envelope fuel os stack t0 cmd i) (t0_good PROTOCOL_T0_MAX_SHORT_RESPONSE)"
  using assms(3)
proof (induction "APDU_Cmd_RawLen cmd - i" arbitrary: i rule: less_induct)
  case less
  let ?n = "min 255 (APDU_Cmd_RawLen cmd - i)"
  have "i + ?n \<le> length (APDU_Cmd_Raw cmd)"
    using less.prems assms(2) by (simp add: APDU_Cmd_Raw_def APDU_Cmd_RawLen_def apdu_cmd_wf_def)
  from bytes_at_total [OF this] obtain seg where seg: "bytes_at (APDU_Cmd_Raw cmd) i ?n = Some seg" "length seg \<le> 255"
    by auto
  show ?case
    unfolding t0_envelope.simps [of _ _ _ _ _ i] Let_def seg(1) option.case if_P [OF less.prems]
    by (intro gives_exchange_then [OF gives_exchange_bytes [OF assms(1)]] yields_if less.hyps yields_return t0_rsp_good)
       (use seg(2) less.prems in \<open>auto intro: t0_good_error\<close>)
qed

lemma gives_short_data:
  assumes "t0_ready t0 stack" "apdu_cmd_wf cmd" "APDU_Cmd_Case cmd = APDU_CASE_2E \<or> APDU_Cmd_Case cmd = APDU_CASE_4E"
    "APDU_Cmd_Lc cmd < 256"
  shows "gives (t0_short_data fuel os stack t0 cmd) (t0_good PROTOCOL_T0_MAX_SHORT_RESPONSE)"
proof -
  have "7 + APDU_Cmd_Lc cmd \<le> length (command cmd)"
    using assms(2,3) by (auto simp: APDU_Cmd_Case_def APDU_Cmd_Lc_def Let_def apdu_cmd_wf_def apdu_sizes split: if_splits)
  then have "0 + APDU_Cmd_Lc cmd \<le> length (drop 7 (command cmd))" by simp
  from bytes_at_total [OF this] obtain data where
    "Option.bind (APDU_Cmd_Data cmd) (\<lambda>data. bytes_at data 0 (APDU_Cmd_Lc cmd)) = Some data" "length data = APDU_Cmd_Lc cmd"
    using assms(3) by (auto simp: APDU_Cmd_Data_def Let_def)
  then show ?thesis
    using assms(1,4) unfolding t0_short_data_def by (auto intro!: gives_exchange_bytes)
qed

lemma gives_get_responses:
  assumes "t0_ready t0 stack" "apdu_rsp_wf r" "rsp_length r \<le> APDU_MAX_RSP_SIZE"
  shows "gives (t0_get_responses turns fuel os stack t0 cmd Lx r) (t0_good APDU_MAX_RSP_SIZE)"
  using assms(2,3)
proof (induction turns arbitrary: r)
  case (Suc turns)
  have append: "gives (let (a, r') = APDU_Rsp_AppendData r r2
      in if a \<noteq> APDU_OK then out_return (PROTOCOL_T0_ERROR, T0_Rsp r')
         else t0_get_responses turns fuel os stack t0 cmd Lx r') (t0_good APDU_MAX_RSP_SIZE)" if "apdu_rsp_wf r2" for r2
    using AppendData_wf(1) [OF Suc.prems(1) that] AppendData_wf(2) [of r r2] Suc.IH Suc.prems
    by (auto simp: Let_def split: prod.splits intro!: yields_return t0_rsp_good) (metis apdu_ret.exhaust)+
  show ?case
    unfolding t0_get_responses.simps Let_def [of "APDU_Cmd_Le cmd - _"]
    by (intro yields_if gives_exchange_then [OF gives_exchange_bytes [OF assms(1)] append] yields_return t0_rsp_good Suc.prems) (simp_all add: t0_rsp_good Suc.prems)
qed (simp add: yields_def valid_def)

lemma good_258: "t0_good PROTOCOL_T0_MAX_SHORT_RESPONSE x \<Longrightarrow> t0_good APDU_MAX_RSP_SIZE x"
  by (erule t0_good_mono) (simp add: t0_sizes apdu_sizes)

lemma new_tpdu:
  "length bytes = n \<Longrightarrow> 4 \<le> n \<Longrightarrow> n \<le> 7 \<Longrightarrow> \<exists>c. APDU_Cmd_New bytes n = Some c \<and> apdu_cmd_wf c"
  by (auto simp: APDU_Cmd_New_def apdu_cmd_wf_def apdu_sizes)

lemma gives_Case3E_plain:
  assumes "t0_ready t0 stack" "apdu_cmd_wf cmd"
  shows "gives (Protocol_T0_Case3E False fuel os stack t0 cmd) (t0_good APDU_MAX_RSP_SIZE)"
proof -
  let ?h = "[APDU_Cmd_Cla cmd, APDU_Cmd_Ins cmd, APDU_Cmd_P1 cmd, APDU_Cmd_P2 cmd]"
  obtain c where c: "APDU_Cmd_New (?h @ [low_byte (APDU_Cmd_Le cmd)]) 5 = Some c" "apdu_cmd_wf c"
    using new_tpdu [of "?h @ [low_byte (APDU_Cmd_Le cmd)]" 5] by auto
  have small: "PROTOCOL_T0_MAX_SHORT_RESPONSE \<le> APDU_MAX_RSP_SIZE" by (simp add: t0_sizes apdu_sizes)
  have reissue: "gives (t0_reissue fuel os stack t0 cmd r) (t0_good APDU_MAX_RSP_SIZE)" for r
    unfolding t0_reissue_def
    by (rule gives_header [OF assms(2)], rule gives_conseq [OF gives_exchange_bytes [OF assms(1)] good_258]) simp
  have after: "gives (if APDU_Rsp_SW1 r = 0x67 then out_return (PROTOCOL_T0_OK, T0_Rsp r)
      else if APDU_Rsp_SW1 r = 0x6C then t0_reissue fuel os stack t0 cmd r
      else if APDU_Rsp_SW1 r = 0x61 then t0_get_responses fuel fuel os stack t0 cmd
        (if APDU_Rsp_SW2 r = 0x00 then 256 else unat (APDU_Rsp_SW2 r)) r
      else out_return (PROTOCOL_T0_OK, T0_Rsp r)) (t0_good APDU_MAX_RSP_SIZE)"
    if "apdu_rsp_wf r" "rsp_length r \<le> PROTOCOL_T0_MAX_SHORT_RESPONSE" for r
    using that small by (intro yields_if yields_return reissue gives_get_responses assms(1) t0_rsp_good) auto
  show ?thesis
    unfolding Protocol_T0_Case3E_def Let_def c(1) option.case
    by (rule yields_if [OF gives_Case3S_plain [OF assms(1) c(2)]], rule gives_exchange_then [OF gives_exchange_bytes [OF assms(1)]])
       (simp, rule after, auto intro: t0_good_error)
qed

lemma gives_Case4E_plain:
  assumes "t0_ready t0 stack" "apdu_cmd_wf cmd" "APDU_Cmd_Case cmd = APDU_CASE_4E"
  shows "gives (Protocol_T0_Case4E False fuel os stack t0 cmd) (t0_good APDU_MAX_RSP_SIZE)"
proof -
  have gr: "gives (t0_extended_gr False fuel os stack t0 cla Le) (t0_good APDU_MAX_RSP_SIZE)" for cla Le
    using new_tpdu [of "[cla, 0xC0, 0x00, 0x00, 0x00, low_byte (Le div 256), low_byte Le]" 7] gives_Case3E_plain [OF assms(1)]
    by (auto simp: t0_extended_gr_def)
  have first: "gives (if APDU_Cmd_Lc cmd < 256 then t0_short_data fuel os stack t0 cmd else Protocol_T0_Case2E fuel os stack t0 cmd)
      (t0_good PROTOCOL_T0_MAX_SHORT_RESPONSE)"
    unfolding Protocol_T0_Case2E_def using assms
    by (intro yields_if gives_short_data gives_envelope) (auto simp: apdu_cmd_wf_def apdu_sizes APDU_Cmd_RawLen_def)
  have after: "gives (if APDU_Rsp_SW1 r = 0x61 then t0_extended_gr False fuel os stack t0 (APDU_Cmd_Cla cmd) n
      else if APDU_Rsp_SW1 r AND 0xF0 = 0x60 then out_return (PROTOCOL_T0_OK, T0_Rsp r)
      else t0_extended_gr False fuel os stack t0 (APDU_Cmd_Cla cmd) (APDU_Cmd_Le cmd)) (t0_good APDU_MAX_RSP_SIZE)"
    if "apdu_rsp_wf r" "rsp_length r \<le> PROTOCOL_T0_MAX_SHORT_RESPONSE" for r n
    using that by (intro yields_if gr yields_return t0_rsp_good) (auto simp: t0_sizes apdu_sizes)
  show ?thesis
    unfolding Protocol_T0_Case4E_def
    by (rule gives_exchange_then [OF first]) (rule after, auto intro: t0_good_error)
qed

lemma gives_Command_plain:
  assumes "t0_ready t0 stack" "apdu_cmd_wf cmd"
    "\<not> iso7816 \<or> APDU_Cmd_Case cmd \<in> {APDU_CASE_1, APDU_CASE_2S, APDU_CASE_2E, APDU_MALFORMED}"
  shows "gives (Protocol_T0_Command iso7816 fuel os stack t0 cmd) (t0_good APDU_MAX_RSP_SIZE)"
proof (cases "APDU_Cmd_Case cmd")
  case APDU_CASE_1
  then show ?thesis
    by (auto simp: Protocol_T0_Command_def Protocol_T0_Case1_def
        intro!: gives_header [OF assms(2)] gives_conseq [OF gives_exchange_bytes [OF assms(1)] good_258])
next
  case APDU_CASE_2S
  then show ?thesis
    using gives_conseq [OF gives_Exchange [OF assms(1,2)] good_258] by (simp add: Protocol_T0_Command_def Protocol_T0_Case2S_def)
next
  case APDU_CASE_2E
  then have "0 < APDU_Cmd_RawLen cmd" using assms(2) by (simp add: apdu_cmd_wf_def apdu_sizes APDU_Cmd_RawLen_def)
  then show ?thesis
    unfolding Protocol_T0_Command_def Protocol_T0_Case2E_def APDU_CASE_2E apdu_case.case
    by (intro yields_if gives_conseq [OF gives_short_data good_258] gives_conseq [OF gives_envelope good_258])
       (use APDU_CASE_2E assms(1,2) in auto)
next
  case APDU_MALFORMED
  then show ?thesis by (auto simp: Protocol_T0_Command_def intro!: yields_return t0_good_error)
qed (use assms gives_Case3S_plain gives_Case4S_plain gives_Case3E_plain gives_Case4E_plain in \<open>simp_all add: Protocol_T0_Command_def\<close>)

text \<open>
  (C2) Commands over T=0, with any card: a well-formed command never makes the driver
  access memory outside its arrays, a \<open>NULL\<close> pointer or freed memory, and
  \<open>PROTOCOL_T0_OK\<close> always comes with a well-formed response of at most 65538 bytes.
  With \<open>PROTOCOL_T0_ISO\<close> this holds for the commands that ask for no response data.
\<close>

theorem Protocol_T0_Command_safe:
  assumes "length stack = 258" "apdu_cmd_wf cmd" "t0 = snd (Protocol_T0_Init fl icc params)"
    "\<not> iso7816 \<or> APDU_Cmd_Case cmd \<in> {APDU_CASE_1, APDU_CASE_2S, APDU_CASE_2E, APDU_MALFORMED}"
    "run_state (Protocol_T0_Command iso7816 fuel os stack t0 cmd) p = (r, p')"
  shows "r \<noteq> Faults \<and> (\<forall>rsp. r = Returns (PROTOCOL_T0_OK, rsp) \<longrightarrow>
           (\<exists>a. rsp = T0_Rsp a \<and> apdu_rsp_wf a \<and> rsp_length a \<le> APDU_MAX_RSP_SIZE))"
proof -
  have "t0_ready t0 stack" using Protocol_T0_Init_ready assms(1,3) by (simp add: t0_sizes)
  from yieldsD [OF gives_Command_plain [OF this assms(2,4)] _ assms(5)] show ?thesis
    by (auto simp: t0_good_def)
qed

lemma Protocol_T0_Command_safe_witness:
  "fst (run_state (Protocol_T0_Command False 9 script_os (replicate 258 0) sample_t0 sample_read)
     (script_port [[], [0xB0, 0x11, 0x22, 0x90, 0x00]] (Some default_properties))) \<noteq> Faults"
  by (rule Protocol_T0_Command_safe [OF _ sample_wf(1) sample_t0_def _ prod.collapse [symmetric], THEN conjunct1]) simp_all

section \<open>ENVELOPE\<close>

text \<open>
  The reference: a list of segments is sent, one TPDU each, as long as the card accepts them
  with SW1 = 90.
\<close>

fun send_segments ::
    "nat \<Rightarrow> 'd os \<Rightarrow> byte list \<Rightarrow> Protocol_T0 \<Rightarrow> byte \<Rightarrow> byte list list \<Rightarrow> ('d, (t0_ret \<times> t0_rsp) outcome) io" where
  "send_segments fuel os stack t0 cla [] = out_return (PROTOCOL_T0_OK, T0_Unset)"
| "send_segments fuel os stack t0 cla (seg # segs) =
     out_bind (t0_exchange_bytes fuel os stack t0 ([cla, 0xC2, 0x00, 0x00, low_byte (length seg)] @ seg)) (\<lambda>(ret, tpdu_rsp).
       if ret \<noteq> PROTOCOL_T0_OK then out_return (ret, T0_Unset)
       else t0_deref tpdu_rsp (\<lambda>r.
         if APDU_Rsp_SW1 r = 0x90 \<and> segs \<noteq> [] then send_segments fuel os stack t0 cla segs
         else out_return (ret, T0_Rsp r)))"

lemma envelope_segments:
  assumes "apdu_cmd_wf cmd" "i \<le> APDU_Cmd_RawLen cmd"
  shows "t0_envelope fuel os stack t0 cmd i = send_segments fuel os stack t0 (APDU_Cmd_Cla cmd) (chunks 255 (drop i (APDU_Cmd_Raw cmd)))"
  using assms(2)
proof (induction "APDU_Cmd_RawLen cmd - i" arbitrary: i rule: less_induct)
  case less
  let ?n = "min 255 (APDU_Cmd_RawLen cmd - i)" and ?rest = "drop i (APDU_Cmd_Raw cmd)"
  have len: "length (APDU_Cmd_Raw cmd) = APDU_Cmd_RawLen cmd"
    using assms(1) by (simp add: apdu_cmd_wf_def APDU_Cmd_Raw_def APDU_Cmd_RawLen_def)
  show ?case
  proof (cases "i < APDU_Cmd_RawLen cmd")
    case True
    let ?next = "drop (i + ?n) (APDU_Cmd_Raw cmd)"
    have seg: "bytes_at (APDU_Cmd_Raw cmd) i ?n = Some (take 255 ?rest)" "length (take 255 ?rest) = ?n"
      using True len by (auto simp: bytes_at_def min_def)
    have chunks: "chunks 255 ?rest = take 255 ?rest # chunks 255 ?next"
      using True len by (subst chunks.simps) (auto simp: min_def add.commute)
    have more: "chunks 255 ?next \<noteq> [] \<longleftrightarrow> ?n + i < APDU_Cmd_RawLen cmd"
      using len by (subst chunks.simps) (auto simp: add.commute)
    have ih: "t0_envelope fuel os stack t0 cmd (i + ?n) = send_segments fuel os stack t0 (APDU_Cmd_Cla cmd) (chunks 255 ?next)"
      if "?n + i < APDU_Cmd_RawLen cmd"
      using that True less.hyps [of "i + ?n"] by auto
    show ?thesis
      unfolding chunks t0_envelope.simps [of _ _ _ _ _ i] send_segments.simps Let_def seg option.case if_P [OF True] more
      by (rule arg_cong [where f = "out_bind _"], rule ext) (auto simp: ih split: prod.split intro!: arg_cong [where f = "t0_deref _"])
  next
    case False
    then show ?thesis using less.prems len by (simp add: t0_envelope.simps chunks.simps)
  qed
qed

text \<open>
  (C7) A command whose data does not fit a short TPDU is sent by ENVELOPE commands whose
  contents, of 1 to 255 bytes each, are in order exactly the bytes of the command APDU: the
  loop of \<open>Protocol_T0_Case2E\<close> is the reference that sends the segments one by one.
\<close>

theorem Protocol_T0_Case2E_envelope:
  assumes "apdu_cmd_wf cmd" "256 \<le> APDU_Cmd_Lc cmd"
  shows "\<exists>segs. Protocol_T0_Case2E fuel os stack t0 cmd = send_segments fuel os stack t0 (APDU_Cmd_Cla cmd) segs \<and>
           concat segs = APDU_Cmd_Raw cmd \<and> (\<forall>seg \<in> set segs. 0 < length seg \<and> length seg \<le> 255)"
  using envelope_segments [OF assms(1), of 0] chunks_props [of 255 "APDU_Cmd_Raw cmd"] assms(2)
  by (intro exI [of _ "chunks 255 (APDU_Cmd_Raw cmd)"]) (simp add: Protocol_T0_Case2E_def)

definition sample_long :: APDU_Cmd where
  "sample_long = \<lparr>command = [0x00, 0xD0, 0x00, 0x00, 0x00, 0x01, 0x00] @ replicate 256 0x55, cmd_length = 263\<rparr>"

lemma Protocol_T0_Case2E_envelope_witness:
  "\<exists>segs. Protocol_T0_Case2E 9 script_os (replicate 258 0) sample_t0 sample_long =
      send_segments 9 script_os (replicate 258 0) sample_t0 0 segs \<and> concat segs = command sample_long"
proof -
  have "apdu_cmd_wf sample_long" "256 \<le> APDU_Cmd_Lc sample_long" "APDU_Cmd_Cla sample_long = 0"
    by (simp_all add: sample_long_def apdu_cmd_wf_def apdu_sizes APDU_Cmd_Lc_def APDU_Cmd_Case_def Let_def be16_eq APDU_Cmd_Cla_def)
  then show ?thesis
    using Protocol_T0_Case2E_envelope [of sample_long 9 script_os "replicate 258 0" sample_t0] by (auto simp: APDU_Cmd_Raw_def)
qed

section \<open>A card that follows the protocol\<close>

text \<open>\<open>feeds bs p\<close>: in the state \<open>p\<close> the bytes \<open>bs\<close> can be received, in any portions.\<close>

inductive feeds :: "'d os \<Rightarrow> ICC_Async \<Rightarrow> byte list \<Rightarrow> 'd port \<Rightarrow> bool" for os icc where
  feeds_intro: "(\<And>n. 0 < n \<Longrightarrow> n \<le> length bs \<Longrightarrow>
     \<exists>p'. run_state (ICC_Async_Receive os icc n) p = (Inr (take n bs), p') \<and> feeds os icc (drop n bs) p') \<Longrightarrow>
   feeds os icc bs p"

lemma feeds_receive:
  assumes "feeds os icc (bs @ cs) p" "0 < length bs" "off + length bs \<le> length buffer"
  obtains p' where "run_state (icc_receive os icc (length bs) buffer off) p =
      (Returns (Some (take off buffer @ bs @ drop (off + length bs) buffer)), p')" "feeds os icc cs p'"
proof -
  obtain p' where p': "run_state (ICC_Async_Receive os icc (length bs)) p = (Inr (take (length bs) (bs @ cs)), p')"
      "feeds os icc (drop (length bs) (bs @ cs)) p'"
    using assms(1,2) by (force elim: feeds.cases)
  then have "run_state (icc_receive os icc (length bs) buffer off) p =
      (Returns (Some (take off buffer @ bs @ drop (off + length bs) buffer)), p')"
    using assms(3) by (simp add: icc_receive_def memcpy_at_def)
  then show ?thesis using that p'(2) by simp
qed

lemma feeds_byte:
  assumes "feeds os icc (b # cs) p" "off < length buffer"
  obtains p' where "run_state (icc_receive os icc (Suc 0) buffer off) p = (Returns (Some (buffer[off := b])), p')" "feeds os icc cs p'"
  using feeds_receive [of os icc "[b]" cs p off buffer] assms by (auto simp: upd_conv_take_nth_drop)

text \<open>\<open>NULL\<close> bytes only cost turns.\<close>

lemma t0_loop_nulls:
  assumes "feeds os icc (replicate k 0x60 @ bs) p" "nulls v + k < PROTOCOL_T0_MAX_NULLS"
    "length (t0_buffer v) = PROTOCOL_T0_MAX_SHORT_RESPONSE" "recv v < PROTOCOL_T0_MAX_SHORT_RESPONSE"
  shows "\<exists>v' p'. run_state (t0_loop (k + fuel) os icc cmd v) p = run_state (t0_loop fuel os icc cmd v') p' \<and>
    feeds os icc bs p' \<and> recv v' = recv v \<and> sent v' = sent v \<and> nulls v' = nulls v + k \<and>
    length (t0_buffer v') = length (t0_buffer v) \<and> take (recv v) (t0_buffer v') = take (recv v) (t0_buffer v)"
  using assms
proof (induction k arbitrary: v p)
  case (Suc k)
  let ?v = "v\<lparr>t0_buffer := (t0_buffer v)[recv v := 0x60], nulls := nulls v + 1\<rparr>"
  have "recv v < length (t0_buffer v)" using Suc.prems by simp
  then obtain p' where p': "run_state (icc_receive os icc (Suc 0) (t0_buffer v) (recv v)) p = (Returns (Some ((t0_buffer v)[recv v := 0x60])), p')"
      "feeds os icc (replicate k 0x60 @ bs) p'"
    using Suc.prems(1) feeds_byte [of os icc "0x60" "replicate k 0x60 @ bs" p] by auto
  then have "run_state (t0_loop (Suc k + fuel) os icc cmd v) p = run_state (t0_loop (k + fuel) os icc cmd ?v) p'"
    using Suc.prems by (simp add: t0_turn_def)
  moreover have "\<exists>v' p''. run_state (t0_loop (k + fuel) os icc cmd ?v) p' = run_state (t0_loop fuel os icc cmd v') p'' \<and>
    feeds os icc bs p'' \<and> recv v' = recv ?v \<and> sent v' = sent ?v \<and> nulls v' = nulls ?v + k \<and>
    length (t0_buffer v') = length (t0_buffer ?v) \<and> take (recv ?v) (t0_buffer v') = take (recv ?v) (t0_buffer ?v)"
    by (rule Suc.IH) (use Suc.prems p'(2) in auto)
  ultimately show ?case by (auto 0 3)
next
  case 0
  then show ?case by (intro exI [of _ v] exI [of _ p]) simp
qed

definition is_status :: "byte \<Rightarrow> bool" where
  "is_status b \<longleftrightarrow> b \<noteq> 0x60 \<and> (b AND 0xF0 = 0x60 \<or> b AND 0xF0 = 0x90)"

definition is_ack :: "byte \<Rightarrow> byte \<Rightarrow> bool" where
  "is_ack ins b \<longleftrightarrow> b AND 0xF0 \<noteq> 0x60 \<and> b AND 0xF0 \<noteq> 0x90 \<and> b AND 0x0E = ins AND 0x0E"

definition is_nack :: "byte \<Rightarrow> byte \<Rightarrow> bool" where
  "is_nack ins b \<longleftrightarrow> b AND 0xF0 \<noteq> 0x60 \<and> b AND 0xF0 \<noteq> 0x90 \<and> b AND 0x0E = NOT ins AND 0x0E"

text \<open>
  The way a card hands over \<open>n\<close> data bytes: each portion is preceded by \<open>NULL\<close> bytes
  and one procedure byte, the acknowledge byte before all the data that is left or the
  inverted one before a single byte.
\<close>

type_synonym portion = "nat \<times> byte \<times> byte list"

fun portions_ok :: "byte \<Rightarrow> nat \<Rightarrow> portion list \<Rightarrow> bool" where
  "portions_ok ins n [] \<longleftrightarrow> n = 0"
| "portions_ok ins n ((j, a, ds) # ps) \<longleftrightarrow>
     j < 200 \<and> 0 < n \<and> (is_ack ins a \<and> length ds = n \<or> is_nack ins a \<and> length ds = 1) \<and>
     portions_ok ins (n - length ds) ps"

fun portions_stream :: "portion list \<Rightarrow> byte list" where
  "portions_stream [] = []"
| "portions_stream ((j, a, ds) # ps) = replicate j 0x60 @ a # ds @ portions_stream ps"

fun portions_data :: "portion list \<Rightarrow> byte list" where
  "portions_data [] = []"
| "portions_data ((j, a, ds) # ps) = ds @ portions_data ps"

fun portions_turns :: "portion list \<Rightarrow> nat" where
  "portions_turns [] = 0"
| "portions_turns ((j, a, ds) # ps) = j + 1 + portions_turns ps"

lemma portions_data_length: "portions_ok ins n ps \<Longrightarrow> length (portions_data ps) = n"
  by (induction ins n ps rule: portions_ok.induct) auto

lemma NOT_mask_ne: "NOT ins AND 0x0E \<noteq> ins AND (0x0E :: byte)"
proof
  assume "NOT ins AND 0x0E = ins AND (0x0E :: byte)"
  then have "bit (NOT ins AND 0x0E) 1 = bit (ins AND (0x0E :: byte)) 1" by simp
  then show False by (simp add: bit_simps)
qed

lemma t0_loop_portion:
  assumes "feeds os icc (a # ds @ bs) p" "APDU_Cmd_Case cmd = APDU_CASE_3S"
    "is_ack (APDU_Cmd_Ins cmd) a \<and> length ds = n \<or> is_nack (APDU_Cmd_Ins cmd) a \<and> length ds = 1"
    "0 < n" "recv v + n = APDU_Cmd_Le cmd" "APDU_Cmd_Le cmd \<le> 256" "length (t0_buffer v) = PROTOCOL_T0_MAX_SHORT_RESPONSE"
  obtains v' p' where "run_state (t0_loop (Suc fuel) os icc cmd v) p = run_state (t0_loop fuel os icc cmd v') p'"
    "feeds os icc bs p'" "recv v' = recv v + length ds" "nulls v' = 0" "length (t0_buffer v') = length (t0_buffer v)"
    "take (recv v') (t0_buffer v') = take (recv v) (t0_buffer v) @ ds"
proof -
  let ?b = "(t0_buffer v)[recv v := a]" and ?r = "recv v + length ds"
  let ?c = "take (recv v) (t0_buffer v) @ ds @ drop ?r ?b"
  have r: "recv v < length (t0_buffer v)" "?r \<le> length ?b" "0 < length ds" using assms(3-7) by (auto simp: t0_sizes)
  obtain p1 where p1: "run_state (icc_receive os icc (Suc 0) (t0_buffer v) (recv v)) p = (Returns (Some ?b), p1)" "feeds os icc (ds @ bs) p1"
    using assms(1) r(1) by (auto elim: feeds_byte)
  obtain p2 where p2: "run_state (icc_receive os icc (length ds) ?b (recv v)) p1 = (Returns (Some ?c), p2)" "feeds os icc bs p2"
    using feeds_receive [OF p1(2) r(3,2)] by auto
  have nz: "a \<noteq> 0x60" "\<not> (a AND 0xF0 = 0x60 \<or> a AND 0xF0 = 0x90)" using assms(3) by (auto simp: is_ack_def is_nack_def)
  have le: "APDU_Cmd_Le cmd - recv v = n" using assms(5) by simp
  have "run_state (t0_loop (Suc fuel) os icc cmd v) p =
      run_state (t0_loop fuel os icc cmd (v\<lparr>nulls := 0, t0_buffer := ?c, recv := ?r\<rparr>)) p2"
    using assms(3)
  proof
    assume "is_ack (APDU_Cmd_Ins cmd) a \<and> length ds = n"
    then show ?thesis
      using assms(2,5) r(1) p1(1) p2(1) nz le assms(7)
      by (simp add: t0_turn_def t0_take_def is_ack_def t0_sizes Let_def)
  next
    assume "is_nack (APDU_Cmd_Ins cmd) a \<and> length ds = 1"
    then show ?thesis
      using assms(2) r(1) p1(1) p2(1) nz assms(7) NOT_mask_ne [of "APDU_Cmd_Ins cmd"]
      by (simp add: t0_turn_def t0_take_def is_nack_def t0_sizes Let_def)
  qed
  then show ?thesis by (rule that) (use p2(2) r assms(7) in \<open>auto simp: min_def\<close>)
qed

lemma t0_loop_portions:
  assumes "feeds os icc (portions_stream ps @ bs) p" "APDU_Cmd_Case cmd = APDU_CASE_3S" "portions_ok (APDU_Cmd_Ins cmd) n ps"
    "recv v + n = APDU_Cmd_Le cmd" "APDU_Cmd_Le cmd \<le> 256" "length (t0_buffer v) = PROTOCOL_T0_MAX_SHORT_RESPONSE" "nulls v = 0"
  shows "\<exists>v' p'. run_state (t0_loop (portions_turns ps + fuel) os icc cmd v) p = run_state (t0_loop fuel os icc cmd v') p' \<and>
    feeds os icc bs p' \<and> recv v' = APDU_Cmd_Le cmd \<and> nulls v' = 0 \<and> length (t0_buffer v') = length (t0_buffer v) \<and>
    take (recv v') (t0_buffer v') = take (recv v) (t0_buffer v) @ portions_data ps"
  using assms
proof (induction ps arbitrary: n v p)
  case (Cons x ps)
  obtain j a ds where x: "x = (j, a, ds)" by (cases x) auto
  have ok: "j < 200" "0 < n" "is_ack (APDU_Cmd_Ins cmd) a \<and> length ds = n \<or> is_nack (APDU_Cmd_Ins cmd) a \<and> length ds = 1"
      "portions_ok (APDU_Cmd_Ins cmd) (n - length ds) ps"
    using Cons.prems(3) x by auto
  have feed: "feeds os icc (replicate j 0x60 @ a # ds @ portions_stream ps @ bs) p" using Cons.prems(1) x by simp
  obtain v1 p1 where 1: "run_state (t0_loop (j + Suc (portions_turns ps + fuel)) os icc cmd v) p =
        run_state (t0_loop (Suc (portions_turns ps + fuel)) os icc cmd v1) p1"
      "feeds os icc (a # ds @ portions_stream ps @ bs) p1" "recv v1 = recv v" "length (t0_buffer v1) = length (t0_buffer v)"
      "take (recv v) (t0_buffer v1) = take (recv v) (t0_buffer v)"
    using t0_loop_nulls [OF feed, of v "Suc (portions_turns ps + fuel)" cmd] ok(1) Cons.prems(4-7) by (auto simp: t0_sizes)
  obtain v2 p2 where 2: "run_state (t0_loop (Suc (portions_turns ps + fuel)) os icc cmd v1) p1 =
        run_state (t0_loop (portions_turns ps + fuel) os icc cmd v2) p2"
      "feeds os icc (portions_stream ps @ bs) p2" "recv v2 = recv v1 + length ds" "nulls v2 = 0"
      "length (t0_buffer v2) = length (t0_buffer v1)" "take (recv v2) (t0_buffer v2) = take (recv v1) (t0_buffer v1) @ ds"
    by (rule t0_loop_portion [OF 1(2) Cons.prems(2) ok(3,2), where fuel = "portions_turns ps + fuel"])
       (use 1(3,4) Cons.prems(4-6) in auto)
  have "recv v2 + (n - length ds) = APDU_Cmd_Le cmd" using 1(3) 2(3) ok(2,3) Cons.prems(4) by auto
  from Cons.IH [OF 2(2) Cons.prems(2) ok(4) this Cons.prems(5)] show ?case
    using 1 2(1,3-6) Cons.prems(6) x by (auto simp: add.assoc)
next
  case Nil
  then show ?case by (intro exI [of _ v] exI [of _ p]) simp
qed

lemma t0_loop_status:
  assumes "feeds os icc [sw1, sw2] p" "is_status sw1" "length (t0_buffer v) = PROTOCOL_T0_MAX_SHORT_RESPONSE" "recv v \<le> 256"
  shows "\<exists>p'. run_state (t0_loop (Suc fuel) os icc cmd v) p = (Returns (T0_Break PROTOCOL_T0_OK
     (v\<lparr>t0_buffer := (t0_buffer v)[recv v := sw1, recv v + 1 := sw2], recv := recv v + 2\<rparr>)), p')"
proof -
  have r: "recv v < length (t0_buffer v)" "recv v + 1 < length ((t0_buffer v)[recv v := sw1])" using assms(3,4) by (simp_all add: t0_sizes)
  obtain p1 where p1: "run_state (icc_receive os icc (Suc 0) (t0_buffer v) (recv v)) p = (Returns (Some ((t0_buffer v)[recv v := sw1])), p1)"
      "feeds os icc [sw2] p1"
    using assms(1) r(1) by (auto elim: feeds_byte)
  obtain p2 where "run_state (icc_receive os icc (Suc 0) ((t0_buffer v)[recv v := sw1]) (recv v + 1)) p1 =
      (Returns (Some ((t0_buffer v)[recv v := sw1, recv v + 1 := sw2])), p2)"
    using feeds_byte [OF p1(2) r(2)] by blast
  then show ?thesis using p1(1) assms(2,3,4) r(1)
    by (simp add: t0_turn_def t0_status_def is_status_def t0_sizes Let_def)
qed

lemma t0_loop_reads:
  assumes "feeds os icc (portions_stream ps @ replicate m 0x60 @ [sw1, sw2]) p" "m < PROTOCOL_T0_MAX_NULLS"
    "portions_ok (APDU_Cmd_Ins cmd) (APDU_Cmd_Le cmd) ps" "is_status sw1"
    "apdu_cmd_wf cmd" "APDU_Cmd_Case cmd = APDU_CASE_3S"
    "length stack = PROTOCOL_T0_MAX_SHORT_RESPONSE" "portions_turns ps + m + 1 \<le> fuel"
  shows "\<exists>v p'. run_state (t0_loop fuel os icc cmd \<lparr>t0_buffer = stack, recv = 0, sent = 0, nulls = 0\<rparr>) p =
      (Returns (T0_Break PROTOCOL_T0_OK v), p') \<and> recv v = APDU_Cmd_Le cmd + 2 \<and>
      take (recv v) (t0_buffer v) = portions_data ps @ [sw1, sw2]"
proof -
  let ?v = "\<lparr>t0_buffer = stack, recv = 0, sent = 0, nulls = 0\<rparr>" and ?n = "APDU_Cmd_Le cmd"
  have le: "?n \<le> 256" using short_3S [OF assms(5,6)] by auto
  define f where "f = fuel - (portions_turns ps + m + 1)"
  have f: "fuel = portions_turns ps + (m + Suc f)" using assms(8) by (simp add: f_def)
  obtain v2 p2 where 2: "run_state (t0_loop fuel os icc cmd ?v) p = run_state (t0_loop (m + Suc f) os icc cmd v2) p2"
      "feeds os icc (replicate m 0x60 @ [sw1, sw2]) p2" "recv v2 = ?n" "nulls v2 = 0" "length (t0_buffer v2) = length stack"
      "take ?n (t0_buffer v2) = portions_data ps"
    using t0_loop_portions [OF assms(1,6,3), of ?v "m + Suc f"] le assms(7) unfolding f by auto
  obtain v3 p3 where 3: "run_state (t0_loop (m + Suc f) os icc cmd v2) p2 = run_state (t0_loop (Suc f) os icc cmd v3) p3"
      "feeds os icc [sw1, sw2] p3" "recv v3 = ?n" "length (t0_buffer v3) = length stack" "take ?n (t0_buffer v3) = portions_data ps"
    using t0_loop_nulls [OF 2(2), of v2 "Suc f" cmd] 2(3-6) assms(2,7) le by (auto simp: t0_sizes)
  let ?w = "v3\<lparr>t0_buffer := (t0_buffer v3)[recv v3 := sw1, recv v3 + 1 := sw2], recv := recv v3 + 2\<rparr>"
  have "take (recv ?w) (t0_buffer ?w) = portions_data ps @ [sw1, sw2]"
    using 3(3-5) le assms(7) by (simp add: t0_sizes take_Suc_conv_app_nth)
  moreover obtain p4 where "run_state (t0_loop (Suc f) os icc cmd v3) p3 = (Returns (T0_Break PROTOCOL_T0_OK ?w), p4)"
    using t0_loop_status [OF 3(2) assms(4), of v3 f cmd] 3(3,4) le assms(7) by auto
  then have "run_state (t0_loop fuel os icc cmd ?v) p = (Returns (T0_Break PROTOCOL_T0_OK ?w), p4)"
    unfolding 2(1) 3(1) .
  moreover have "recv ?w = ?n + 2" using 3(3) by simp
  ultimately show ?thesis by blast
qed

lemma card_idle:
  assumes "convention icc = ATR_CONVENTION_DIRECT" "baudrate icc \<le> ICC_ASYNC_BAUDRATE"
  shows "ICC_Async_Switch os icc = State_Monad.return ICC_ASYNC_OK"
    "ICC_Async_EndTransmission os icc = State_Monad.return ICC_ASYNC_OK"
  using assms by (simp_all add: ICC_Async_Switch_def ICC_Async_EndTransmission_def)

text \<open>
  (C9) A card of direct convention, at a rate of at most 9600 baud, that follows the
  protocol after a header for a command that asks for data: it sends the data in
  portions, each announced by up to 199 \<open>NULL\<close> bytes and either the inverted
  acknowledge byte (one data byte follows) or the acknowledge byte (all that is left
  follows), then up to 199 \<open>NULL\<close> bytes and the status bytes.  The exchange then
  returns \<open>PROTOCOL_T0_OK\<close> with exactly these data and status bytes, whatever the
  receive buffer held before, within as many turns as the card sends procedure bytes.
\<close>

theorem Protocol_T0_ExchangeTPDU_reads:
  assumes "apdu_cmd_wf cmd" "APDU_Cmd_Case cmd = APDU_CASE_3S" "length stack = 258"
    "t0_icc t0 = Some icc" "convention icc = ATR_CONVENTION_DIRECT" "baudrate icc \<le> 9600"
    "run_state (ICC_Async_BeginTransmission os icc) p = (ICC_ASYNC_OK, p1)"
    "run_state (ICC_Async_Transmit os icc (command cmd)) p1 = (Some ICC_ASYNC_OK, p2)"
    "portions_ok (APDU_Cmd_Ins cmd) (APDU_Cmd_Le cmd) ps" "is_status sw1" "m < 200"
    "feeds os icc (portions_stream ps @ replicate m 0x60 @ [sw1, sw2]) p2"
    "portions_turns ps + m + 1 \<le> fuel"
  shows "fst (run_state (Protocol_T0_ExchangeTPDU fuel os stack t0 cmd) p) =
           Returns (PROTOCOL_T0_OK, T0_Rsp \<lparr>response = portions_data ps @ [sw1, sw2], rsp_length = APDU_Cmd_Le cmd + 2\<rparr>)"
proof -
  obtain v p3 where v: "run_state (t0_loop fuel os icc cmd \<lparr>t0_buffer = stack, recv = 0, sent = 0, nulls = 0\<rparr>) p2 =
      (Returns (T0_Break PROTOCOL_T0_OK v), p3)" "recv v = APDU_Cmd_Le cmd + 2"
      "take (recv v) (t0_buffer v) = portions_data ps @ [sw1, sw2]"
    using t0_loop_reads [OF assms(12) _ assms(9,10,1,2) _ assms(13), of stack] assms(3,11) by (auto simp: t0_sizes)
  have "length (command cmd) = 5"
    using assms(1,2) by (auto simp: APDU_Cmd_Case_def Let_def apdu_cmd_wf_def apdu_sizes split: if_splits)
  then have h: "bytes_at (APDU_Cmd_Header cmd) 0 5 = Some (command cmd)" by (simp add: bytes_at_def APDU_Cmd_Header_def)
  have idle: "baudrate icc \<le> ICC_ASYNC_BAUDRATE" using assms(6) by (simp add: ICC_ASYNC_BAUDRATE_def)
  show ?thesis
    using v assms(2,4,7,8) h
    by (simp add: Protocol_T0_ExchangeTPDU_def Let_def t0_finish_def card_idle [OF assms(5) idle] APDU_Rsp_New_def apdu_sizes)
qed

text \<open>The scripted line feeds what it has received.\<close>

lemma script_feeds:
  assumes "icc_ifd icc = Some ifd" "ifd_type ifd \<noteq> IFD_TOWITOKO_KARTENZWERG" "convention icc = ATR_CONVENTION_DIRECT"
    "icc_equal_timeouts icc" "sc_rx (p_dev p) = bs"
  shows "feeds script_os icc bs p"
  using assms(5)
proof (induction "length bs" arbitrary: bs p rule: less_induct)
  case less
  show ?case
    by (rule feeds_intro) (use script_Receive [OF assms(1-3), of _ p] assms(4) less in \<open>auto\<close>)
qed

text \<open>One \<open>NULL\<close> byte, the inverted acknowledge byte with one byte, the acknowledge byte with the other.\<close>

lemma Protocol_T0_ExchangeTPDU_reads_witness:
  "fst (run_state (Protocol_T0_ExchangeTPDU 4 script_os (replicate 258 0) sample_t0 sample_read)
     (script_port [[], [0x60, 0x4F, 0x11, 0xB0, 0x22, 0x90, 0x00]] (Some default_properties))) =
   Returns (PROTOCOL_T0_OK, T0_Rsp \<lparr>response = [0x11, 0x22, 0x90, 0x00], rsp_length = 4\<rparr>)"
proof -
  let ?p = "script_port [[], [0x60, 0x4F, 0x11, 0xB0, 0x22, 0x90, 0x00]] (Some default_properties)"
  let ?icc = "the (t0_icc sample_t0)"
  have icc: "t0_icc sample_t0 = Some ?icc" "icc_ifd ?icc = Some IFD_Towitoko_Clear" "convention ?icc = ATR_CONVENTION_DIRECT"
    "baudrate ?icc \<le> 9600" "icc_equal_timeouts ?icc" "timings ?icc = \<lparr>icc_block_delay = 0, icc_char_delay = 0,
      icc_block_timeout = icc_block_timeout (timings ?icc), icc_char_timeout = icc_char_timeout (timings ?icc)\<rparr>" "baudrate ?icc = 9600"
    by (simp_all add: sample_t0_def Protocol_T0_Init_def sample_card_def ICC_Async_SetTimings_def ICC_Async_GetTimings_def
        ICC_Async_Clear_def icc_equal_timeouts_def Let_def)
  have b: "run_state (ICC_Async_BeginTransmission script_os ?icc) ?p = (ICC_ASYNC_OK, ?p)"
    using icc by (simp add: ICC_Async_BeginTransmission_def IFD_Towitoko_SetBaudrate_def IFD_Towitoko_GetMaxBaudrate_def ifd_eval script_port_def)
  obtain r p2 where t: "run_state (ICC_Async_Transmit script_os ?icc (command sample_read)) ?p = (r, p2)" by fastforce
  have d: "icc_block_delay (timings ?icc) = 0" "icc_char_delay (timings ?icc) = 0" by (subst icc(6), simp)+
  from t have p2: "r = Some ICC_ASYNC_OK" "sc_rx (p_dev p2) = [0x60, 0x4F, 0x11, 0xB0, 0x22, 0x90, 0x00]"
    using icc(2,3) d by (auto simp: ICC_Async_Transmit_def sample_read_def IFD_Towitoko_Transmit_def transmit_loop.simps transmit_data_def
        bytes_at_def IFD_TOWITOKO_MAX_TRANSMIT_def ifd_eval script_port_def IFD_Towitoko_Clear_def IFD_TOWITOKO_KARTENZWERG_def Let_def)
  let ?ps = "[(1, 0x4F, [0x11]), (0, 0xB0, [0x22])]"
  have f: "feeds script_os ?icc (portions_stream ?ps @ replicate 0 0x60 @ [0x90, 0x00]) p2"
    by (rule script_feeds) (use icc p2 in \<open>auto simp: IFD_Towitoko_Clear_def IFD_TOWITOKO_KARTENZWERG_def\<close>)
  have "portions_ok (APDU_Cmd_Ins sample_read) (APDU_Cmd_Le sample_read) ?ps"
    by (simp add: sample_read_def APDU_Cmd_Le_def APDU_Cmd_Case_def APDU_Cmd_Ins_def is_ack_def is_nack_def)
  from Protocol_T0_ExchangeTPDU_reads [OF sample_wf(1,3) _ icc(1,3,4) b t [unfolded p2(1)] this _ _ f, of "replicate 258 0" 4]
  show ?thesis
    by (simp add: sample_read_def APDU_Cmd_Le_def APDU_Cmd_Case_def is_status_def)
qed

end
