(* ===== verification/T1Block.thy ===== *)
theory T1Block
  imports Interfaces
begin

text \<open>
  T=1 blocks, \<^verbatim>\<open>src/src/driver/t1_block.c\<close>: the three block constructors, the accessors
  and the longitudinal redundancy check.  The properties show that the accessors read back
  what the constructors were given and that every constructed block has a correct LRC.
\<close>

definition T1_BLOCK_MAX_SIZE :: nat where "T1_BLOCK_MAX_SIZE = 259"

definition T1_BLOCK_NAD :: byte where "T1_BLOCK_NAD = 0x00"
definition T1_BLOCK_I :: byte where "T1_BLOCK_I = 0x00"
definition T1_BLOCK_R_OK :: byte where "T1_BLOCK_R_OK = 0x80"
definition T1_BLOCK_R_EDC_ERR :: byte where "T1_BLOCK_R_EDC_ERR = 0x81"
definition T1_BLOCK_R_OTHER_ERR :: byte where "T1_BLOCK_R_OTHER_ERR = 0x82"
definition T1_BLOCK_S_WTX_REQ :: byte where "T1_BLOCK_S_WTX_REQ = 0xC3"
definition T1_BLOCK_S_WTX_RES :: byte where "T1_BLOCK_S_WTX_RES = 0xE3"

lemmas t1_consts =
  T1_BLOCK_NAD_def T1_BLOCK_I_def T1_BLOCK_R_OK_def T1_BLOCK_R_EDC_ERR_def
  T1_BLOCK_R_OTHER_ERR_def T1_BLOCK_S_WTX_REQ_def T1_BLOCK_S_WTX_RES_def

record T1_Block =
  t1_data :: "byte list"
  t1_length :: nat

text \<open>The loop of \<open>T1_Block_LRC\<close> over the first \<open>length\<close> bytes, from index \<open>i\<close>.\<close>

fun T1_Block_LRC_loop :: "byte \<Rightarrow> byte list \<Rightarrow> byte" where
  "T1_Block_LRC_loop lrc [] = lrc"
| "T1_Block_LRC_loop lrc (b # bs) = T1_Block_LRC_loop (lrc XOR b) bs"

definition T1_Block_LRC :: "byte list \<Rightarrow> nat \<Rightarrow> byte" where
  "T1_Block_LRC data len = T1_Block_LRC_loop 0x00 (take len data)"

text \<open>\<open>None\<close> is the \<open>NULL\<close> returned for a buffer shorter than the four mandatory bytes.\<close>

definition T1_Block_New :: "byte list \<Rightarrow> nat \<Rightarrow> T1_Block option" where
  "T1_Block_New buffer len =
     (if len < 4 then None
      else
        let l = min len T1_BLOCK_MAX_SIZE
        in Some \<lparr>t1_data = take l buffer, t1_length = l\<rparr>)"

text \<open>\<open>inf\<close> points to at least \<open>len\<close> bytes; nothing is read from it when \<open>len\<close> is zero.\<close>

definition T1_Block_NewIBlock :: "byte \<Rightarrow> byte list \<Rightarrow> byte \<Rightarrow> bool \<Rightarrow> T1_Block" where
  "T1_Block_NewIBlock len info ns mbit =
     (let b1 = T1_BLOCK_I OR (push_bit 6 ns AND 0x40);
          b1 = (if mbit then b1 OR 0x20 else b1);
          body = [T1_BLOCK_NAD, b1, len] @ take (unat len) info
      in \<lparr>t1_data = body @ [T1_Block_LRC body (unat len + 3)], t1_length = unat len + 4\<rparr>)"

definition T1_Block_NewRBlock :: "byte \<Rightarrow> byte \<Rightarrow> T1_Block" where
  "T1_Block_NewRBlock type nr =
     (let body = [T1_BLOCK_NAD, type OR (push_bit 4 nr AND 0x10), 0x00]
      in \<lparr>t1_data = body @ [T1_Block_LRC body 3], t1_length = 4\<rparr>)"

definition T1_Block_NewSBlock :: "byte \<Rightarrow> byte \<Rightarrow> byte list \<Rightarrow> T1_Block" where
  "T1_Block_NewSBlock type len info =
     (let body = [T1_BLOCK_NAD, type, len] @ take (unat len) info
      in \<lparr>t1_data = body @ [T1_Block_LRC body (unat len + 3)], t1_length = 4 + unat len\<rparr>)"

definition T1_Block_GetType :: "T1_Block \<Rightarrow> byte" where
  "T1_Block_GetType block =
     (if t1_data block ! 1 AND 0x80 = T1_BLOCK_I then T1_BLOCK_I else t1_data block ! 1 AND 0xEF)"

definition T1_Block_GetNS :: "T1_Block \<Rightarrow> byte" where
  "T1_Block_GetNS block = drop_bit 6 (t1_data block ! 1) AND 0x01"

definition T1_Block_GetMore :: "T1_Block \<Rightarrow> bool" where
  "T1_Block_GetMore block \<longleftrightarrow> drop_bit 5 (t1_data block ! 1) AND 0x01 \<noteq> 0"

definition T1_Block_GetNR :: "T1_Block \<Rightarrow> byte" where
  "T1_Block_GetNR block = drop_bit 4 (t1_data block ! 1) AND 0x01"

definition T1_Block_GetLen :: "T1_Block \<Rightarrow> byte" where
  "T1_Block_GetLen block = t1_data block ! 2"

definition T1_Block_GetInf :: "T1_Block \<Rightarrow> byte list option" where
  "T1_Block_GetInf block = (if t1_length block < 5 then None else Some (drop 3 (t1_data block)))"

definition T1_Block_Raw :: "T1_Block \<Rightarrow> byte list" where "T1_Block_Raw block = t1_data block"
definition T1_Block_RawLen :: "T1_Block \<Rightarrow> nat" where "T1_Block_RawLen block = t1_length block"

section \<open>The redundancy check\<close>

lemma T1_Block_LRC_loop_eq: "T1_Block_LRC_loop lrc bs = lrc XOR xor_bytes bs"
  by (induction bs arbitrary: lrc) (simp_all add: xor.assoc)

lemma T1_Block_LRC_eq: "T1_Block_LRC data len = xor_bytes (take len data)"
  by (simp add: T1_Block_LRC_def T1_Block_LRC_loop_eq)

definition lrc_ok :: "byte list \<Rightarrow> bool" where
  "lrc_ok bs \<longleftrightarrow> xor_bytes bs = 0"

lemma lrc_ok_seal: "lrc_ok (body @ [T1_Block_LRC body (length body)])"
  by (simp add: lrc_ok_def T1_Block_LRC_eq)

section \<open>Abstract blocks\<close>

text \<open>The blocks the driver builds: I(ns, mbit, data), R(error code, nr) and S(type, data).\<close>

datatype t1_msg = IMsg bool bool "byte list" | RMsg byte bool | SMsg byte "byte list"

fun t1_msg_wf :: "t1_msg \<Rightarrow> bool" where
  "t1_msg_wf (IMsg ns mbit d) = (length d \<le> 255)"
| "t1_msg_wf (RMsg type nr) = (type \<in> {T1_BLOCK_R_OK, T1_BLOCK_R_EDC_ERR, T1_BLOCK_R_OTHER_ERR})"
| "t1_msg_wf (SMsg type d) = (type AND 0xD0 = 0xC0 \<and> length d \<le> 255)"

fun t1_build :: "t1_msg \<Rightarrow> T1_Block" where
  "t1_build (IMsg ns mbit d) = T1_Block_NewIBlock (low_byte (length d)) d (of_bool ns) mbit"
| "t1_build (RMsg type nr) = T1_Block_NewRBlock type (of_bool nr)"
| "t1_build (SMsg type d) = T1_Block_NewSBlock type (low_byte (length d)) d"

definition t1_encode :: "t1_msg \<Rightarrow> byte list" where
  "t1_encode m = take (T1_Block_RawLen (t1_build m)) (T1_Block_Raw (t1_build m))"

text \<open>What the accessors say of a received byte string.\<close>

definition t1_decode :: "byte list \<Rightarrow> t1_msg option" where
  "t1_decode bs =
     (case T1_Block_New bs (length bs) of
        None \<Rightarrow> None
      | Some blk \<Rightarrow>
          let ty = T1_Block_GetType blk;
              d = (case T1_Block_GetInf blk of None \<Rightarrow> []
                   | Some p \<Rightarrow> take (unat (T1_Block_GetLen blk)) p)
          in Some (if ty = T1_BLOCK_I then IMsg (T1_Block_GetNS blk = 1) (T1_Block_GetMore blk) d
                   else if ty AND 0x40 = 0 then RMsg ty (T1_Block_GetNR blk = 1)
                   else SMsg ty d))"

lemmas t1_accessors =
  T1_Block_GetType_def T1_Block_GetNS_def T1_Block_GetMore_def T1_Block_GetNR_def
  T1_Block_GetLen_def T1_Block_GetInf_def T1_Block_Raw_def T1_Block_RawLen_def

lemma SMsg_type_bits:
  fixes t :: byte
  assumes "t AND 0xD0 = 0xC0"
  shows "t AND 0x80 \<noteq> 0" "t AND 0xEF = t" "t AND 0x40 \<noteq> 0"
proof -
  have b: "bit (t AND 0xD0) n = bit (0xC0 :: byte) n" for n using assms by simp
  have bits: "bit t 7" "bit t 6" "\<not> bit t 4"
    using b [of 7] b [of 6] b [of 4] by (simp_all add: bit_simps)
  have "bit (t AND 0x80) 7" "bit (t AND 0x40) 6" using bits by (simp_all add: bit_simps)
  then show "t AND 0x80 \<noteq> 0" "t AND 0x40 \<noteq> 0" by auto
  show "t AND 0xEF = t"
    by (rule bit_word_eqI) (use bits in \<open>auto simp: bit_simps less_8_cases\<close>)
qed

lemmas t1_unfold =
  t1_decode_def t1_encode_def T1_Block_New_def T1_BLOCK_MAX_SIZE_def Let_def t1_accessors t1_consts

lemma t1_decode_IMsg: "length d \<le> 255 \<Longrightarrow> t1_decode (t1_encode (IMsg ns mbit d)) = Some (IMsg ns mbit d)"
  by (cases d; cases ns; cases mbit) (simp_all add: T1_Block_NewIBlock_def t1_unfold c_simps)

lemma t1_decode_RMsg:
  "t1_msg_wf (RMsg type nr) \<Longrightarrow> t1_decode (t1_encode (RMsg type nr)) = Some (RMsg type nr)"
  by (cases nr) (auto simp: T1_Block_NewRBlock_def t1_unfold)

lemma t1_decode_SMsg:
  "t1_msg_wf (SMsg type d) \<Longrightarrow> t1_decode (t1_encode (SMsg type d)) = Some (SMsg type d)"
  using SMsg_type_bits [of type]
  by (cases d) (auto simp: T1_Block_NewSBlock_def t1_unfold c_simps)

interpretation t1_format: byte_encoder t1_msg_wf t1_encode t1_decode
proof unfold_locales
  show "t1_decode (t1_encode m) = Some m" if "t1_msg_wf m" for m
    using that by (cases m) (auto simp: t1_decode_IMsg t1_decode_RMsg t1_decode_SMsg)
qed

lemma t1_build_data:
  "t1_msg_wf m \<Longrightarrow>
   \<exists>body. t1_data (t1_build m) = body @ [T1_Block_LRC body (length body)] \<and>
          t1_length (t1_build m) = length body + 1 \<and> length body \<le> 258"
  by (cases m)
     (auto simp: T1_Block_NewIBlock_def T1_Block_NewRBlock_def T1_Block_NewSBlock_def Let_def
        c_simps numeral_3_eq_3)

section \<open>Properties\<close>

text \<open>
  (C31) A block built by \<open>T1_Block_NewIBlock\<close>, \<open>T1_Block_NewRBlock\<close> or
  \<open>T1_Block_NewSBlock\<close> is read back by \<open>T1_Block_New\<close> and the accessors as the block
  it was built as (type, sequence number, chaining bit and information field), carries a
  correct LRC and fits the receiver's buffer.
\<close>

theorem t1_block_roundtrip:
  assumes "t1_msg_wf m"
  shows "t1_decode (t1_encode m) = Some m \<and> lrc_ok (t1_encode m) \<and>
         length (t1_encode m) \<le> T1_BLOCK_MAX_SIZE"
proof -
  obtain body where "t1_data (t1_build m) = body @ [T1_Block_LRC body (length body)]"
    and "t1_length (t1_build m) = length body + 1" and "length body \<le> 258"
    using t1_build_data [OF assms] by blast
  then have "lrc_ok (t1_encode m) \<and> length (t1_encode m) \<le> T1_BLOCK_MAX_SIZE"
    using lrc_ok_seal [of body]
    by (simp add: t1_encode_def T1_Block_Raw_def T1_Block_RawLen_def T1_BLOCK_MAX_SIZE_def)
  with t1_format.dec_enc [OF assms] show ?thesis by simp
qed

theorem t1_block_roundtrip_witness:
  "t1_encode (IMsg True True [0x00, 0xA4]) = [0x00, 0x60, 0x02, 0x00, 0xA4, 0xC6] \<and>
   t1_decode (t1_encode (IMsg True True [0x00, 0xA4])) = Some (IMsg True True [0x00, 0xA4])"
proof -
  have "t1_encode (IMsg True True [0x00, 0xA4]) = [0x00, 0x60, 0x02, 0x00, 0xA4, 0xC6]"
    by (simp add: t1_encode_def T1_Block_NewIBlock_def T1_Block_LRC_def t1_accessors t1_consts
        low_byte_def Let_def)
  moreover have "t1_msg_wf (IMsg True True [0x00, 0xA4])" by simp
  ultimately show ?thesis using t1_block_roundtrip by blast
qed

end
