(* ===== verification/ProtocolT1.thy ===== *)
theory ProtocolT1
  imports ProtocolBase T1Block
begin

text \<open>
  The block protocol T=1, \<^verbatim>\<open>src/src/driver/protocol_t1.c\<close>: transmission and reception
  of blocks, chaining in both directions and waiting time extension.
  \<open>PROTOCOL_T1_USE_DEFAULT_TIMINGS\<close> is not set.
\<close>

section \<open>Constants and the handler\<close>

definition PROTOCOL_T1_DEFAULT_IFSC :: nat where "PROTOCOL_T1_DEFAULT_IFSC = 32"
definition PROTOCOL_T1_DEFAULT_IFSD :: nat where "PROTOCOL_T1_DEFAULT_IFSD = 32"
definition PROTOCOL_T1_MAX_IFSC :: nat where "PROTOCOL_T1_MAX_IFSC = 251"
definition PROTOCOL_T1_DEFAULT_CWI :: byte where "PROTOCOL_T1_DEFAULT_CWI = 13"
definition PROTOCOL_T1_DEFAULT_BWI :: byte where "PROTOCOL_T1_DEFAULT_BWI = 4"
definition PROTOCOL_T1_EDC_LRC :: nat where "PROTOCOL_T1_EDC_LRC = 0"

datatype t1_ret =
    PROTOCOL_T1_OK | PROTOCOL_T1_ICC_ERROR | PROTOCOL_T1_ERROR | PROTOCOL_T1_NOT_IMPLEMENTED

record Protocol_T1 =
  t1_icc :: "ICC_Async option"
  ifsc :: nat
  ifsd :: nat
  bgt :: nat
  bwt :: nat
  cwt :: nat
  edc :: nat
  t1_ns :: byte

definition Protocol_T1_Clear :: Protocol_T1 where
  "Protocol_T1_Clear = \<lparr>t1_icc = None, ifsc = 0, ifsd = 0, bgt = 0, bwt = 0, cwt = 0, edc = 0, t1_ns = 0\<rparr>"

definition Protocol_T1_New :: Protocol_T1 where
  "Protocol_T1_New = Protocol_T1_Clear"

definition Protocol_T1_Close :: "Protocol_T1 \<Rightarrow> t1_ret \<times> Protocol_T1" where
  "Protocol_T1_Close t1 = (PROTOCOL_T1_OK, Protocol_T1_Clear)"

text \<open>The loops that compute a power of two in 16 bits.\<close>

fun power_loop :: "nat \<Rightarrow> nat \<Rightarrow> nat" where
  "power_loop 0 x = x"
| "power_loop (Suc n) x = power_loop n (ushort (x * 2))"

text \<open>
  \<open>fl\<close> rounds to \<open>double\<close>; the conversion to 16 bits truncates, and wraps for values
  out of range, which the language leaves open.
\<close>

definition t1_time :: "(rat \<Rightarrow> rat) \<Rightarrow> rat \<Rightarrow> nat \<Rightarrow> nat" where
  "t1_time fl work_etu n = ushort (nat \<lfloor>fl (of_nat n * work_etu)\<rfloor>)"

definition t1_ifsc :: "ATR \<Rightarrow> nat" where
  "t1_ifsc atr =
     min (case ATR_GetInterfaceByte atr 3 ATR_INTERFACE_BYTE_TA of
            Inl _ \<Rightarrow> PROTOCOL_T1_DEFAULT_IFSC
          | Inr ta \<Rightarrow> if ta \<noteq> 0x00 \<and> ta \<noteq> 0xFF then unat ta else PROTOCOL_T1_DEFAULT_IFSC)
       PROTOCOL_T1_MAX_IFSC"

definition Protocol_T1_Init :: "(rat \<Rightarrow> rat) \<Rightarrow> ICC_Async \<Rightarrow> PPS_ProtocolParameters \<Rightarrow> t1_ret \<times> Protocol_T1" where
  "Protocol_T1_Init fl icc params =
     (let atr = the (ICC_Async_GetAtr icc);
          (cwi, bwi) = (case ATR_GetInterfaceByte atr 3 ATR_INTERFACE_BYTE_TB of
             Inl _ \<Rightarrow> (PROTOCOL_T1_DEFAULT_CWI, PROTOCOL_T1_DEFAULT_BWI)
           | Inr tb \<Rightarrow> (tb AND 0x0F, drop_bit 4 (tb AND 0xF0)));
          work_etu = fl (1000 / of_nat (snd (ICC_Async_GetBaudrate icc)));
          c = t1_time fl work_etu (power_loop (unat cwi) 1 + 11);
          b = t1_time fl work_etu (power_loop (unat bwi) 1 * 960 + 11);
          g = t1_time fl work_etu 22;
          e = (case ATR_GetInterfaceByte atr 3 ATR_INTERFACE_BYTE_TC of
             Inl _ \<Rightarrow> PROTOCOL_T1_EDC_LRC | Inr tc \<Rightarrow> unat (tc AND 0x01));
          t = snd (ICC_Async_GetTimings icc);
          t' = t\<lparr>icc_block_timeout := b, icc_char_timeout := c, icc_block_delay := g\<rparr>
      in (PROTOCOL_T1_OK,
          \<lparr>t1_icc = Some (snd (ICC_Async_SetTimings icc t')), ifsc = t1_ifsc atr, ifsd = PROTOCOL_T1_DEFAULT_IFSD,
           bgt = g, bwt = b, cwt = c, edc = e, t1_ns = 1\<rparr>))"

definition Protocol_T1_UpdateBWT :: "Protocol_T1 \<Rightarrow> nat \<Rightarrow> Protocol_T1" where
  "Protocol_T1_UpdateBWT t1 b =
     (let icc = the (t1_icc t1); t = snd (ICC_Async_GetTimings icc)
      in t1\<lparr>t1_icc := Some (snd (ICC_Async_SetTimings icc (t\<lparr>icc_block_timeout := b\<rparr>)))\<rparr>)"

section \<open>Blocks on the line\<close>

definition Protocol_T1_SendBlock :: "'d os \<Rightarrow> Protocol_T1 \<Rightarrow> T1_Block \<Rightarrow> ('d, t1_ret outcome) io" where
  "Protocol_T1_SendBlock os t1 block =
     (let icc = the (t1_icc t1)
      in out_bind (out_lift (ICC_Async_BeginTransmission os icc)) (\<lambda>b.
        if b \<noteq> ICC_ASYNC_OK then out_return PROTOCOL_T1_ICC_ERROR
        else (case bytes_at (T1_Block_Raw block) 0 (T1_Block_RawLen block) of
          None \<Rightarrow> out_fault
        | Some raw \<Rightarrow> out_bind (out_check (ICC_Async_Transmit os icc raw)) (\<lambda>t.
            if t \<noteq> ICC_ASYNC_OK
            then out_bind (out_lift (ICC_Async_EndTransmission os icc)) (\<lambda>_. out_return PROTOCOL_T1_ICC_ERROR)
            else out_return PROTOCOL_T1_OK))))"

text \<open>
  The end of a reception; the block is passed on with the code, \<open>None\<close> for
  \<open>NULL\<close>.
\<close>

definition t1_received ::
    "'d os \<Rightarrow> Protocol_T1 \<Rightarrow> t1_ret \<Rightarrow> T1_Block option \<Rightarrow> ('d, (t1_ret \<times> T1_Block option \<times> Protocol_T1) outcome) io" where
  "t1_received os t1 ret block =
     out_bind (out_lift (ICC_Async_Switch os (the (t1_icc t1)))) (\<lambda>sw.
     out_bind (out_lift (ICC_Async_EndTransmission os (the (t1_icc t1)))) (\<lambda>e.
       out_return (if sw \<noteq> ICC_ASYNC_OK \<or> e \<noteq> ICC_ASYNC_OK then PROTOCOL_T1_ICC_ERROR else ret, block, t1)))"

definition Protocol_T1_ReceiveBlock ::
    "'d os \<Rightarrow> byte list \<Rightarrow> Protocol_T1 \<Rightarrow> ('d, (t1_ret \<times> T1_Block option \<times> Protocol_T1) outcome) io" where
  "Protocol_T1_ReceiveBlock os stack t1 =
     out_bind (icc_receive os (the (t1_icc t1)) 4 stack 0) (\<lambda>r. case r of
       None \<Rightarrow> t1_received os t1 PROTOCOL_T1_ICC_ERROR None
     | Some buffer \<Rightarrow>
         if buffer ! 2 \<noteq> 0x00 then
           let t1' = Protocol_T1_UpdateBWT t1 (cwt t1)
           in out_bind (icc_receive os (the (t1_icc t1')) (unat (buffer ! 2)) buffer 4) (\<lambda>r2.
                let t1'' = Protocol_T1_UpdateBWT t1' (bwt t1')
                in case r2 of
                     None \<Rightarrow> t1_received os t1'' PROTOCOL_T1_ICC_ERROR None
                   | Some buffer' \<Rightarrow> t1_received os t1'' PROTOCOL_T1_OK (T1_Block_New buffer' (unat (buffer' ! 2) + 4)))
         else t1_received os t1 PROTOCOL_T1_OK (T1_Block_New buffer 4))"

section \<open>Commands\<close>

text \<open>
  Sending the I-block of \<open>bytes\<close> bytes at \<open>counter\<close>, with the sequence number the
  handler has.
\<close>

definition t1_send_part :: "'d os \<Rightarrow> Protocol_T1 \<Rightarrow> APDU_Cmd \<Rightarrow> nat \<Rightarrow> nat \<Rightarrow> bool \<Rightarrow> ('d, t1_ret outcome) io" where
  "t1_send_part os t1 cmd counter bytes mbit =
     (case bytes_at (APDU_Cmd_Raw cmd) counter bytes of
        None \<Rightarrow> out_fault
      | Some info \<Rightarrow> Protocol_T1_SendBlock os t1 (T1_Block_NewIBlock (low_byte bytes) info (t1_ns t1) mbit))"

definition t1_toggle :: "Protocol_T1 \<Rightarrow> Protocol_T1" where
  "t1_toggle t1 = t1\<lparr>t1_ns := (t1_ns t1 + 1) mod 2\<rparr>"

text \<open>The loop that sends the rest of a chained command; \<open>counter\<close> has 16 bits.\<close>

fun t1_send_loop ::
    "nat \<Rightarrow> 'd os \<Rightarrow> byte list \<Rightarrow> Protocol_T1 \<Rightarrow> APDU_Cmd \<Rightarrow> nat \<Rightarrow> nat \<Rightarrow> bool \<Rightarrow> t1_ret \<Rightarrow> ('d, (t1_ret \<times> Protocol_T1) outcome) io" where
  "t1_send_loop 0 os stack t1 cmd counter bytes mbit ret = State_Monad.return Runs_on"
| "t1_send_loop (Suc fuel) os stack t1 cmd counter bytes mbit ret =
     (if ret = PROTOCOL_T1_OK \<and> mbit then
        out_bind (Protocol_T1_ReceiveBlock os stack t1) (\<lambda>(ret1, block, t1a).
          if ret1 \<noteq> PROTOCOL_T1_OK then out_return (PROTOCOL_T1_NOT_IMPLEMENTED, t1a)
          else (case block of
            None \<Rightarrow> out_fault
          | Some blk \<Rightarrow>
              if T1_Block_GetType blk = T1_BLOCK_R_OK then
                let t1b = t1_toggle t1a;
                    counter' = ushort (counter + bytes);
                    bytes' = min (APDU_Cmd_RawLen cmd - counter') (ifsc t1b);
                    mbit' = (APDU_Cmd_RawLen cmd - counter' > ifsc t1b)
                in out_bind (t1_send_part os t1b cmd counter' bytes' mbit') (\<lambda>ret2.
                     t1_send_loop fuel os stack t1b cmd counter' bytes' mbit' ret2)
              else out_return (PROTOCOL_T1_NOT_IMPLEMENTED, t1a)))
      else out_return (ret, t1))"

text \<open>
  \<open>realloc\<close> keeps the old contents and adds memory with contents \<open>0\<close> here, which the
  copy that follows overwrites.
\<close>

definition t1_append :: "byte list \<Rightarrow> nat \<Rightarrow> byte list \<Rightarrow> byte list option" where
  "t1_append buffer counter info =
     memcpy_at (take (counter + length info) buffer @ replicate (counter + length info - length buffer) 0) counter info"

text \<open>
  The loop that receives the response: I-blocks are collected and acknowledged while more
  are announced, a request for more time is granted for the next block.
\<close>

fun t1_receive_loop ::
    "nat \<Rightarrow> 'd os \<Rightarrow> byte list \<Rightarrow> Protocol_T1 \<Rightarrow> byte list \<Rightarrow> nat \<Rightarrow> byte \<Rightarrow> bool \<Rightarrow> t1_ret \<Rightarrow>
     ('d, (t1_ret \<times> byte list \<times> nat \<times> Protocol_T1) outcome) io" where
  "t1_receive_loop 0 os stack t1 buffer counter wtx mbit ret = State_Monad.return Runs_on"
| "t1_receive_loop (Suc fuel) os stack t1 buffer counter wtx mbit ret =
     (if ret = PROTOCOL_T1_OK \<and> mbit then
        let t1a = (if wtx > 1 then Protocol_T1_UpdateBWT t1 (ushort (unat wtx * bwt t1)) else t1)
        in out_bind (Protocol_T1_ReceiveBlock os stack t1a) (\<lambda>(ret1, block, t1b).
          let t1c = (if wtx > 1 then Protocol_T1_UpdateBWT t1b (bwt t1b) else t1b);
              wtx' = (if wtx > 1 then 0 else wtx)
          in if ret1 \<noteq> PROTOCOL_T1_OK then out_return (ret1, buffer, counter, t1c)
             else (case block of
               None \<Rightarrow> out_fault
             | Some blk \<Rightarrow>
                 if T1_Block_GetType blk = T1_BLOCK_I then
                   let nr = (T1_Block_GetNS blk + 1) mod 2; bytes = unat (T1_Block_GetLen blk)
                   in case Option.bind (if bytes = 0 then Some [] else Option.bind (T1_Block_GetInf blk) (\<lambda>q. bytes_at q 0 bytes))
                             (t1_append buffer counter) of
                        None \<Rightarrow> out_fault
                      | Some buffer' \<Rightarrow>
                          let counter' = ushort (counter + bytes); mbit' = T1_Block_GetMore blk
                          in if mbit' then
                               out_bind (Protocol_T1_SendBlock os t1c (T1_Block_NewRBlock T1_BLOCK_R_OK nr)) (\<lambda>ret2.
                                 t1_receive_loop fuel os stack t1c buffer' counter' wtx' mbit' ret2)
                             else t1_receive_loop fuel os stack t1c buffer' counter' wtx' mbit' ret1
                 else if T1_Block_GetType blk = T1_BLOCK_S_WTX_REQ then
                   (case T1_Block_GetInf blk of
                      None \<Rightarrow> out_fault
                    | Some info \<Rightarrow>
                        out_bind (Protocol_T1_SendBlock os t1c (T1_Block_NewSBlock T1_BLOCK_S_WTX_RES 1 [info ! 0])) (\<lambda>ret2.
                          t1_receive_loop fuel os stack t1c buffer counter (info ! 0) mbit ret2))
                 else out_return (PROTOCOL_T1_NOT_IMPLEMENTED, buffer, counter, t1c)))
      else out_return (ret, buffer, counter, t1))"

text \<open>What the function leaves in \<open>*rsp\<close>: nothing, \<open>NULL\<close> or a new response.\<close>

datatype t1_rsp = T1_Unset | T1_Null | T1_Rsp APDU_Rsp

definition Protocol_T1_Command ::
    "nat \<Rightarrow> 'd os \<Rightarrow> byte list \<Rightarrow> Protocol_T1 \<Rightarrow> APDU_Cmd \<Rightarrow> ('d, (t1_ret \<times> t1_rsp \<times> Protocol_T1) outcome) io" where
  "Protocol_T1_Command fuel os stack t1 cmd =
     (let bytes = min (APDU_Cmd_RawLen cmd) (ifsc t1);
          mbit = (APDU_Cmd_RawLen cmd > ifsc t1);
          t1a = t1_toggle t1
      in out_bind (t1_send_part os t1a cmd 0 bytes mbit) (\<lambda>ret.
         out_bind (t1_send_loop fuel os stack t1a cmd 0 bytes mbit ret) (\<lambda>(ret1, t1b).
         out_bind (t1_receive_loop fuel os stack t1b [] 0 0 True ret1) (\<lambda>(ret2, buffer, counter, t1c).
           out_return (ret2,
             if ret2 = PROTOCOL_T1_OK
             then (case APDU_Rsp_New buffer counter of None \<Rightarrow> T1_Null | Some r \<Rightarrow> T1_Rsp r) else T1_Unset, t1c)))))"

section \<open>The handler between blocks\<close>

text \<open>
  Between blocks the card's timeouts are the block and the character waiting time, and the
  information field size leaves room for the rest of a block in one transmission.
\<close>

definition t1_ready :: "Protocol_T1 \<Rightarrow> bool" where
  "t1_ready t1 \<longleftrightarrow>
     (\<exists>icc. t1_icc t1 = Some icc \<and> icc_block_timeout (timings icc) = bwt t1 \<and> icc_char_timeout (timings icc) = cwt t1) \<and>
     1 \<le> ifsc t1 \<and> ifsc t1 \<le> PROTOCOL_T1_MAX_IFSC"

lemma t1_ifsc_bounds: "1 \<le> t1_ifsc atr \<and> t1_ifsc atr \<le> PROTOCOL_T1_MAX_IFSC"
proof -
  have "0 < unat ta" if "ta \<noteq> 0" for ta :: byte using that by (simp add: unat_gt_0)
  then show ?thesis
    by (auto simp: t1_ifsc_def PROTOCOL_T1_DEFAULT_IFSC_def PROTOCOL_T1_MAX_IFSC_def Suc_le_eq split: sum.split)
qed

lemma Protocol_T1_Init_ready: "t1_ready (snd (Protocol_T1_Init fl icc params))"
  using t1_ifsc_bounds
  by (auto simp: t1_ready_def Protocol_T1_Init_def ICC_Async_SetTimings_def ICC_Async_GetTimings_def Let_def split: prod.splits)

lemma UpdateBWT_sel [simp]:
  "bwt (Protocol_T1_UpdateBWT t1 b) = bwt t1" "cwt (Protocol_T1_UpdateBWT t1 b) = cwt t1"
  "Protocol_T1_UpdateBWT (Protocol_T1_UpdateBWT t1 a) b = Protocol_T1_UpdateBWT t1 b"
  by (simp_all add: Protocol_T1_UpdateBWT_def ICC_Async_SetTimings_def ICC_Async_GetTimings_def Let_def)

lemma UpdateBWT_restores [simp]: "t1_ready t1 \<Longrightarrow> Protocol_T1_UpdateBWT t1 (bwt t1) = t1"
  by (auto simp: t1_ready_def Protocol_T1_UpdateBWT_def ICC_Async_SetTimings_def ICC_Async_GetTimings_def Let_def)

lemma toggle_ready [simp]: "t1_ready (t1_toggle t1) = t1_ready t1"
  and toggle_sel [simp]: "ifsc (t1_toggle t1) = ifsc t1" "bwt (t1_toggle t1) = bwt t1"
  by (simp_all add: t1_ready_def t1_toggle_def)

text \<open>A received block is as long as its length byte says.\<close>

definition t1_block_wf :: "T1_Block \<Rightarrow> bool" where
  "t1_block_wf blk \<longleftrightarrow> length (t1_data blk) = t1_length blk \<and> t1_length blk = unat (T1_Block_GetLen blk) + 4"

lemma T1_Block_New_wf:
  assumes "length buffer = T1_BLOCK_MAX_SIZE"
  shows "\<exists>blk. T1_Block_New buffer (unat (buffer ! 2) + 4) = Some blk \<and> t1_block_wf blk"
proof -
  have "unat (buffer ! 2) + 4 \<le> 259" using unat_byte_le [of "buffer ! 2"] by linarith
  then show ?thesis using assms by (simp add: T1_Block_New_def t1_block_wf_def T1_Block_GetLen_def T1_BLOCK_MAX_SIZE_def Let_def)
qed

text \<open>
  Reception changes nothing but the block timeout, and leaves that as it was or as the
  block waiting time.
\<close>

definition t1_after_receive :: "Protocol_T1 \<Rightarrow> t1_ret \<times> T1_Block option \<times> Protocol_T1 \<Rightarrow> bool" where
  "t1_after_receive t1 = (\<lambda>(ret, block, t1').
     (t1' = t1 \<or> t1' = Protocol_T1_UpdateBWT t1 (bwt t1)) \<and>
     (ret = PROTOCOL_T1_OK \<longrightarrow> (\<exists>blk. block = Some blk \<and> t1_block_wf blk)))"

lemma gives_received:
  assumes "t1' = t1 \<or> t1' = Protocol_T1_UpdateBWT t1 (bwt t1)" "ret = PROTOCOL_T1_OK \<Longrightarrow> \<exists>blk. block = Some blk \<and> t1_block_wf blk"
  shows "gives (t1_received os t1' ret block) (t1_after_receive t1)"
  unfolding t1_received_def
  by (intro gives_bind [OF gives_lift] yields_return) (use assms in \<open>auto simp: t1_after_receive_def\<close>)

lemma gives_ReceiveBlock:
  assumes "length stack = T1_BLOCK_MAX_SIZE"
  shows "gives (Protocol_T1_ReceiveBlock os stack t1) (t1_after_receive t1)"
  unfolding Protocol_T1_ReceiveBlock_def
proof (rule gives_bind [OF gives_icc_receive], goal_cases)
  case (3 r)
  show ?case
  proof (cases r)
    case (Some buffer)
    then have len: "length buffer = T1_BLOCK_MAX_SIZE" using 3 assms by simp
    show ?thesis
      unfolding Some option.case Let_def
    proof (intro yields_if, goal_cases)
      case 1
      then have pos: "0 < unat (buffer ! 2)" by (simp add: unat_gt_0)
      have le: "4 + unat (buffer ! 2) \<le> length buffer" using unat_byte_le [of "buffer ! 2"] len by (simp add: T1_BLOCK_MAX_SIZE_def)
      show ?case
        by (rule gives_bind [OF gives_icc_receive [OF disjI1 [OF pos] le]])
           (use len T1_Block_New_wf in \<open>auto split: option.split intro!: gives_received\<close>)
    next
      case 2
      then have "unat (buffer ! 2) = 0" by simp
      then show ?case using T1_Block_New_wf [OF len] by (intro gives_received) auto
    qed
  qed (auto intro!: gives_received)
qed (use assms in \<open>auto simp: T1_BLOCK_MAX_SIZE_def\<close>)

lemma ready_after_receive: "t1_ready t1 \<Longrightarrow> t1_after_receive t1 (ret, block, t1') \<Longrightarrow> t1' = t1"
  by (auto simp: t1_after_receive_def)

lemma gives_SendBlock:
  assumes "length (T1_Block_Raw block) = T1_Block_RawLen block" "T1_Block_RawLen block \<le> 255"
  shows "gives (Protocol_T1_SendBlock os t1 block) (\<lambda>_. True)"
proof -
  obtain raw where raw: "bytes_at (T1_Block_Raw block) 0 (T1_Block_RawLen block) = Some raw" "length raw \<le> 255"
    using bytes_at_total [of 0 "T1_Block_RawLen block" "T1_Block_Raw block"] assms by auto
  show ?thesis
    unfolding Protocol_T1_SendBlock_def Let_def raw(1) option.case
    by (intro gives_bind [OF gives_lift] gives_bind [OF gives_Transmit [OF raw(2)]] yields_if yields_return) simp_all
qed

lemma gives_send_part:
  assumes "counter + bytes \<le> length (APDU_Cmd_Raw cmd)" "bytes \<le> PROTOCOL_T1_MAX_IFSC"
  shows "gives (t1_send_part os t1 cmd counter bytes mbit) (\<lambda>_. True)"
proof -
  obtain info where info: "bytes_at (APDU_Cmd_Raw cmd) counter bytes = Some info" "length info = bytes"
    using bytes_at_total [OF assms(1)] by blast
  then show ?thesis
    using assms(2) unfolding t1_send_part_def info(1) option.case
    by (intro gives_SendBlock) (simp_all add: T1_Block_NewIBlock_def Let_def T1_Block_Raw_def T1_Block_RawLen_def c_simps PROTOCOL_T1_MAX_IFSC_def)
qed

section \<open>Chaining\<close>

text \<open>
  The reference for sending: every segment goes out as an I-block with the alternating
  sequence number and, except the last, the chaining bit; the next one follows a positive
  acknowledgement.
\<close>

fun t1_chain ::
    "'d os \<Rightarrow> byte list \<Rightarrow> Protocol_T1 \<Rightarrow> byte list list \<Rightarrow> ('d, (t1_ret \<times> Protocol_T1) outcome) io" where
  "t1_chain os stack t1 [] = out_return (PROTOCOL_T1_OK, t1)"
| "t1_chain os stack t1 (seg # segs) =
     (let t1a = t1_toggle t1
      in out_bind (Protocol_T1_SendBlock os t1a (t1_build (IMsg (t1_ns t1 \<noteq> 1) (segs \<noteq> []) seg))) (\<lambda>ret.
           if ret = PROTOCOL_T1_OK \<and> segs \<noteq> [] then
             out_bind (Protocol_T1_ReceiveBlock os stack t1a) (\<lambda>(ret1, block, t1b).
               if ret1 \<noteq> PROTOCOL_T1_OK then out_return (PROTOCOL_T1_NOT_IMPLEMENTED, t1b)
               else (case block of
                 None \<Rightarrow> out_fault
               | Some blk \<Rightarrow>
                   if T1_Block_GetType blk = T1_BLOCK_R_OK then t1_chain os stack t1b segs
                   else out_return (PROTOCOL_T1_NOT_IMPLEMENTED, t1b)))
           else out_return (ret, t1a)))"

lemma toggle_ns: "t1_ns t1 \<in> {0, 1} \<Longrightarrow> t1_ns (t1_toggle t1) = of_bool (t1_ns t1 \<noteq> 1)"
  by (auto simp: t1_toggle_def)

lemma send_loop_chain:
  assumes "length stack = T1_BLOCK_MAX_SIZE" "apdu_cmd_wf cmd" "APDU_Cmd_RawLen cmd < 65536"
    and "t1_ready t1" "t1_ns t1 \<in> {0, 1}" "c < APDU_Cmd_RawLen cmd" "APDU_Cmd_RawLen cmd - c \<le> fuel"
    and "bytes = min (APDU_Cmd_RawLen cmd - c) (ifsc t1)" "mbit = (APDU_Cmd_RawLen cmd - c > ifsc t1)"
  shows "out_bind (t1_send_part os (t1_toggle t1) cmd c bytes mbit) (\<lambda>ret.
           t1_send_loop fuel os stack (t1_toggle t1) cmd c bytes mbit ret) =
         t1_chain os stack t1 (chunks (ifsc t1) (drop c (APDU_Cmd_Raw cmd)))"
  using assms(4-9)
proof (induction fuel arbitrary: t1 c bytes mbit)
  case (Suc fuel)
  let ?raw = "APDU_Cmd_Raw cmd" and ?n = "ifsc t1"
  have len: "length ?raw = APDU_Cmd_RawLen cmd" using assms(2) by (simp add: apdu_cmd_wf_def APDU_Cmd_Raw_def APDU_Cmd_RawLen_def)
  have n: "0 < ?n" "?n \<le> 251" using Suc.prems(1) by (auto simp: t1_ready_def PROTOCOL_T1_MAX_IFSC_def)
  have chunks: "chunks ?n (drop c ?raw) = take ?n (drop c ?raw) # chunks ?n (drop (c + ?n) ?raw)"
    using Suc.prems(3) n(1) by (intro chunks_drop) (simp_all add: len)
  have more: "chunks ?n (drop (c + ?n) ?raw) \<noteq> [] \<longleftrightarrow> mbit"
    using n(1) Suc.prems(6) by (auto simp: chunks_Nil_iff len)
  have part: "t1_send_part os (t1_toggle t1) cmd c bytes mbit =
      Protocol_T1_SendBlock os (t1_toggle t1) (t1_build (IMsg (t1_ns t1 \<noteq> 1) mbit (take ?n (drop c ?raw))))"
  proof -
    have "bytes_at ?raw c bytes = Some (take ?n (drop c ?raw))" "length (take ?n (drop c ?raw)) = bytes"
      using Suc.prems(3,5) by (auto simp: bytes_at_def len min_def)
    then show ?thesis using toggle_ns [OF Suc.prems(2)] by (simp add: t1_send_part_def)
  qed
  have go_on: "out_bind (t1_send_part os (t1_toggle t1b) cmd (ushort (c + bytes)) b' m') (\<lambda>ret2.
        t1_send_loop fuel os stack (t1_toggle t1b) cmd (ushort (c + bytes)) b' m' ret2) =
      t1_chain os stack t1b (chunks ?n (drop (c + ?n) ?raw))"
    if "mbit" "t1b = t1_toggle t1" "b' = min (APDU_Cmd_RawLen cmd - ushort (c + bytes)) ?n"
      "m' = (APDU_Cmd_RawLen cmd - ushort (c + bytes) > ?n)" for t1b b' m'
  proof -
    have c': "ushort (c + bytes) = c + ?n" "c + ?n < APDU_Cmd_RawLen cmd" using that(1) Suc.prems(3,5,6) assms(3) by (auto simp: min_def)
    have "t1_ns t1b \<in> {0, 1}" using that(2) toggle_ns [OF Suc.prems(2)] by simp
    then show ?thesis
      using Suc.IH [of t1b "c + ?n" b' m'] that(2-4) Suc.prems(1,4) c' n(1) by simp
  qed
  have step: "t1_send_loop (Suc fuel) os stack (t1_toggle t1) cmd c bytes mbit ret =
      (if ret = PROTOCOL_T1_OK \<and> mbit then
         out_bind (Protocol_T1_ReceiveBlock os stack (t1_toggle t1)) (\<lambda>(ret1, block, t1b).
           if ret1 \<noteq> PROTOCOL_T1_OK then out_return (PROTOCOL_T1_NOT_IMPLEMENTED, t1b)
           else (case block of None \<Rightarrow> out_fault | Some blk \<Rightarrow>
             if T1_Block_GetType blk = T1_BLOCK_R_OK then t1_chain os stack t1b (chunks ?n (drop (c + ?n) ?raw))
             else out_return (PROTOCOL_T1_NOT_IMPLEMENTED, t1b)))
       else out_return (ret, t1_toggle t1))" for ret
    unfolding t1_send_loop.simps
    by (intro if_cong refl out_bind_cong_gives [OF gives_ReceiveBlock [OF assms(1)]])
       (use go_on Suc.prems(1) in \<open>auto simp: Let_def split: prod.split option.split dest!: ready_after_receive [rotated]\<close>)
  show ?case
    unfolding chunks t1_chain.simps Let_def more part step by (rule refl)
qed simp

text \<open>
  (C6) A command of less than 65536 bytes (the driver counts in 16 bits), given to a handler
  ready for it, is sent as the I-blocks of its segments: the command is cut every
  \<open>ifsc\<close> bytes, so that all segments but the last have exactly this size, the
  sequence number alternates from block to block and all but the last announce another
  one.  Sending ends after at most one turn of the loop per byte; what follows is the
  reception of the response.
\<close>

theorem Protocol_T1_Command_chains:
  assumes "length stack = 259" "apdu_cmd_wf cmd" "APDU_Cmd_RawLen cmd < 65536" "t1_ready t1" "t1_ns t1 \<in> {0, 1}"
    "APDU_Cmd_RawLen cmd \<le> fuel"
  shows "concat (chunks (ifsc t1) (APDU_Cmd_Raw cmd)) = APDU_Cmd_Raw cmd \<and>
    (\<forall>seg \<in> set (butlast (chunks (ifsc t1) (APDU_Cmd_Raw cmd))). length seg = ifsc t1) \<and>
    Protocol_T1_Command fuel os stack t1 cmd =
      out_bind (t1_chain os stack t1 (chunks (ifsc t1) (APDU_Cmd_Raw cmd))) (\<lambda>(ret1, t1b).
      out_bind (t1_receive_loop fuel os stack t1b [] 0 0 True ret1) (\<lambda>(ret2, buffer, counter, t1c).
        out_return (ret2,
          if ret2 = PROTOCOL_T1_OK
          then (case APDU_Rsp_New buffer counter of None \<Rightarrow> T1_Null | Some r \<Rightarrow> T1_Rsp r) else T1_Unset, t1c)))"
proof -
  have assoc: "out_bind (out_bind m f) g = out_bind m (\<lambda>a. out_bind (f a) g)" for m f g
    by (rule state.expand, rule ext) (auto split: prod.split outcome.split)
  have pos: "0 < APDU_Cmd_RawLen cmd" using assms(2) by (simp add: apdu_cmd_wf_def apdu_sizes APDU_Cmd_RawLen_def)
  have n: "0 < ifsc t1" using assms(4) by (auto simp: t1_ready_def)
  note chain = send_loop_chain [OF _ assms(2,3,4,5) pos, where fuel = fuel and stack = stack and os = os, simplified,
    OF _ assms(6) refl refl]
  show ?thesis
    using chunks_props [OF n, of "APDU_Cmd_Raw cmd"] chunks_butlast [OF n, of "APDU_Cmd_Raw cmd"] assms(1) chain
    by (simp add: Protocol_T1_Command_def Let_def assoc [symmetric] T1_BLOCK_MAX_SIZE_def)
qed

text \<open>A card with default parameters.\<close>

definition sample_t1 :: Protocol_T1 where
  "sample_t1 = snd (Protocol_T1_Init id
     (ICC_Async_Clear\<lparr>icc_ifd := Some IFD_Towitoko_Clear, icc_atr := Some blank_ATR, baudrate := 9600\<rparr>)
     \<lparr>pps_f = 372, pps_d = 1, pps_n = 0, pps_t = 1\<rparr>)"

lemma sample_t1_ready: "t1_ready sample_t1" "t1_ns sample_t1 = 1"
  using Protocol_T1_Init_ready by (simp_all add: sample_t1_def) (simp add: Protocol_T1_Init_def Let_def split: prod.split)

text \<open>Sending a block over the scripted line at the default rate.\<close>

definition script_card :: "nat \<Rightarrow> ICC_Async" where
  "script_card b = ICC_Async_Clear\<lparr>icc_ifd := Some IFD_Towitoko_Clear, icc_atr := Some blank_ATR, baudrate := b\<rparr>"

lemma script_SendBlock:
  assumes "t1_icc t1 = Some (script_card 9600)" "props (p_io p) = Some default_properties"
    "bytes_at (T1_Block_Raw blk) 0 (T1_Block_RawLen blk) = Some raw" "raw \<noteq> []" "length raw \<le> 255"
  shows "run_state (Protocol_T1_SendBlock script_os t1 blk) p =
    (Returns PROTOCOL_T1_OK, exchange raw (exchange (transmit_header IFD_Towitoko_Clear False (length raw)) p))"
proof -
  have "length raw = min (length raw) IFD_TOWITOKO_MAX_TRANSMIT" using assms(5) by (simp add: IFD_TOWITOKO_MAX_TRANSMIT_def)
  moreover have "0 < length raw" using assms(4) by simp
  ultimately have "run_state (ICC_Async_Transmit script_os (script_card 9600) raw) p =
      (Some ICC_ASYNC_OK, exchange raw (exchange (transmit_header IFD_Towitoko_Clear False (length raw)) p))"
    using assms(2,4)
    by (simp add: ICC_Async_Transmit_def script_card_def ICC_Async_Clear_def IFD_Towitoko_Transmit_def transmit_loop_turn transmit_loop_end
        transmit_data_def bytes_at_def ifd_eval IFD_Towitoko_Clear_def IFD_TOWITOKO_KARTENZWERG_def transmit_header_def sealed_def Let_def)
  moreover have "run_state (ICC_Async_BeginTransmission script_os (script_card 9600)) p = (ICC_ASYNC_OK, p)"
    using assms(2) by (simp add: script_card_def ICC_Async_Clear_def ICC_Async_BeginTransmission_def IFD_Towitoko_SetBaudrate_def
        IFD_Towitoko_GetMaxBaudrate_def ifd_eval)
  ultimately show ?thesis using assms(1,3) by (simp add: Protocol_T1_SendBlock_def Let_def)
qed

text \<open>
  A command of five bytes to a card with an information field size of three: two blocks go
  out, the second after the acknowledgement of the first, and the response comes back.
\<close>

definition small_t1 :: Protocol_T1 where
  "small_t1 = Protocol_T1_Clear\<lparr>t1_icc := Some (script_card 9600), ifsc := 3\<rparr>"

definition sample_chained :: APDU_Cmd where
  "sample_chained = \<lparr>command = [0x00, 0xB0, 0x00, 0x00, 0x02], cmd_length = 5\<rparr>"

lemma Protocol_T1_Command_chains_witness:
  "\<exists>t1' p'. run_state (Protocol_T1_Command 5 script_os (replicate 259 0) small_t1 sample_chained)
      (script_port [[], [0x00, 0x90, 0x00, 0x90], [], [0x00, 0x00, 0x02, 0x90, 0x00, 0x92]] (Some default_properties)) =
        (Returns (PROTOCOL_T1_OK, T1_Rsp \<lparr>response = [0x90, 0x00], rsp_length = 2\<rparr>, t1'), p') \<and>
     sc_wire (p_dev p') =
       transmit_header IFD_Towitoko_Clear False 7 @ t1_data (t1_build (IMsg True True [0x00, 0xB0, 0x00])) @
       transmit_header IFD_Towitoko_Clear False 6 @ t1_data (t1_build (IMsg False False [0x00, 0x02]))"
proof -
  let ?p = "script_port [[], [0x00, 0x90, 0x00, 0x90], [], [0x00, 0x00, 0x02, 0x90, 0x00, 0x92]] (Some default_properties)"
  have "apdu_cmd_wf sample_chained" "APDU_Cmd_RawLen sample_chained = 5" "t1_ready small_t1" "t1_ns small_t1 = 0" "ifsc small_t1 = 3"
    "APDU_Cmd_Raw sample_chained = [0x00, 0xB0, 0x00, 0x00, 0x02]"
    by (simp_all add: sample_chained_def apdu_cmd_wf_def apdu_sizes APDU_Cmd_RawLen_def APDU_Cmd_Raw_def small_t1_def t1_ready_def
        script_card_def Protocol_T1_Clear_def ICC_Async_Clear_def PROTOCOL_T1_MAX_IFSC_def)
  then have cmd: "Protocol_T1_Command 5 script_os (replicate 259 0) small_t1 sample_chained =
      out_bind (t1_chain script_os (replicate 259 0) small_t1 [[0x00, 0xB0, 0x00], [0x00, 0x02]]) (\<lambda>(ret1, t1b).
      out_bind (t1_receive_loop 5 script_os (replicate 259 0) t1b [] 0 0 True ret1) (\<lambda>(ret2, buffer, counter, t1c).
        out_return (ret2,
          if ret2 = PROTOCOL_T1_OK
          then (case APDU_Rsp_New buffer counter of None \<Rightarrow> T1_Null | Some r \<Rightarrow> T1_Rsp r) else T1_Unset, t1c)))"
    using Protocol_T1_Command_chains [of "replicate 259 0" sample_chained small_t1 5 script_os] by (simp add: chunks.simps)
  let ?t = "t1_toggle small_t1" and ?b1 = "t1_build (IMsg True True [0x00, 0xB0, 0x00])" and ?b2 = "t1_build (IMsg False False [0x00, 0x02])"
  have raw: "bytes_at (T1_Block_Raw ?b1) 0 (T1_Block_RawLen ?b1) = Some (t1_data ?b1)" "length (t1_data ?b1) = 7"
      "bytes_at (T1_Block_Raw ?b2) 0 (T1_Block_RawLen ?b2) = Some (t1_data ?b2)" "length (t1_data ?b2) = 6"
    by (simp_all add: T1_Block_NewIBlock_def T1_Block_Raw_def T1_Block_RawLen_def low_byte_def bytes_at_def Let_def)
  then have ne: "t1_data ?b1 \<noteq> []" "t1_data ?b2 \<noteq> []" by auto
  let ?h = "transmit_header IFD_Towitoko_Clear False"
  let ?p1 = "exchange (t1_data ?b1) (exchange (?h 7) ?p)"
  let ?p2 = "set_rx [] ?p1"
  let ?p3 = "exchange (t1_data ?b2) (exchange (?h 6) ?p2)"
  have cached: "props (p_io ?p) = Some default_properties" by (simp add: script_port_def)
  have icc: "t1_icc ?t = Some (script_card 9600)" "t1_icc (t1_toggle ?t) = Some (script_card 9600)"
    by (simp_all add: t1_toggle_def small_t1_def)
  have s1: "run_state (Protocol_T1_SendBlock script_os ?t ?b1) ?p = (Returns PROTOCOL_T1_OK, ?p1)"
    using script_SendBlock [OF icc(1) cached raw(1) ne(1)] raw(2) by simp
  have s2: "run_state (Protocol_T1_SendBlock script_os (t1_toggle ?t) ?b2) ?p2 = (Returns PROTOCOL_T1_OK, ?p3)"
    using script_SendBlock [OF icc(2) _ raw(3) ne(2), of ?p2] cached raw(4) by simp
  have rx: "sc_rx (p_dev ?p1) = [0x00, 0x90, 0x00, 0x90]" "sc_rx (p_dev ?p3) = [0x00, 0x00, 0x02, 0x90, 0x00, 0x92]"
    by (simp_all add: script_port_def)
  have card: "icc_ifd (script_card b) = Some IFD_Towitoko_Clear" "convention (script_card b) = ATR_CONVENTION_DIRECT" "baudrate (script_card b) = b" for b
    by (simp_all add: script_card_def ICC_Async_Clear_def)
  have k: "ifd_type IFD_Towitoko_Clear \<noteq> IFD_TOWITOKO_KARTENZWERG" by (simp add: IFD_Towitoko_Clear_def IFD_TOWITOKO_KARTENZWERG_def)
  have r1: "run_state (Protocol_T1_ReceiveBlock script_os (replicate 259 0) ?t) ?p1 =
      (Returns (PROTOCOL_T1_OK, Some \<lparr>t1_data = [0x00, 0x90, 0x00, 0x90], t1_length = 4\<rparr>, ?t), ?p2)"
    using rx(1) by (simp add: Protocol_T1_ReceiveBlock_def icc_receive_def script_Receive [OF card(1) k card(2)] icc card
        memcpy_at_def t1_received_def ICC_Async_Switch_def ICC_Async_EndTransmission_def
        ICC_ASYNC_BAUDRATE_def T1_Block_New_def T1_BLOCK_MAX_SIZE_def Let_def del: exchange_sel)
  obtain icc' where icc': "t1_icc (Protocol_T1_UpdateBWT (t1_toggle ?t) (cwt small_t1)) = Some icc'" "icc_ifd icc' = Some IFD_Towitoko_Clear"
      "convention icc' = ATR_CONVENTION_DIRECT"
    using icc(2) card by (simp add: Protocol_T1_UpdateBWT_def ICC_Async_SetTimings_def ICC_Async_GetTimings_def Let_def)
  obtain icc'' where icc'': "t1_icc (Protocol_T1_UpdateBWT (t1_toggle ?t) (bwt small_t1)) = Some icc''"
      "convention icc'' = ATR_CONVENTION_DIRECT" "baudrate icc'' = 9600"
    using icc(2) card by (simp add: Protocol_T1_UpdateBWT_def ICC_Async_SetTimings_def ICC_Async_GetTimings_def Let_def)
  have tog: "cwt (t1_toggle ?t) = cwt small_t1" "bwt (Protocol_T1_UpdateBWT (t1_toggle ?t) (cwt small_t1)) = bwt small_t1"
    by (simp_all add: t1_toggle_def Protocol_T1_UpdateBWT_def Let_def)
  let ?blk = "\<lparr>t1_data = [0x00, 0x00, 0x02, 0x90, 0x00, 0x92], t1_length = 6\<rparr>"
  obtain t1' where r2: "run_state (Protocol_T1_ReceiveBlock script_os (replicate 259 0) (t1_toggle ?t)) ?p3 =
      (Returns (PROTOCOL_T1_OK, Some ?blk, t1'), set_rx [] ?p3)"
    using rx(2) by (simp add: Protocol_T1_ReceiveBlock_def icc_receive_def script_Receive [OF card(1) k card(2)] icc card
        script_Receive [OF icc'(2) k icc'(3)] icc' icc'' tog memcpy_at_def t1_received_def ICC_Async_Switch_def ICC_Async_EndTransmission_def
        ICC_ASYNC_BAUDRATE_def T1_Block_New_def T1_BLOCK_MAX_SIZE_def Let_def del: exchange_sel)
  have ns: "t1_ns small_t1 = 0" "t1_ns ?t = 1" by (simp_all add: small_t1_def Protocol_T1_Clear_def t1_toggle_def)
  have ty: "T1_Block_GetType \<lparr>t1_data = [0x00, 0x90, 0x00, 0x90], t1_length = 4\<rparr> = T1_BLOCK_R_OK" "T1_Block_GetType ?blk = T1_BLOCK_I"
      "T1_Block_GetLen ?blk = 2" "\<not> T1_Block_GetMore ?blk" "T1_Block_GetInf ?blk = Some [0x90, 0x00, 0x92]"
    by (simp_all add: T1_Block_GetType_def T1_Block_GetLen_def T1_Block_GetMore_def T1_Block_GetInf_def T1_BLOCK_R_OK_def T1_BLOCK_I_def)
  have chain: "run_state (t1_chain script_os (replicate 259 0) small_t1 [[0x00, 0xB0, 0x00], [0x00, 0x02]]) ?p =
      (Returns (PROTOCOL_T1_OK, t1_toggle ?t), ?p3)"
    using s1 s2 r1 ns ty(1) by (simp add: Let_def del: t1_build.simps)
  obtain f :: nat where f: "5 = Suc (Suc f)" by (rule that [of 3]) simp
  have rl: "run_state (t1_receive_loop (Suc (Suc f)) script_os (replicate 259 0) (t1_toggle ?t) [] 0 0 True PROTOCOL_T1_OK) ?p3 =
      (Returns (PROTOCOL_T1_OK, [0x90, 0x00], 2, t1'), set_rx [] ?p3)"
    using r2 ty(2-5) by (simp add: Let_def bytes_at_def t1_append_def memcpy_at_def del: t1_build.simps)
  have "run_state (Protocol_T1_Command 5 script_os (replicate 259 0) small_t1 sample_chained) ?p =
      (Returns (PROTOCOL_T1_OK, T1_Rsp \<lparr>response = [0x90, 0x00], rsp_length = 2\<rparr>, t1'), set_rx [] ?p3)"
    unfolding cmd using chain rl [folded f]
    by (simp add: APDU_Rsp_New_def apdu_sizes del: t1_chain.simps t1_build.simps t1_receive_loop.simps)
  moreover have "sc_wire (p_dev (set_rx [] ?p3)) = ?h 7 @ t1_data ?b1 @ ?h 6 @ t1_data ?b2"
    by (simp add: script_port_def del: t1_build.simps)
  ultimately show ?thesis by blast
qed

section \<open>Safety\<close>

text \<open>The last block received is a request for more time without the multiplier.\<close>

definition empty_wtx :: "'d os \<Rightarrow> byte list \<Rightarrow> 'd port \<Rightarrow> bool" where
  "empty_wtx os stack p' \<longleftrightarrow> (\<exists>p t1 t1' blk. run_state (Protocol_T1_ReceiveBlock os stack t1) p = (Returns (PROTOCOL_T1_OK, Some blk, t1'), p') \<and>
     T1_Block_GetType blk = T1_BLOCK_S_WTX_REQ \<and> T1_Block_GetLen blk = 0)"

lemma ReceiveBlock_wtx:
  assumes "length stack = T1_BLOCK_MAX_SIZE"
  shows "yields (\<lambda>_. True) (Protocol_T1_ReceiveBlock os stack t1) (\<lambda>x s. t1_after_receive t1 x \<and>
    (\<forall>blk t1'. x = (PROTOCOL_T1_OK, Some blk, t1') \<longrightarrow> T1_Block_GetType blk = T1_BLOCK_S_WTX_REQ \<longrightarrow> T1_Block_GetLen blk = 0 \<longrightarrow>
       empty_wtx os stack s))"
  by (rule yieldsI) (use yieldsD [OF gives_ReceiveBlock [OF assms(1)]] in \<open>fastforce simp: empty_wtx_def\<close>)

lemma t1_append_total: "counter \<le> length buffer \<Longrightarrow> \<exists>b. t1_append buffer counter info = Some b \<and> length b = counter + length info"
  by (auto simp: t1_append_def memcpy_at_def)

definition t1_same :: "Protocol_T1 \<Rightarrow> Protocol_T1 \<Rightarrow> bool" where
  "t1_same t1 t1' \<longleftrightarrow> t1' = t1\<lparr>t1_ns := t1_ns t1'\<rparr>"

lemma t1_same_ready: "t1_same t1 t1' \<Longrightarrow> t1_ready t1 \<Longrightarrow> t1_ready t1'"
  unfolding t1_same_def t1_ready_def by (metis Protocol_T1.select_convs Protocol_T1.surjective Protocol_T1.update_convs(8))

lemma t1_same_refl [simp]: "t1_same t1 t1" and t1_same_toggle [simp]: "t1_same t1 (t1_toggle t1)"
  by (simp_all add: t1_same_def t1_toggle_def)

lemma t1_same_trans: "t1_same a b \<Longrightarrow> t1_same b c \<Longrightarrow> t1_same a c"
  unfolding t1_same_def by (metis Protocol_T1.surjective Protocol_T1.update_convs(8))

lemma gives_send_loop:
  assumes "length stack = T1_BLOCK_MAX_SIZE" "apdu_cmd_wf cmd" "t1_ready t1" "c + bytes \<le> APDU_Cmd_RawLen cmd"
  shows "gives (t1_send_loop fuel os stack t1 cmd c bytes mbit ret) (\<lambda>(ret', t1'). t1_same t1 t1')"
  using assms(3,4)
proof (induction fuel arbitrary: t1 c bytes mbit ret)
  case (Suc fuel)
  have len: "length (APDU_Cmd_Raw cmd) = APDU_Cmd_RawLen cmd" "ifsc t1 \<le> PROTOCOL_T1_MAX_IFSC"
    using assms(2) Suc.prems by (simp_all add: apdu_cmd_wf_def APDU_Cmd_Raw_def APDU_Cmd_RawLen_def t1_ready_def)
  let ?c = "ushort (c + bytes)"
  let ?b = "min (APDU_Cmd_RawLen cmd - ?c) (ifsc t1)"
  have "?c \<le> c + bytes" by simp
  then have c: "?c + ?b \<le> APDU_Cmd_RawLen cmd" using Suc.prems(2) by linarith
  have rest: "gives (out_bind (t1_send_part os (t1_toggle t1) cmd ?c ?b m) (t1_send_loop fuel os stack (t1_toggle t1) cmd ?c ?b m))
      (\<lambda>(ret', t1'). t1_same t1 t1')" for m
    by (rule gives_bind [OF gives_send_part], use c len in simp, use len in simp,
        rule gives_conseq [OF Suc.IH]) (use Suc.prems(1) c in \<open>auto intro: t1_same_trans [OF t1_same_toggle]\<close>)
  show ?case
    unfolding t1_send_loop.simps
  proof (intro yields_if gives_bind [OF gives_ReceiveBlock [OF assms(1)]])
    fix x assume x: "t1_after_receive t1 x"
    obtain ret1 block where e: "x = (ret1, block, t1)"
      using ready_after_receive [OF Suc.prems(1)] x by (metis prod_cases3)
    show "gives (case x of (ret1, block, t1a) \<Rightarrow> if ret1 \<noteq> PROTOCOL_T1_OK then out_return (PROTOCOL_T1_NOT_IMPLEMENTED, t1a)
        else (case block of None \<Rightarrow> out_fault | Some blk \<Rightarrow> if T1_Block_GetType blk = T1_BLOCK_R_OK then
           let t1b = t1_toggle t1a; counter' = ushort (c + bytes); bytes' = min (APDU_Cmd_RawLen cmd - counter') (ifsc t1b);
               mbit' = APDU_Cmd_RawLen cmd - counter' > ifsc t1b
           in out_bind (t1_send_part os t1b cmd counter' bytes' mbit') (\<lambda>ret2. t1_send_loop fuel os stack t1b cmd counter' bytes' mbit' ret2)
           else out_return (PROTOCOL_T1_NOT_IMPLEMENTED, t1a))) (\<lambda>(ret', t1'). t1_same t1 t1')"
      using rest x unfolding e by (auto simp: t1_after_receive_def Let_def intro!: yields_return)
  qed (auto intro!: yields_return)
qed (simp add: yields_def valid_def)

lemma gives_response_parts:
  "gives (Protocol_T1_SendBlock os t1 (T1_Block_NewRBlock type nr)) (\<lambda>_. True)"
  "gives (Protocol_T1_SendBlock os t1 (T1_Block_NewSBlock type 1 [x])) (\<lambda>_. True)"
  by (rule gives_SendBlock;
      simp add: T1_Block_NewRBlock_def T1_Block_NewSBlock_def T1_Block_Raw_def T1_Block_RawLen_def Let_def)+

lemma inf_present: "t1_block_wf blk \<Longrightarrow> T1_Block_GetLen blk \<noteq> 0 \<Longrightarrow> T1_Block_GetInf blk = Some (drop 3 (t1_data blk))"
  by (auto simp: t1_block_wf_def T1_Block_GetInf_def simp flip: unat_gt_0)

lemma gives_receive_loop:
  assumes "length stack = T1_BLOCK_MAX_SIZE" "t1_ready t1" "counter \<le> length buffer"
  shows "gives_or (empty_wtx os stack) (t1_receive_loop fuel os stack t1 buffer counter wtx mbit ret)
    (\<lambda>(ret', buffer', counter', t1'). t1' = t1 \<and> counter' \<le> length buffer')"
  using assms(3)
proof (induction fuel arbitrary: buffer counter wtx mbit ret)
  case (Suc fuel)
  let ?Q = "\<lambda>(ret', buffer', counter', t1'). t1' = t1 \<and> counter' \<le> length buffer'"
  let ?t1a = "if wtx > 1 then Protocol_T1_UpdateBWT t1 (ushort (unat wtx * bwt t1)) else t1"
  have append: "\<exists>b. Option.bind (if unat (T1_Block_GetLen blk) = 0 then Some [] else
        Option.bind (T1_Block_GetInf blk) (\<lambda>q. bytes_at q 0 (unat (T1_Block_GetLen blk)))) (t1_append buffer counter) = Some b \<and>
      ushort (counter + unat (T1_Block_GetLen blk)) \<le> length b" if "t1_block_wf blk" for blk
  proof (cases "unat (T1_Block_GetLen blk) = 0")
    case True
    have "ushort counter \<le> counter" by simp
    then show ?thesis using t1_append_total [OF Suc.prems, of "[]"] True by (auto simp: T1_Block_GetLen_def)
  next
    case False
    then have "T1_Block_GetInf blk = Some (drop 3 (t1_data blk))" "length (drop 3 (t1_data blk)) = unat (T1_Block_GetLen blk) + 1"
      using that by (auto simp: T1_Block_GetInf_def t1_block_wf_def)
    moreover obtain info where "bytes_at (drop 3 (t1_data blk)) 0 (unat (T1_Block_GetLen blk)) = Some info" "length info = unat (T1_Block_GetLen blk)"
      using bytes_at_total [of 0 "unat (T1_Block_GetLen blk)" "drop 3 (t1_data blk)"] calculation(2) by auto
    moreover have "ushort (counter + unat (T1_Block_GetLen blk)) \<le> counter + unat (T1_Block_GetLen blk)" by simp
    ultimately show ?thesis using False t1_append_total [OF Suc.prems, of info] by auto
  qed
  have step: "yields_or (empty_wtx os stack) (\<lambda>_. True) (Protocol_T1_ReceiveBlock os stack ?t1a) (\<lambda>x s. \<exists>ret1 block t1b. x = (ret1, block, t1b) \<and>
      (if wtx > 1 then Protocol_T1_UpdateBWT t1b (bwt t1b) else t1b) = t1 \<and>
      (ret1 = PROTOCOL_T1_OK \<longrightarrow> (\<exists>blk. block = Some blk \<and> t1_block_wf blk \<and>
        (T1_Block_GetType blk = T1_BLOCK_S_WTX_REQ \<longrightarrow> T1_Block_GetInf blk = None \<longrightarrow> empty_wtx os stack s))))"
    by (rule yields_yields_or, rule yields_conseq [OF ReceiveBlock_wtx [OF assms(1)]])
       (use assms(2) inf_present in \<open>auto simp: t1_after_receive_def split: if_splits\<close>)
  show ?case
    unfolding t1_receive_loop.simps Let_def [of "if wtx > 1 then _ else t1"]
  proof (intro yields_or_if yields_or_bind [OF step], goal_cases)
    case (1 x)
    let ?C = "\<exists>ret1 block t1b. x = (ret1, block, t1b) \<and> (if wtx > 1 then Protocol_T1_UpdateBWT t1b (bwt t1b) else t1b) = t1 \<and>
      (ret1 = PROTOCOL_T1_OK \<longrightarrow> (\<exists>blk. block = Some blk \<and> t1_block_wf blk))"
    show ?case
    proof (rule yields_or_pure [where C = ?C], blast)
      assume ?C
      then obtain ret1 block t1b where x: "x = (ret1, block, t1b)" "(if wtx > 1 then Protocol_T1_UpdateBWT t1b (bwt t1b) else t1b) = t1"
        and blk: "ret1 = PROTOCOL_T1_OK \<Longrightarrow> \<exists>blk. block = Some blk \<and> t1_block_wf blk" by blast
      show ?case
      proof (cases "ret1 = PROTOCOL_T1_OK")
        case True
        then obtain b where b: "block = Some b" "t1_block_wf b" using blk by blast
        obtain buf where buf: "Option.bind (if unat (T1_Block_GetLen b) = 0 then Some [] else
            Option.bind (T1_Block_GetInf b) (\<lambda>q. bytes_at q 0 (unat (T1_Block_GetLen b)))) (t1_append buffer counter) = Some buf"
            "ushort (counter + unat (T1_Block_GetLen b)) \<le> length buf"
          using append [OF b(2)] by blast
        show ?thesis
          unfolding x(1) prod.case Let_def x(2) b(1) option.case buf(1) True
          using Suc.IH [OF buf(2)] Suc.IH [OF Suc.prems] Suc.prems
          by (auto simp: T1_BLOCK_I_def T1_BLOCK_S_WTX_REQ_def split: option.split intro: yields_or_conseq
              intro!: yields_or_return yields_or_fault gives_or_bind [OF gives_response_parts(1)] gives_or_bind [OF gives_response_parts(2)])
      qed (use x Suc.prems in \<open>auto intro!: yields_or_return\<close>)
    qed
  qed (use Suc.prems in \<open>auto intro!: yields_or_return\<close>)
qed (simp add: yields_or_def valid_def)

lemma t1_response:
  "c \<le> length b \<Longrightarrow> rsp = (case APDU_Rsp_New b c of None \<Rightarrow> T1_Null | Some r \<Rightarrow> T1_Rsp r) \<Longrightarrow>
   rsp = T1_Null \<or> (\<exists>a. rsp = T1_Rsp a \<and> apdu_rsp_wf a)"
  by (cases "APDU_Rsp_New b c") (auto dest: APDU_Rsp_New_wf)

lemma gives_T1_Command:
  assumes "length stack = 259" "apdu_cmd_wf cmd" "t1_ready t1"
  shows "gives_or (empty_wtx os stack) (Protocol_T1_Command fuel os stack t1 cmd) (\<lambda>(ret, rsp, t1'). t1_same t1 t1' \<and>
      (if ret = PROTOCOL_T1_OK then rsp = T1_Null \<or> (\<exists>a. rsp = T1_Rsp a \<and> apdu_rsp_wf a) else rsp = T1_Unset))" (is "gives_or _ _ ?Q")
proof -
  have len: "length (APDU_Cmd_Raw cmd) = APDU_Cmd_RawLen cmd" "ifsc t1 \<le> PROTOCOL_T1_MAX_IFSC" "length stack = T1_BLOCK_MAX_SIZE"
    using assms by (simp_all add: apdu_cmd_wf_def APDU_Cmd_Raw_def APDU_Cmd_RawLen_def t1_ready_def T1_BLOCK_MAX_SIZE_def)
  have receive: "gives_or (empty_wtx os stack) (out_bind (t1_receive_loop fuel os stack t1b [] 0 0 True ret1) (\<lambda>(ret2, buffer, counter, t1c).
      out_return (ret2, if ret2 = PROTOCOL_T1_OK then (case APDU_Rsp_New buffer counter of None \<Rightarrow> T1_Null | Some r \<Rightarrow> T1_Rsp r)
        else T1_Unset, t1c))) ?Q" if "t1_same t1 t1b" for t1b ret1
  proof (rule yields_or_bind [OF gives_receive_loop [OF len(3) t1_same_ready [OF that assms(3)]]])
    fix x :: "t1_ret \<times> byte list \<times> nat \<times> Protocol_T1"
    show "yields_or (empty_wtx os stack) (\<lambda>_. case x of (ret', buffer', counter', t1') \<Rightarrow> t1' = t1b \<and> counter' \<le> length buffer')
      (case x of (ret2, buffer, counter, t1c) \<Rightarrow>
      out_return (ret2, if ret2 = PROTOCOL_T1_OK then (case APDU_Rsp_New buffer counter of None \<Rightarrow> T1_Null | Some r \<Rightarrow> T1_Rsp r)
        else T1_Unset, t1c)) (\<lambda>a _. ?Q a)"
      using that t1_response by (cases x) (auto intro!: yields_or_return)
  qed simp
  show ?thesis
    unfolding Protocol_T1_Command_def Let_def
    by (rule gives_or_bind [OF gives_send_part], use len in simp, use len in simp,
        rule gives_or_bind [OF gives_send_loop [OF len(3) assms(2)]])
       (use assms(3) receive in \<open>auto intro: t1_same_trans [OF t1_same_toggle]\<close>)
qed

text \<open>
  (C3) Commands over T=1, with any card: the only access to memory the driver does not own
  happens right after the card has sent a request for more time without its multiplier.  On
  every return the handler is as before up to the send sequence number, in particular the
  timeouts are the block and character waiting time again, and a response that comes with
  \<open>PROTOCOL_T1_OK\<close> is well formed.
\<close>

theorem Protocol_T1_Command_safe:
  assumes "length stack = 259" "apdu_cmd_wf cmd" "t1_ready t1"
    "run_state (Protocol_T1_Command fuel os stack t1 cmd) p = (r, p')"
  shows "(r = Faults \<longrightarrow> empty_wtx os stack p') \<and>
    (\<forall>ret rsp t1'. r = Returns (ret, rsp, t1') \<longrightarrow>
       t1_ready t1' \<and> t1' = t1\<lparr>t1_ns := t1_ns t1'\<rparr> \<and>
       (ret = PROTOCOL_T1_OK \<longrightarrow> rsp = T1_Null \<or> (\<exists>a. rsp = T1_Rsp a \<and> apdu_rsp_wf a)))"
  using yields_orD [OF gives_T1_Command [OF assms(1-3)] _ assms(4)] t1_same_ready [OF _ assms(3)] by (auto simp: t1_same_def)

text \<open>A handler and a card whose answer to the command is an empty request for more time.\<close>

definition plain_t1 :: Protocol_T1 where
  "plain_t1 = Protocol_T1_Clear\<lparr>t1_icc := Some (ICC_Async_Clear\<lparr>icc_ifd := Some IFD_Towitoko_Clear, icc_atr := Some blank_ATR, baudrate := 9600\<rparr>),
     ifsc := 32\<rparr>"

definition sample_select :: APDU_Cmd where
  "sample_select = \<lparr>command = [0x00, 0xA4, 0x00, 0x00], cmd_length = 4\<rparr>"

lemma Protocol_T1_Command_safe_witness:
  "\<exists>p'. run_state (Protocol_T1_Command 2 script_os (replicate 259 0) plain_t1 sample_select)
      (script_port [[], [0x00, 0xC3, 0x00, 0xC3]] (Some default_properties)) = (Faults, p') \<and>
     empty_wtx script_os (replicate 259 0) p'"
proof -
  have ready: "t1_ready plain_t1" "apdu_cmd_wf sample_select"
    by (simp_all add: t1_ready_def plain_t1_def Protocol_T1_Clear_def ICC_Async_Clear_def PROTOCOL_T1_MAX_IFSC_def
        sample_select_def apdu_cmd_wf_def apdu_sizes)
  obtain r p' where r: "run_state (Protocol_T1_Command 2 script_os (replicate 259 0) plain_t1 sample_select)
      (script_port [[], [0x00, 0xC3, 0x00, 0xC3]] (Some default_properties)) = (r, p')" by fastforce
  let ?p = "script_port [[], [0x00, 0xC3, 0x00, 0xC3]] (Some default_properties)"
  let ?icc = "ICC_Async_Clear\<lparr>icc_ifd := Some IFD_Towitoko_Clear, icc_atr := Some blank_ATR, baudrate := 9600\<rparr>"
  let ?raw = "[0x00, 0x40, 0x04, 0x00, 0xA4, 0x00, 0x00, 0xE0] :: byte list"
  have b: "run_state (ICC_Async_BeginTransmission script_os ?icc) ?p = (ICC_ASYNC_OK, ?p)"
    by (simp add: ICC_Async_Clear_def ICC_Async_BeginTransmission_def IFD_Towitoko_SetBaudrate_def IFD_Towitoko_GetMaxBaudrate_def ifd_eval script_port_def)
  obtain s p2 where t: "run_state (ICC_Async_Transmit script_os ?icc ?raw) ?p = (s, p2)" by fastforce
  then have s: "s = Some ICC_ASYNC_OK" "sc_rx (p_dev p2) = [0x00, 0xC3, 0x00, 0xC3]"
    by (auto simp: ICC_Async_Transmit_def ICC_Async_Clear_def IFD_Towitoko_Transmit_def transmit_loop.simps transmit_data_def
        bytes_at_def IFD_TOWITOKO_MAX_TRANSMIT_def ifd_eval script_port_def IFD_Towitoko_Clear_def IFD_TOWITOKO_KARTENZWERG_def Let_def)
  have send: "run_state (t1_send_part script_os (t1_toggle plain_t1) sample_select 0 4 False) ?p = (Returns PROTOCOL_T1_OK, p2)"
    using b t s(1)
    by (simp add: t1_send_part_def Protocol_T1_SendBlock_def plain_t1_def t1_toggle_def Protocol_T1_Clear_def sample_select_def bytes_at_def
        APDU_Cmd_Raw_def low_byte_def T1_Block_NewIBlock_def T1_Block_Raw_def T1_Block_RawLen_def T1_BLOCK_NAD_def T1_BLOCK_I_def
        T1_Block_LRC_def Let_def)
  have k: "ifd_type IFD_Towitoko_Clear \<noteq> IFD_TOWITOKO_KARTENZWERG" by (simp add: IFD_Towitoko_Clear_def IFD_TOWITOKO_KARTENZWERG_def)
  obtain icc where icc: "t1_icc (t1_toggle plain_t1) = Some icc" "icc_ifd icc = Some IFD_Towitoko_Clear"
      "convention icc = ATR_CONVENTION_DIRECT" "baudrate icc = 9600"
    by (simp add: t1_toggle_def plain_t1_def ICC_Async_Clear_def)
  have "\<exists>p3. run_state (Protocol_T1_ReceiveBlock script_os (replicate 259 0) (t1_toggle plain_t1)) p2 =
      (Returns (PROTOCOL_T1_OK, Some \<lparr>t1_data = [0x00, 0xC3, 0x00, 0xC3], t1_length = 4\<rparr>, t1_toggle plain_t1), p3)"
    using s(2) by (simp add: Protocol_T1_ReceiveBlock_def icc_receive_def script_Receive [OF icc(2) k icc(3)] icc
        memcpy_at_def t1_received_def ICC_Async_Switch_def ICC_Async_EndTransmission_def
        ICC_ASYNC_BAUDRATE_def T1_Block_New_def T1_BLOCK_MAX_SIZE_def Let_def)
  moreover have "T1_Block_GetType \<lparr>t1_data = [0x00, 0xC3, 0x00, 0xC3], t1_length = 4\<rparr> = T1_BLOCK_S_WTX_REQ"
      "T1_Block_GetInf \<lparr>t1_data = [0x00, 0xC3, 0x00, 0xC3], t1_length = 4\<rparr> = None" "T1_BLOCK_S_WTX_REQ \<noteq> T1_BLOCK_I"
    by (simp_all add: T1_Block_GetType_def T1_Block_GetInf_def T1_BLOCK_I_def T1_BLOCK_S_WTX_REQ_def)
  moreover have "APDU_Cmd_RawLen sample_select = 4" "ifsc plain_t1 = 32" by (simp_all add: APDU_Cmd_RawLen_def sample_select_def plain_t1_def)
  ultimately have "r = Faults" using r send by (auto simp: Protocol_T1_Command_def numeral_2_eq_2 Let_def)
  then show ?thesis using r Protocol_T1_Command_safe [OF _ ready(2,1) r] by simp
qed

section \<open>Reassembly of the response\<close>

text \<open>The card answers with a chain of I-blocks, each acknowledged before the next one.\<close>

inductive answers :: "'d os \<Rightarrow> byte list \<Rightarrow> Protocol_T1 \<Rightarrow> byte list list \<Rightarrow> 'd port \<Rightarrow> bool" for os stack t1 where
  answers_last: "run_state (Protocol_T1_ReceiveBlock os stack t1) p = (Returns (PROTOCOL_T1_OK, Some blk, t1), p') \<Longrightarrow>
     T1_Block_GetType blk = T1_BLOCK_I \<Longrightarrow> \<not> T1_Block_GetMore blk \<Longrightarrow>
     t1_block_wf blk \<Longrightarrow> info = take (unat (T1_Block_GetLen blk)) (drop 3 (t1_data blk)) \<Longrightarrow> answers os stack t1 [info] p"
| answers_more: "run_state (Protocol_T1_ReceiveBlock os stack t1) p = (Returns (PROTOCOL_T1_OK, Some blk, t1), p') \<Longrightarrow>
     T1_Block_GetType blk = T1_BLOCK_I \<Longrightarrow> T1_Block_GetMore blk \<Longrightarrow>
     t1_block_wf blk \<Longrightarrow> info = take (unat (T1_Block_GetLen blk)) (drop 3 (t1_data blk)) \<Longrightarrow>
     run_state (Protocol_T1_SendBlock os t1 (T1_Block_NewRBlock T1_BLOCK_R_OK ((T1_Block_GetNS blk + 1) mod 2))) p' =
       (Returns PROTOCOL_T1_OK, p'') \<Longrightarrow>
     answers os stack t1 infos p'' \<Longrightarrow> answers os stack t1 (info # infos) p"

lemma collect_info:
  assumes "t1_block_wf blk" "info = take (unat (T1_Block_GetLen blk)) (drop 3 (t1_data blk))"
  shows "Option.bind (if unat (T1_Block_GetLen blk) = 0 then Some [] else
      Option.bind (T1_Block_GetInf blk) (\<lambda>q. bytes_at q 0 (unat (T1_Block_GetLen blk)))) (t1_append buffer (length buffer)) = Some (buffer @ info)"
    "length info = unat (T1_Block_GetLen blk)"
  using assms inf_present [OF assms(1)]
  by (cases "T1_Block_GetLen blk = 0"; auto simp: t1_append_def memcpy_at_def bytes_at_def t1_block_wf_def)+

lemma receive_loop_collects:
  assumes "answers os stack t1 infos p" "length buffer + length (concat infos) < 65536" "length infos < fuel"
  shows "\<exists>p'. run_state (t1_receive_loop fuel os stack t1 buffer (length buffer) 0 True PROTOCOL_T1_OK) p =
     (Returns (PROTOCOL_T1_OK, buffer @ concat infos, length (buffer @ concat infos), t1), p')"
  using assms
proof (induction infos p arbitrary: buffer fuel rule: answers.induct)
  case (answers_last p blk p' info)
  then obtain f where f: "fuel = Suc (Suc f)" by (cases fuel; cases "fuel - 1") auto
  show ?case
    using answers_last collect_info(1) [OF answers_last(4,5), of buffer] collect_info(2) [OF answers_last(4,5)] by (simp add: f Let_def)
next
  case (answers_more p blk p' info p'' infos)
  then obtain f where f: "fuel = Suc f" "length infos < f" by (cases fuel) auto
  show ?case
    using answers_more.hyps(1-3,6) answers_more.prems(1) answers_more.IH [of "buffer @ info" f] f(2)
      collect_info(1) [OF answers_more.hyps(4,5), of buffer] collect_info(2) [OF answers_more.hyps(4,5)] by (simp add: f(1) Let_def)
qed

text \<open>
  (C10) A response in a chain of I-blocks is put together: when the whole response is shorter
  than 65536 bytes, the receiving loop of \<open>Protocol_T1_Command\<close> ends with the concatenation
  of the information fields after one turn per block and one more.
\<close>

theorem t1_receive_loop_collects:
  assumes "answers os stack t1 infos p" "length (concat infos) < 65536" "length infos < fuel"
  shows "\<exists>p'. run_state (t1_receive_loop fuel os stack t1 [] 0 0 True PROTOCOL_T1_OK) p =
     (Returns (PROTOCOL_T1_OK, concat infos, length (concat infos), t1), p')"
  using receive_loop_collects [OF assms(1) _ assms(3), of "[]"] assms(2) by simp

lemma t1_receive_loop_collects_witness:
  "\<exists>p'. run_state (t1_receive_loop 2 script_os (replicate 259 0) sample_t1 [] 0 0 True PROTOCOL_T1_OK)
      (set_rx [0x00, 0x00, 0x02, 0x90, 0x00, 0x92] (script_port [] (Some default_properties))) =
    (Returns (PROTOCOL_T1_OK, [0x90, 0x00], 2, sample_t1), p')"
proof -
  let ?p = "set_rx [0x00, 0x00, 0x02, 0x90, 0x00, 0x92] (script_port [] (Some default_properties))"
  let ?blk = "\<lparr>t1_data = [0x00, 0x00, 0x02, 0x90, 0x00, 0x92], t1_length = 6\<rparr>"
  obtain r p' where r: "run_state (Protocol_T1_ReceiveBlock script_os (replicate 259 0) sample_t1) ?p = (r, p')" by fastforce
  have up: "\<exists>icc. t1_icc (Protocol_T1_UpdateBWT sample_t1 b) = Some icc \<and> icc_ifd icc = Some IFD_Towitoko_Clear \<and>
      convention icc = ATR_CONVENTION_DIRECT \<and> baudrate icc = 9600" "\<exists>icc. t1_icc sample_t1 = Some icc \<and> icc_ifd icc = Some IFD_Towitoko_Clear \<and>
      convention icc = ATR_CONVENTION_DIRECT \<and> baudrate icc = 9600" for b
    by (simp_all add: Protocol_T1_UpdateBWT_def sample_t1_def Protocol_T1_Init_def ICC_Async_SetTimings_def ICC_Async_GetTimings_def
        ICC_Async_Clear_def Let_def split: prod.split)
  obtain icc where icc: "t1_icc sample_t1 = Some icc" "icc_ifd icc = Some IFD_Towitoko_Clear"
      "convention icc = ATR_CONVENTION_DIRECT" "baudrate icc = 9600" using up(2) by blast
  obtain icc' where icc': "t1_icc (Protocol_T1_UpdateBWT sample_t1 (cwt sample_t1)) = Some icc'" "icc_ifd icc' = Some IFD_Towitoko_Clear"
      "convention icc' = ATR_CONVENTION_DIRECT" using up(1) by blast
  have k: "ifd_type IFD_Towitoko_Clear \<noteq> IFD_TOWITOKO_KARTENZWERG" by (simp add: IFD_Towitoko_Clear_def IFD_TOWITOKO_KARTENZWERG_def)
  have "r = Returns (PROTOCOL_T1_OK, Some ?blk, sample_t1)"
    using r icc icc' sample_t1_ready(1)
    by (simp add: Protocol_T1_ReceiveBlock_def icc_receive_def script_Receive [OF icc(2) k] script_Receive [OF icc'(2) k] memcpy_at_def
        t1_received_def ICC_Async_Switch_def ICC_Async_EndTransmission_def ICC_ASYNC_BAUDRATE_def T1_Block_New_def T1_BLOCK_MAX_SIZE_def Let_def)
  then have "answers script_os (replicate 259 0) sample_t1 [[0x90, 0x00]] ?p"
    using r by (intro answers_last [of _ _ _ _ ?blk p'])
      (simp_all add: T1_Block_GetType_def T1_Block_GetMore_def T1_Block_GetLen_def t1_block_wf_def T1_BLOCK_I_def)
  from t1_receive_loop_collects [OF this, of 2] show ?thesis by (simp add: numeral_2_eq_2)
qed

end
