(* ===== verification/Pps.thy ===== *)
theory Pps
  imports ProtocolT0 ProtocolT1
begin

text \<open>
  Protocol and parameter selection, \<^verbatim>\<open>src/src/driver/pps.c\<close>: the PPS exchange, the
  choice of protocol and parameters from the request or from the answer to reset, and the
  start of the protocol.  The code tests \<open>PPS_USE_DEFAULT_TIMINGS\<close>, which nothing
  defines.
\<close>

section \<open>Constants and the context\<close>

definition PPS_MAX_LENGTH :: nat where "PPS_MAX_LENGTH = 6"
definition PPS_DEFAULT_PROTOCOL :: byte where "PPS_DEFAULT_PROTOCOL = 0x00"

datatype pps_ret = PPS_OK | PPS_ICC_ERROR | PPS_HANDSAKE_ERROR | PPS_PROTOCOL_ERROR

definition PPS_HAS_PPS1 :: "byte list \<Rightarrow> bool" where "PPS_HAS_PPS1 block \<longleftrightarrow> block ! 1 AND 0x10 = 0x10"
definition PPS_HAS_PPS2 :: "byte list \<Rightarrow> bool" where "PPS_HAS_PPS2 block \<longleftrightarrow> block ! 1 AND 0x20 = 0x20"
definition PPS_HAS_PPS3 :: "byte list \<Rightarrow> bool" where "PPS_HAS_PPS3 block \<longleftrightarrow> block ! 1 AND 0x40 = 0x40"

text \<open>
  The untyped pointer to the protocol handler.  The handler holds the card; the context's
  own copy is kept equal to it, as both are the same object.
\<close>

datatype protocol = No_Protocol | Prot_T0 Protocol_T0 | Prot_T1 Protocol_T1

record PPS =
  pps_icc :: ICC_Async
  pps_protocol :: protocol
  pps_parameters :: PPS_ProtocolParameters

definition PPS_New :: "ICC_Async \<Rightarrow> PPS" where
  "PPS_New icc =
     \<lparr>pps_icc = icc, pps_protocol = No_Protocol,
      pps_parameters = \<lparr>pps_f = of_nat ATR_DEFAULT_F, pps_d = ATR_DEFAULT_D, pps_n = of_nat ATR_DEFAULT_N, pps_t = PPS_DEFAULT_PROTOCOL\<rparr>\<rparr>"

definition PPS_GetProtocol :: "PPS \<Rightarrow> protocol" where
  "PPS_GetProtocol pps = pps_protocol pps"

definition PPS_GetProtocolParameters :: "PPS \<Rightarrow> PPS_ProtocolParameters" where
  "PPS_GetProtocolParameters pps = pps_parameters pps"

section \<open>The exchange\<close>

definition PPS_GetLength :: "byte list \<Rightarrow> nat" where
  "PPS_GetLength block =
     3 + (if PPS_HAS_PPS1 block then 1 else 0) + (if PPS_HAS_PPS2 block then 1 else 0) + (if PPS_HAS_PPS3 block then 1 else 0)"

definition PPS_GetPCK :: "byte list \<Rightarrow> nat \<Rightarrow> byte" where
  "PPS_GetPCK block len = foldl (XOR) (block ! 0) (take (len - 1) (drop 1 block))"

text \<open>\<open>memcmp\<close> is zero, and its negation true, when the bytes are equal.\<close>

definition PPS_Match :: "byte list \<Rightarrow> nat \<Rightarrow> byte list \<Rightarrow> nat \<Rightarrow> bool" where
  "PPS_Match request len_request confirm len_confirm =
     (if len_request \<noteq> len_confirm \<or> take len_request request = take len_request confirm
      then \<not> (PPS_HAS_PPS1 confirm \<and> confirm ! 2 \<noteq> request ! 2)
      else True)"

text \<open>
  \<open>params\<close> is the caller's array, holding the request and afterwards the confirm;
  \<open>stack\<close> the six bytes of the local array.  The result is the code, the array and the
  length stored for the caller.
\<close>

definition PPS_Exchange ::
    "'d os \<Rightarrow> byte list \<Rightarrow> PPS \<Rightarrow> byte list \<Rightarrow> nat \<Rightarrow> ('d, (pps_ret \<times> byte list \<times> nat) outcome) io" where
  "PPS_Exchange os stack pps params len =
     (let len_request = PPS_GetLength params;
          params1 = params[len_request - 1 := PPS_GetPCK params (len_request - 1)]
      in if length params < len_request then out_fault
         else out_bind (out_check (ICC_Async_Transmit os (pps_icc pps) (take len_request params1))) (\<lambda>t.
           if t \<noteq> ICC_ASYNC_OK then out_return (PPS_ICC_ERROR, params1, len)
           else out_bind (icc_receive os (pps_icc pps) 2 stack 0) (\<lambda>r. case r of
             None \<Rightarrow> out_return (PPS_ICC_ERROR, params1, len)
           | Some confirm1 \<Rightarrow>
               let len_confirm = PPS_GetLength confirm1
               in out_bind (icc_receive os (pps_icc pps) (len_confirm - 2) confirm1 2) (\<lambda>r2. case r2 of
                    None \<Rightarrow> out_return (PPS_ICC_ERROR, params1, len)
                  | Some confirm \<Rightarrow> (case memcpy_at params1 0 (take len_confirm confirm) of
                      None \<Rightarrow> out_fault
                    | Some params2 \<Rightarrow>
                        out_return (if PPS_Match params1 len_request confirm len_confirm then PPS_OK else PPS_HANDSAKE_ERROR,
                                    params2, len_confirm))))))"

section \<open>Starting the protocol\<close>

text \<open>
  \<open>fl\<close> rounds to \<open>double\<close> and \<open>fll\<close> to \<open>long double\<close>.  For \<open>F = 0\<close>, a reserved
  entry of the table, the conversion of the infinite quotient is undefined; for
  \<open>D = 0\<close> the rate becomes 0.
\<close>

definition PPS_InitICC :: "(rat \<Rightarrow> rat) \<Rightarrow> (rat \<Rightarrow> rat) \<Rightarrow> PPS \<Rightarrow> (pps_ret \<times> PPS) outcome" where
  "PPS_InitICC fl fll pps =
     (let q = pps_parameters pps
      in if pps_f q = 0 then Faults
         else
           let work_etu = fl (fl (1000 * pps_f q) / fl (pps_d q * of_nat (ICC_Async_GetClockRate (pps_icc pps))));
               rate = (if pps_d q = 0 then 0 else nat \<lfloor>fll (1000 / work_etu)\<rfloor>)
           in Returns (PPS_OK, pps\<lparr>pps_icc := snd (ICC_Async_SetBaudrate (pps_icc pps) rate)\<rparr>))"

text \<open>
  A rate of 0, which only the reserved entries of the tables lead to, makes the times of
  T=1 infinite, and their conversion to integers undefined.
\<close>

definition PPS_InitProtocol :: "(rat \<Rightarrow> rat) \<Rightarrow> PPS \<Rightarrow> (pps_ret \<times> PPS) outcome" where
  "PPS_InitProtocol fl pps =
     (let t = pps_t (pps_parameters pps)
      in if t = ATR_PROTOCOL_TYPE_T0 then
           let (ret, t0) = Protocol_T0_Init fl (pps_icc pps) (pps_parameters pps)
           in if ret \<noteq> PROTOCOL_T0_OK then Returns (PPS_PROTOCOL_ERROR, pps\<lparr>pps_protocol := No_Protocol\<rparr>)
              else Returns (PPS_OK, pps\<lparr>pps_protocol := Prot_T0 t0, pps_icc := the (t0_icc t0)\<rparr>)
         else if t = ATR_PROTOCOL_TYPE_T1 then
           if snd (ICC_Async_GetBaudrate (pps_icc pps)) = 0 then Faults
           else
             let (ret, t1) = Protocol_T1_Init fl (pps_icc pps) (pps_parameters pps)
             in if ret \<noteq> PROTOCOL_T1_OK then Returns (PPS_PROTOCOL_ERROR, pps\<lparr>pps_protocol := No_Protocol\<rparr>)
                else Returns (PPS_OK, pps\<lparr>pps_protocol := Prot_T1 t1, pps_icc := the (t1_icc t1)\<rparr>)
         else Returns (PPS_PROTOCOL_ERROR, pps\<lparr>pps_protocol := No_Protocol\<rparr>))"

definition PPS_SelectFirstProtocol :: "PPS \<Rightarrow> PPS" where
  "PPS_SelectFirstProtocol pps =
     (let atr = the (ICC_Async_GetAtr (pps_icc pps));
          t = (if ATR_GetNumberOfProtocols atr > 1
               then (case ATR_GetProtocolType atr 2 of Inr ty \<Rightarrow> ty | Inl _ \<Rightarrow> ATR_PROTOCOL_TYPE_T0)
               else ATR_PROTOCOL_TYPE_T0)
      in pps\<lparr>pps_parameters := (pps_parameters pps)\<lparr>pps_t := t\<rparr>\<rparr>)"

text \<open>The parameters of a confirmed request, and those of the answer to reset.\<close>

definition pps_confirmed :: "PPS \<Rightarrow> byte list \<Rightarrow> PPS" where
  "pps_confirmed pps params =
     (let q = (pps_parameters pps)\<lparr>pps_t := params ! 1 AND 0x0F\<rparr>
      in pps\<lparr>pps_parameters :=
           (if PPS_HAS_PPS1 params
            then q\<lparr>pps_f := of_nat (atr_f_table ! unat (drop_bit 4 (params ! 2))), pps_d := atr_d_table ! unat (params ! 2 AND 0x0F)\<rparr>
            else q)\<rparr>)"

definition pps_from_atr :: "PPS \<Rightarrow> PPS" where
  "pps_from_atr pps =
     (let pps1 = PPS_SelectFirstProtocol pps; atr = the (ICC_Async_GetAtr (pps_icc pps1))
      in pps1\<lparr>pps_parameters := (pps_parameters pps1)
           \<lparr>pps_n := ATR_GetParameter atr ATR_PARAMETER_N, pps_d := ATR_GetParameter atr ATR_PARAMETER_D,
            pps_f := ATR_GetParameter atr ATR_PARAMETER_F\<rparr>\<rparr>)"

definition PPS_Perform ::
    "(rat \<Rightarrow> rat) \<Rightarrow> (rat \<Rightarrow> rat) \<Rightarrow> 'd os \<Rightarrow> byte list \<Rightarrow> PPS \<Rightarrow> byte list \<Rightarrow> nat \<Rightarrow>
     ('d, (pps_ret \<times> PPS \<times> byte list \<times> nat) outcome) io" where
  "PPS_Perform fl fll os stack pps params len =
     (if len > 0 then
        out_bind (PPS_Exchange os stack pps params len) (\<lambda>(ret, params', len').
          if ret \<noteq> PPS_OK then out_return (ret, pps, params', len')
          else (case PPS_InitICC fl fll (pps_confirmed pps params') of
              Returns (ret2, pps1) \<Rightarrow>
                if ret2 \<noteq> PPS_OK then out_return (ret2, pps1, params', len')
                else (case PPS_InitProtocol fl pps1 of
                    Returns (ret3, pps2) \<Rightarrow> out_return (ret3, pps2, params', len')
                  | _ \<Rightarrow> out_fault)
            | _ \<Rightarrow> out_fault))
      else (case PPS_InitProtocol fl (pps_from_atr pps) of
          Returns (ret3, pps2) \<Rightarrow> out_return (ret3, pps2, params, len)
        | _ \<Rightarrow> out_fault))"

section \<open>The comparison and the check byte\<close>

text \<open>
  (C39) The comparison of the confirm with the request.  A confirm of the same length is
  accepted whatever it contains, also when it selects another protocol or other parameters
  than the request; one of another length is rejected exactly when it carries a PPS1 that
  differs from the byte at that place of the request.
\<close>

theorem PPS_Match_accepts:
  assumes "3 \<le> n"
  shows "PPS_Match request n confirm m \<longleftrightarrow> n = m \<or> \<not> PPS_HAS_PPS1 confirm \<or> confirm ! 2 = request ! 2"
proof -
  have "confirm ! 2 = request ! 2" if "take n request = take n confirm"
    using arg_cong [OF that, of "\<lambda>xs. xs ! 2"] assms by simp
  then show ?thesis by (auto simp: PPS_Match_def)
qed

lemma PPS_Match_accepts_witness:
  "PPS_Match [0xFF, 0x10, 0x11, 0xFE] 4 [0xFF, 0x11, 0x94, 0x7A] 4"
  using PPS_Match_accepts [of 4 "[0xFF, 0x10, 0x11, 0xFE]" "[0xFF, 0x11, 0x94, 0x7A]" 4] by simp

lemma foldl_xor: "foldl (XOR) (a :: byte) xs = a XOR foldl (XOR) 0 xs"
proof (induction xs arbitrary: a)
  case (Cons x xs)
  show ?case using Cons [of "a XOR x"] Cons [of x] by (simp add: xor.assoc)
qed simp

lemma PPS_GetLength_bounds: "3 \<le> PPS_GetLength block" "PPS_GetLength block \<le> PPS_MAX_LENGTH"
  by (simp_all add: PPS_GetLength_def PPS_MAX_LENGTH_def)

lemma PPS_GetLength_update: "2 \<le> i \<Longrightarrow> PPS_GetLength (block[i := b]) = PPS_GetLength block"
  by (simp add: PPS_GetLength_def PPS_HAS_PPS1_def PPS_HAS_PPS2_def PPS_HAS_PPS3_def)

lemma PPS_GetLength_take: "2 \<le> i \<Longrightarrow> PPS_GetLength (take i block) = PPS_GetLength block"
  by (simp add: PPS_GetLength_def PPS_HAS_PPS1_def PPS_HAS_PPS2_def PPS_HAS_PPS3_def)

text \<open>The request as it is sent: the check byte is the last one, and all bytes together are even.\<close>

definition pps_sealed :: "byte list \<Rightarrow> bool" where
  "pps_sealed block \<longleftrightarrow> length block = PPS_GetLength block \<and> foldl (XOR) 0 block = 0"

lemma PCK_seals:
  assumes "PPS_GetLength params \<le> length params"
  shows "pps_sealed (take (PPS_GetLength params) (params[PPS_GetLength params - 1 := PPS_GetPCK params (PPS_GetLength params - 1)]))"
proof -
  obtain n where n: "PPS_GetLength params = Suc (Suc n)" "2 \<le> Suc n" using PPS_GetLength_bounds(1) [of params] by (cases "PPS_GetLength params"; cases "PPS_GetLength params - 1") auto
  have "params \<noteq> []" using assms n by auto
  then have pck: "PPS_GetPCK params (Suc n) = foldl (XOR) 0 (take (Suc n) params)"
    by (cases params) (simp_all add: PPS_GetPCK_def)
  have "take (Suc (Suc n)) (params[Suc n := b]) = take (Suc n) params @ [b]" for b
    using assms n by (simp add: take_Suc_conv_app_nth)
  then have "foldl (XOR) 0 (take (Suc (Suc n)) (params[Suc n := PPS_GetPCK params (Suc n)])) = 0" by (simp add: pck)
  then show ?thesis
    using assms n by (simp add: pps_sealed_def PPS_GetLength_update PPS_GetLength_take)
qed

section \<open>The exchange and what it leads to\<close>

lemma gives_PPS_Exchange:
  assumes "PPS_MAX_LENGTH \<le> length params" "length stack = PPS_MAX_LENGTH"
  shows "gives (PPS_Exchange os stack pps params len) (\<lambda>(ret, params', len').
    length params' = length params \<and> (ret \<in> {PPS_OK, PPS_HANDSAKE_ERROR} \<longrightarrow> len' = PPS_GetLength params'))" (is "gives _ ?Q")
proof -
  note bounds = PPS_GetLength_bounds [unfolded PPS_MAX_LENGTH_def]
  let ?n = "PPS_GetLength params"
  let ?params1 = "params[?n - 1 := PPS_GetPCK params (?n - 1)]"
  have err: "gives (out_return (PPS_ICC_ERROR, ?params1, len)) ?Q" by (rule yields_return) simp
  have confirm: "gives (out_bind (icc_receive os (pps_icc pps) (PPS_GetLength c - 2) c 2) (\<lambda>r2. case r2 of
      None \<Rightarrow> out_return (PPS_ICC_ERROR, ?params1, len)
    | Some confirm \<Rightarrow> (case memcpy_at ?params1 0 (take (PPS_GetLength c) confirm) of None \<Rightarrow> out_fault
      | Some params2 \<Rightarrow> out_return (if PPS_Match ?params1 ?n confirm (PPS_GetLength c) then PPS_OK else PPS_HANDSAKE_ERROR, params2, PPS_GetLength c)))) ?Q"
    if c: "length c = PPS_MAX_LENGTH" for c
  proof (rule gives_bind [OF gives_icc_receive])
    fix r assume r: "\<forall>b. r = Some b \<longrightarrow> length b = length c \<and> take 2 b = take 2 c"
    show "gives (case r of None \<Rightarrow> out_return (PPS_ICC_ERROR, ?params1, len)
      | Some confirm \<Rightarrow> (case memcpy_at ?params1 0 (take (PPS_GetLength c) confirm) of None \<Rightarrow> out_fault
        | Some params2 \<Rightarrow> out_return (if PPS_Match ?params1 ?n confirm (PPS_GetLength c) then PPS_OK else PPS_HANDSAKE_ERROR, params2, PPS_GetLength c))) ?Q"
    proof (cases r)
      case (Some b)
      then have b: "length b = 6" "PPS_GetLength b = PPS_GetLength c"
        using r c PPS_GetLength_take [of 2 b] PPS_GetLength_take [of 2 c] by (simp_all add: PPS_MAX_LENGTH_def)
      have "PPS_GetLength (take (PPS_GetLength c) b @ xs) = PPS_GetLength c" for xs
        using bounds [of c] b PPS_GetLength_take [of 2 "take (PPS_GetLength c) b @ xs"] PPS_GetLength_take [of 2 b]
        by (simp add: min_absorb1)
      then show ?thesis
        using Some bounds [of c] b assms(1) by (auto simp: memcpy_at_def PPS_MAX_LENGTH_def intro!: yields_return)
    qed (use err in simp)
  qed (use bounds [of c] c in \<open>simp_all add: PPS_MAX_LENGTH_def\<close>)
  show ?thesis
    unfolding PPS_Exchange_def Let_def
  proof (intro yields_if gives_bind [OF gives_Transmit] err)
    show "gives (out_bind (icc_receive os (pps_icc pps) 2 stack 0) (\<lambda>r. case r of None \<Rightarrow> out_return (PPS_ICC_ERROR, ?params1, len)
      | Some c \<Rightarrow> out_bind (icc_receive os (pps_icc pps) (PPS_GetLength c - 2) c 2) (\<lambda>r2. case r2 of
          None \<Rightarrow> out_return (PPS_ICC_ERROR, ?params1, len)
        | Some confirm \<Rightarrow> (case memcpy_at ?params1 0 (take (PPS_GetLength c) confirm) of None \<Rightarrow> out_fault
          | Some params2 \<Rightarrow> out_return (if PPS_Match ?params1 ?n confirm (PPS_GetLength c) then PPS_OK else PPS_HANDSAKE_ERROR, params2, PPS_GetLength c))))) ?Q"
      by (rule gives_bind [OF gives_icc_receive]) (use assms(2) confirm err in \<open>auto simp: PPS_MAX_LENGTH_def split: option.split\<close>)
  qed (use bounds [of params] assms(1) in \<open>auto simp: PPS_MAX_LENGTH_def\<close>)
qed

text \<open>
  The exchange with any card: given arrays of six bytes, the request is completed with
  its check byte, no array is overrun by the confirm, and when the exchange was made the
  array holds a confirm whose presence bits give the length stored for the caller.
\<close>

lemma PPS_Exchange_safe:
  assumes "6 \<le> length params" "length stack = 6" "run_state (PPS_Exchange os stack pps params len) p = (r, p')"
  shows "pps_sealed (take (PPS_GetLength params) (params[PPS_GetLength params - 1 := PPS_GetPCK params (PPS_GetLength params - 1)])) \<and>
    r \<noteq> Faults \<and> (\<forall>ret params' len'. r = Returns (ret, params', len') \<longrightarrow> length params' = length params \<and>
      (ret = PPS_OK \<or> ret = PPS_HANDSAKE_ERROR \<longrightarrow> len' = PPS_GetLength params'))"
  using yieldsD [OF gives_PPS_Exchange _ assms(3)] PCK_seals [of params] PPS_GetLength_bounds(2) [of params] assms(1,2)
  by (fastforce simp: PPS_MAX_LENGTH_def)

text \<open>The handler is one of the two protocols, ready for commands, on the context's card.\<close>

definition handler_ready :: "PPS \<Rightarrow> bool" where
  "handler_ready pps \<longleftrightarrow> (case pps_protocol pps of
     No_Protocol \<Rightarrow> False
   | Prot_T0 t0 \<Rightarrow> pps_t (pps_parameters pps) = ATR_PROTOCOL_TYPE_T0 \<and> t0_icc t0 = Some (pps_icc pps) \<and> icc_equal_timeouts (pps_icc pps)
   | Prot_T1 t1 \<Rightarrow> pps_t (pps_parameters pps) = ATR_PROTOCOL_TYPE_T1 \<and> t1_icc t1 = Some (pps_icc pps) \<and> t1_ready t1)"

lemma InitProtocol_ready:
  assumes "PPS_InitProtocol fl pps = Returns (ret, pps')"
  shows "pps_parameters pps' = pps_parameters pps \<and>
    (if pps_t (pps_parameters pps) \<in> {ATR_PROTOCOL_TYPE_T0, ATR_PROTOCOL_TYPE_T1} then ret = PPS_OK \<and> handler_ready pps'
     else ret = PPS_PROTOCOL_ERROR \<and> pps_protocol pps' = No_Protocol)"
proof -
  have t0: "fst (Protocol_T0_Init fl icc q) = PROTOCOL_T0_OK" "\<exists>i. t0_icc (snd (Protocol_T0_Init fl icc q)) = Some i \<and> icc_equal_timeouts i" for icc q
    by (simp_all add: Protocol_T0_Init_def icc_equal_timeouts_def ICC_Async_SetTimings_def ICC_Async_GetTimings_def Let_def)
  have t1: "fst (Protocol_T1_Init fl icc q) = PROTOCOL_T1_OK" "\<exists>i. t1_icc (snd (Protocol_T1_Init fl icc q)) = Some i" for icc q
    using Protocol_T1_Init_ready [of fl icc q] by (auto simp: t1_ready_def Protocol_T1_Init_def Let_def split: prod.split)
  show ?thesis
    using assms t0 [of "pps_icc pps" "pps_parameters pps"] t1 [of "pps_icc pps" "pps_parameters pps"]
      Protocol_T1_Init_ready [of fl "pps_icc pps" "pps_parameters pps"]
    by (auto simp: PPS_InitProtocol_def handler_ready_def Let_def ATR_PROTOCOL_TYPE_T0_def ATR_PROTOCOL_TYPE_T1_def split: prod.splits if_splits)
qed

lemma InitICC_parameters: "PPS_InitICC fl fll pps = Returns (ret, pps') \<Longrightarrow> ret = PPS_OK \<and> pps_parameters pps' = pps_parameters pps"
  by (auto simp: PPS_InitICC_def Let_def split: if_splits)

lemma selected_type:
  "pps_t (pps_parameters (pps_confirmed pps params)) = params ! 1 AND 0x0F"
  "pps_t (pps_parameters (pps_from_atr pps)) = pps_t (pps_parameters (PPS_SelectFirstProtocol pps))"
  by (simp_all add: pps_confirmed_def pps_from_atr_def Let_def)

lemma Exchange_codes:
  "run_state (PPS_Exchange os stack pps params len) p = (Returns (ret, params', len'), p') \<Longrightarrow> ret \<in> {PPS_OK, PPS_ICC_ERROR, PPS_HANDSAKE_ERROR}"
  by (auto simp: PPS_Exchange_def Let_def split: outcome.splits prod.splits if_splits option.splits)

lemma Perform_ready:
  assumes "run_state (PPS_Perform fl fll os stack pps params len) p = (Returns (ret, pps', params', len'), p')"
    "t = (if len > 0 then params' ! 1 AND 0x0F else pps_t (pps_parameters (PPS_SelectFirstProtocol pps)))"
  shows "(ret = PPS_OK \<and> t \<in> {ATR_PROTOCOL_TYPE_T0, ATR_PROTOCOL_TYPE_T1} \<and> handler_ready pps' \<and> pps_t (pps_parameters pps') = t) \<or>
    (ret = PPS_PROTOCOL_ERROR \<and> t \<notin> {ATR_PROTOCOL_TYPE_T0, ATR_PROTOCOL_TYPE_T1} \<and> pps_protocol pps' = No_Protocol) \<or>
    (len > 0 \<and> ret \<in> {PPS_ICC_ERROR, PPS_HANDSAKE_ERROR} \<and> pps' = pps)"
proof (cases "len > 0")
  case True
  then obtain ret1 params1 len1 p1 where ex: "run_state (PPS_Exchange os stack pps params len) p = (Returns (ret1, params1, len1), p1)"
    using assms(1) by (auto simp: PPS_Perform_def split: outcome.splits prod.splits)
  show ?thesis
  proof (cases "ret1 = PPS_OK")
    case True
    then show ?thesis
      using assms ex \<open>len > 0\<close>
      by (auto simp: PPS_Perform_def selected_type split: outcome.splits prod.splits if_splits dest!: InitProtocol_ready InitICC_parameters)
  next
    case False
    then show ?thesis
      using assms ex \<open>len > 0\<close> Exchange_codes [OF ex] by (auto simp: PPS_Perform_def)
  qed
next
  case False
  then show ?thesis
    using assms by (auto simp: PPS_Perform_def selected_type split: outcome.splits prod.splits if_splits dest!: InitProtocol_ready)
qed

text \<open>The device and the answer to reset of the card stay the same.\<close>

definition same_card :: "PPS \<Rightarrow> PPS \<Rightarrow> bool" where
  "same_card a b \<longleftrightarrow> icc_ifd (pps_icc a) = icc_ifd (pps_icc b) \<and> icc_atr (pps_icc a) = icc_atr (pps_icc b)"

lemma same_card_parts:
  "same_card pps (pps_confirmed pps params)" "same_card pps (pps_from_atr pps)"
  "PPS_InitICC fl fll pps = Returns (ret, pps') \<Longrightarrow> same_card pps pps'"
  by (auto simp: same_card_def pps_confirmed_def pps_from_atr_def PPS_SelectFirstProtocol_def PPS_InitICC_def ICC_Async_SetBaudrate_def
      Let_def split: if_splits)

lemma same_card_protocols:
  "t0 = snd (Protocol_T0_Init fl icc q) \<Longrightarrow> icc_ifd (the (t0_icc t0)) = icc_ifd icc \<and> icc_atr (the (t0_icc t0)) = icc_atr icc"
  "t1 = snd (Protocol_T1_Init fl icc q) \<Longrightarrow> icc_ifd (the (t1_icc t1)) = icc_ifd icc \<and> icc_atr (the (t1_icc t1)) = icc_atr icc"
  by (simp_all add: Protocol_T0_Init_def Protocol_T1_Init_def ICC_Async_SetTimings_def ICC_Async_GetTimings_def Let_def split: prod.splits)

lemma same_card_InitProtocol: "PPS_InitProtocol fl pps = Returns (ret, pps') \<Longrightarrow> same_card pps pps'"
  using same_card_protocols [of _ fl "pps_icc pps" "pps_parameters pps"]
  by (auto simp: PPS_InitProtocol_def same_card_def Let_def split: prod.splits if_splits)

lemma same_card_trans: "same_card a b \<Longrightarrow> same_card b c \<Longrightarrow> same_card a c"
  by (simp add: same_card_def)

lemma Perform_same_card:
  assumes "run_state (PPS_Perform fl fll os stack pps params len) p = (Returns (ret, pps', params', len'), p')"
  shows "same_card pps pps'"
  using assms
  by (auto simp: PPS_Perform_def split: outcome.splits prod.splits if_splits
      dest!: same_card_parts(3) same_card_InitProtocol intro: same_card_trans same_card_parts same_card_def [THEN iffD2])

text \<open>
  (C23) What a selection leaves behind.  When the exchange was made, or none was asked for,
  the context afterwards holds a handler for the protocol that the confirm names, or that
  the answer to reset offers first, ready for commands, if the driver has that protocol, and
  no handler otherwise; the return value tells which.
\<close>

theorem PPS_Perform_ready:
  assumes "run_state (PPS_Perform fl fll os stack pps params len) p = (Returns (ret, pps', params', len'), p')"
    "t = (if len > 0 then params' ! 1 AND 0x0F else pps_t (pps_parameters (PPS_SelectFirstProtocol pps)))"
  shows "(ret = PPS_OK \<and> t \<in> {ATR_PROTOCOL_TYPE_T0, ATR_PROTOCOL_TYPE_T1} \<and> handler_ready pps' \<and> pps_t (pps_parameters pps') = t) \<or>
    (ret = PPS_PROTOCOL_ERROR \<and> t \<notin> {ATR_PROTOCOL_TYPE_T0, ATR_PROTOCOL_TYPE_T1} \<and> pps_protocol pps' = No_Protocol) \<or>
    (len > 0 \<and> ret \<in> {PPS_ICC_ERROR, PPS_HANDSAKE_ERROR} \<and> pps' = pps)"
  using assms by (rule Perform_ready)

lemma PPS_Perform_ready_witness:
  "\<exists>pps' p'. run_state (PPS_Perform id id script_os (replicate 6 0) (PPS_New sample_card) [] 0) (script_port [] (Some default_properties)) =
      (Returns (PPS_OK, pps', [], 0), p') \<and> handler_ready pps'"
proof -
  have t: "pps_t (pps_parameters (PPS_SelectFirstProtocol (PPS_New sample_card))) = ATR_PROTOCOL_TYPE_T0"
    by (simp add: PPS_SelectFirstProtocol_def PPS_New_def sample_card_def ICC_Async_GetAtr_def blank_ATR_def ATR_GetNumberOfProtocols_def)
  obtain ret pps' where r: "PPS_InitProtocol id (pps_from_atr (PPS_New sample_card)) = Returns (ret, pps')"
    using t by (simp add: PPS_InitProtocol_def selected_type Protocol_T0_Init_def Let_def)
  have "run_state (PPS_Perform id id script_os (replicate 6 0) (PPS_New sample_card) [] 0) (script_port [] (Some default_properties)) =
      (Returns (ret, pps', [], 0), script_port [] (Some default_properties))"
    by (simp add: PPS_Perform_def r)
  from PPS_Perform_ready [OF this refl] this t show ?thesis by (auto simp: ATR_PROTOCOL_TYPE_T0_def)
qed

end
