(* ===== verification/IccSync.thy ===== *)
theory IccSync
  imports ProtocolBase
begin

text \<open>
  Synchronous cards (memory cards), \<^verbatim>\<open>src/src/driver/icc_sync.c\<close> and
  \<^verbatim>\<open>icc_sync.h\<close>: activation, probing of the card type and size, access to the memory
  and the PIN.  Every function gets the structure by pointer, and the data objects of
  \<^verbatim>\<open>tlv_object.c\<close> read the card through a callback that changes it, so the structure is
  part of the state, beside the port.
\<close>

section \<open>Data\<close>

datatype icc_sync_ret =
  ICC_SYNC_OK | ICC_SYNC_DETECT_ERROR | ICC_SYNC_IFD_ERROR | ICC_SYNC_RO_ERROR | ICC_SYNC_PIN_ERROR | ICC_SYNC_BLOCKED_ERROR

definition ICC_SYNC_MAX_TRANSMIT :: nat where "ICC_SYNC_MAX_TRANSMIT = 256"
definition ICC_SYNC_I2C_MAX_RETRIES :: nat where "ICC_SYNC_I2C_MAX_RETRIES = 2"
definition ICC_SYNC_I2C_RETRY_TRIGGER :: nat where "ICC_SYNC_I2C_RETRY_TRIGGER = 1"
definition ICC_SYNC_BAUDRATE :: nat where "ICC_SYNC_BAUDRATE = 115200"
definition ICC_SYNC_PIN_SIZE :: nat where "ICC_SYNC_PIN_SIZE = 3"

text \<open>The card types have the numbers of the types of the interface device, \<open>icc_kind\<close>.\<close>

record ICC_Sync =
  sync_ifd :: "IFD option"
  sync_atr :: "ATR_Sync option"
  sync_type :: icc_kind
  sync_length :: nat
  sync_pagemode :: byte
  sync_pin :: "byte list"
  sync_pin_ok :: bool
  sync_pin_needed :: bool
  sync_active :: bool
  sync_baudrate :: nat

definition ICC_Sync_Clear :: ICC_Sync where
  "ICC_Sync_Clear =
     \<lparr>sync_ifd = None, sync_atr = None, sync_type = IFD_TOWITOKO_I2C_SHORT, sync_length = 0, sync_pagemode = 0x00,
      sync_pin = replicate ICC_SYNC_PIN_SIZE 0x00, sync_pin_ok = False, sync_pin_needed = False, sync_active = False,
      sync_baudrate = 0\<rparr>"

definition ICC_Sync_New :: ICC_Sync where
  "ICC_Sync_New = ICC_Sync_Clear"

definition is_i2c :: "icc_kind \<Rightarrow> bool" where
  "is_i2c k \<longleftrightarrow> k = IFD_TOWITOKO_I2C_SHORT \<or> k = IFD_TOWITOKO_I2C_LONG"

definition ICC_SYNC_NEEDS_PIN :: "ICC_Sync \<Rightarrow> bool" where
  "ICC_SYNC_NEEDS_PIN icc \<longleftrightarrow> (sync_type icc = IFD_TOWITOKO_2W \<or> sync_type icc = IFD_TOWITOKO_3W) \<and> sync_pin_needed icc"

definition ICC_SYNC_NEEDS_ACTIVATE :: "ICC_Sync \<Rightarrow> bool" where
  "ICC_SYNC_NEEDS_ACTIVATE icc \<longleftrightarrow> \<not> sync_active icc"

definition ICC_SYNC_NEEDS_DEACTIVATE :: "ICC_Sync \<Rightarrow> bool" where
  "ICC_SYNC_NEEDS_DEACTIVATE icc \<longleftrightarrow> sync_type icc \<noteq> IFD_TOWITOKO_3W \<and> sync_active icc"

text \<open>The state, an operation of the device behind the card, and access to the structure.\<close>

type_synonym 'd sync = "ICC_Sync \<times> 'd port"
type_synonym ('d, 'a) sync_io = "('d sync, 'a) state"

definition on_port :: "('d, 'a) io \<Rightarrow> ('d, 'a) sync_io" where
  "on_port m = State (\<lambda>(icc, p). case run_state m p of (a, p') \<Rightarrow> (a, (icc, p')))"

definition on_ifd :: "(IFD \<Rightarrow> ('d, 'a) io) \<Rightarrow> ('d, 'a) sync_io" where
  "on_ifd f = State (\<lambda>(icc, p). case run_state (f (the (sync_ifd icc))) p of (a, p') \<Rightarrow> (a, (icc, p')))"

definition get_icc :: "('d, ICC_Sync) sync_io" where
  "get_icc = State (\<lambda>(icc, p). (icc, (icc, p)))"

definition mod_icc :: "(ICC_Sync \<Rightarrow> ICC_Sync) \<Rightarrow> ('d, unit) sync_io" where
  "mod_icc f = State (\<lambda>(icc, p). ((), (f icc, p)))"

section \<open>Activation\<close>

text \<open>
  The card is activated before an access when it is not active, and deactivated afterwards
  unless it is a 3-wire card; the result is whether the device obeyed.
\<close>

definition sync_activate :: "'d os \<Rightarrow> ('d, bool) sync_io" where
  "sync_activate os = do {
     icc \<leftarrow> get_icc;
     if ICC_SYNC_NEEDS_ACTIVATE icc then do {
       r \<leftarrow> on_ifd (IFD_Towitoko_ActivateICC os);
       if r \<noteq> IFD_TOWITOKO_OK then State_Monad.return False else do {
       _ \<leftarrow> mod_icc (\<lambda>icc. icc\<lparr>sync_active := True\<rparr>);
       State_Monad.return True }}
     else State_Monad.return True }"

definition sync_deactivate :: "'d os \<Rightarrow> ('d, bool) sync_io" where
  "sync_deactivate os = do {
     icc \<leftarrow> get_icc;
     if ICC_SYNC_NEEDS_DEACTIVATE icc then do {
       r \<leftarrow> on_ifd (IFD_Towitoko_DeactivateICC os);
       if r \<noteq> IFD_TOWITOKO_OK then State_Monad.return False else do {
       _ \<leftarrow> mod_icc (\<lambda>icc. icc\<lparr>sync_pin_needed := True, sync_active := False\<rparr>);
       State_Monad.return True }}
     else State_Monad.return True }"

section \<open>Memory and PIN\<close>

text \<open>
  \<open>stack\<close> is what the uninitialised command buffers of the device's functions hold.
  \<open>address\<close> is an \<open>unsigned short\<close>.
\<close>

definition ICC_Sync_Read :: "'d os \<Rightarrow> byte list \<Rightarrow> nat \<Rightarrow> nat \<Rightarrow> ('d, icc_sync_ret + byte list) sync_io" where
  "ICC_Sync_Read os stack address len = do {
     ok \<leftarrow> sync_activate os;
     if \<not> ok then State_Monad.return (Inl ICC_SYNC_IFD_ERROR) else do {
     icc \<leftarrow> get_icc;
     r \<leftarrow> on_ifd (\<lambda>ifd. IFD_Towitoko_SetReadAddress os ifd (sync_type icc) (ushort address));
     if r \<noteq> IFD_TOWITOKO_OK then State_Monad.return (Inl ICC_SYNC_IFD_ERROR) else do {
     b \<leftarrow> on_ifd (\<lambda>ifd. IFD_Towitoko_ReadBuffer os ifd (stack ! 0) len);
     case b of
       Inl _ \<Rightarrow> State_Monad.return (Inl ICC_SYNC_IFD_ERROR)
     | Inr data \<Rightarrow> do {
         ok \<leftarrow> sync_deactivate os;
         State_Monad.return (if \<not> ok then Inl ICC_SYNC_IFD_ERROR else Inr data) }}}}"

text \<open>
  The number of trials stored for the caller is \<open>None\<close> where nothing is stored; the
  error counter of 2-wire and 3-wire cards is always stored when it has been read.
\<close>

definition ICC_Sync_EnterPin :: "'d os \<Rightarrow> byte list \<Rightarrow> ('d, icc_sync_ret \<times> nat option) sync_io" where
  "ICC_Sync_EnterPin os pin = do {
     icc \<leftarrow> get_icc;
     if is_i2c (sync_type icc) then State_Monad.return (ICC_SYNC_OK, None) else do {
     ok \<leftarrow> sync_activate os;
     if \<not> ok then State_Monad.return (ICC_SYNC_IFD_ERROR, None) else do {
     (r, trials) \<leftarrow> on_ifd (\<lambda>ifd. IFD_Towitoko_ReadErrorCounter os ifd (sync_type icc));
     if r \<noteq> IFD_TOWITOKO_OK then State_Monad.return (ICC_SYNC_IFD_ERROR, trials)
     else if the trials = 0 then State_Monad.return (ICC_SYNC_BLOCKED_ERROR, trials) else do {
     r \<leftarrow> on_ifd (\<lambda>ifd. IFD_Towitoko_EnterPin os ifd (sync_type icc) pin (the trials));
     if r \<noteq> IFD_TOWITOKO_OK then State_Monad.return (ICC_SYNC_IFD_ERROR, trials) else do {
     (r, new_trials) \<leftarrow> on_ifd (\<lambda>ifd. IFD_Towitoko_ReadErrorCounter os ifd (sync_type icc));
     if r \<noteq> IFD_TOWITOKO_OK then State_Monad.return (ICC_SYNC_IFD_ERROR, trials)
     else if the new_trials < the trials then do {
       _ \<leftarrow> mod_icc (\<lambda>icc. icc\<lparr>sync_pin_ok := False\<rparr>);
       State_Monad.return (ICC_SYNC_PIN_ERROR, new_trials) }
     else do {
       _ \<leftarrow> mod_icc (\<lambda>icc. icc\<lparr>sync_pin := take ICC_SYNC_PIN_SIZE pin, sync_pin_ok := True, sync_pin_needed := False\<rparr>);
       State_Monad.return (ICC_SYNC_OK, new_trials) }}}}}}"

text \<open>Activation that presents a known PIN again, before a write or a change of the PIN.\<close>

definition sync_reactivate :: "'d os \<Rightarrow> ('d, icc_sync_ret) sync_io" where
  "sync_reactivate os = do {
     icc \<leftarrow> get_icc;
     if ICC_SYNC_NEEDS_ACTIVATE icc then do {
       ok \<leftarrow> sync_activate os;
       if \<not> ok then State_Monad.return ICC_SYNC_IFD_ERROR
       else if sync_pin_ok icc \<and> ICC_SYNC_NEEDS_PIN icc then do {
         (r, _) \<leftarrow> ICC_Sync_EnterPin os (sync_pin icc);
         State_Monad.return r }
       else State_Monad.return ICC_SYNC_OK }
     else State_Monad.return ICC_SYNC_OK }"

text \<open>
  One buffer is written and read back until it compares equal, at most the given number of
  times.
\<close>

fun write_tries :: "nat \<Rightarrow> 'd os \<Rightarrow> byte list \<Rightarrow> nat \<Rightarrow> byte list \<Rightarrow> ('d, icc_sync_ret) sync_io" where
  "write_tries 0 os stack address data = State_Monad.return ICC_SYNC_RO_ERROR"
| "write_tries (Suc tries) os stack address data = do {
     r \<leftarrow> sync_reactivate os;
     if r \<noteq> ICC_SYNC_OK then State_Monad.return r else do {
     icc \<leftarrow> get_icc;
     w \<leftarrow> on_ifd (\<lambda>ifd. IFD_Towitoko_SetWriteAddress os ifd (sync_type icc) address (sync_pagemode icc));
     if w \<noteq> IFD_TOWITOKO_OK then State_Monad.return ICC_SYNC_IFD_ERROR else do {
     w \<leftarrow> on_ifd (\<lambda>ifd. IFD_Towitoko_WriteBuffer os ifd stack data);
     if w \<noteq> IFD_TOWITOKO_OK then State_Monad.return ICC_SYNC_IFD_ERROR else do {
     ok \<leftarrow> sync_deactivate os;
     if \<not> ok then State_Monad.return ICC_SYNC_IFD_ERROR else do {
     b \<leftarrow> ICC_Sync_Read os stack address (length data);
     case b of
       Inl e \<Rightarrow> State_Monad.return e
     | Inr buffer \<Rightarrow>
         if buffer = data then State_Monad.return ICC_SYNC_OK
         else write_tries tries os stack address data }}}}}"

text \<open>
  What fits in the current page: up to the next address whose low bits, given by the mask,
  are zero, and at most 256 bytes.  \<open>a\<close> stays far below \<open>2 ^ 32\<close>.
\<close>

definition page_mask :: "byte \<Rightarrow> nat" where
  "page_mask pagemode = unat (pagemode - 0x01)"

definition to_write :: "byte \<Rightarrow> nat \<Rightarrow> nat \<Rightarrow> nat" where
  "to_write pagemode a left = min (min ICC_SYNC_MAX_TRANSMIT left) (((a OR page_mask pagemode) + 1) - a)"

lemma or_ge: "a \<le> a OR (b :: nat)"
proof -
  have "int a = (int a OR int b) AND int a" by (rule bit_eqI) (auto simp: bit_and_iff bit_or_iff)
  also have "\<dots> \<le> int a OR int b" by (rule AND_upper1) simp
  finally show ?thesis by (simp flip: of_nat_or_eq)
qed

lemma to_write_pos: "0 < left \<Longrightarrow> 0 < to_write pagemode a left"
  using or_ge [of a "page_mask pagemode"] by (simp add: to_write_def ICC_SYNC_MAX_TRANSMIT_def)

function write_pages :: "nat \<Rightarrow> 'd os \<Rightarrow> byte list \<Rightarrow> nat \<Rightarrow> byte list \<Rightarrow> nat \<Rightarrow> ('d, icc_sync_ret) sync_io" where
  "write_pages tries os stack address data written =
     (if written < length data then do {
        icc \<leftarrow> get_icc;
        let n = to_write (sync_pagemode icc) (address + written) (length data - written);
        r \<leftarrow> write_tries tries os stack (ushort (address + written)) (take n (drop written data));
        if r \<noteq> ICC_SYNC_OK then State_Monad.return r else do {
        _ \<leftarrow> on_ifd (\<lambda>ifd. if IFD_Towitoko_GetType ifd = IFD_TOWITOKO_CHIPDRIVE_INT
                        then syscall (os_nanosleep os 90) else State_Monad.return ());
        write_pages tries os stack address data (written + n) }}
      else State_Monad.return ICC_SYNC_OK)"
  by pat_completeness auto

termination
  by (relation "measure (\<lambda>(tries, os, stack, address, data, written). length data - written)")
     (auto intro!: diff_less_mono2 to_write_pos)

declare write_pages.simps [simp del]

definition ICC_Sync_Write :: "'d os \<Rightarrow> byte list \<Rightarrow> nat \<Rightarrow> byte list \<Rightarrow> ('d, icc_sync_ret) sync_io" where
  "ICC_Sync_Write os stack address data = do {
     icc \<leftarrow> get_icc;
     let max_retries = (if length data > ICC_SYNC_I2C_RETRY_TRIGGER \<and> is_i2c (sync_type icc) then ICC_SYNC_I2C_MAX_RETRIES else 1);
     write_pages max_retries os stack address data 0 }"

definition ICC_Sync_ChangePin :: "'d os \<Rightarrow> byte list \<Rightarrow> ('d, icc_sync_ret) sync_io" where
  "ICC_Sync_ChangePin os pin = do {
     icc \<leftarrow> get_icc;
     if is_i2c (sync_type icc) then State_Monad.return ICC_SYNC_OK else do {
     r \<leftarrow> sync_reactivate os;
     if r \<noteq> ICC_SYNC_OK then State_Monad.return r else do {
     r \<leftarrow> on_ifd (\<lambda>ifd. IFD_Towitoko_ChangePin os ifd (sync_type icc) pin);
     if r \<noteq> IFD_TOWITOKO_OK then State_Monad.return ICC_SYNC_IFD_ERROR else do {
     _ \<leftarrow> mod_icc (\<lambda>icc. icc\<lparr>sync_pin := take ICC_SYNC_PIN_SIZE pin, sync_pin_ok := True, sync_pin_needed := False\<rparr>);
     State_Monad.return ICC_SYNC_OK }}}}"

definition ICC_Sync_BeginTransmission :: "'d os \<Rightarrow> ('d, icc_sync_ret) sync_io" where
  "ICC_Sync_BeginTransmission os = do {
     r \<leftarrow> on_ifd (\<lambda>ifd. IFD_Towitoko_SetBaudrate os ifd ICC_SYNC_BAUDRATE);
     State_Monad.return (if r \<noteq> IFD_TOWITOKO_OK then ICC_SYNC_IFD_ERROR else ICC_SYNC_OK) }"

definition ICC_Sync_SetBaudrate :: "ICC_Sync \<Rightarrow> nat \<Rightarrow> icc_sync_ret \<times> ICC_Sync" where
  "ICC_Sync_SetBaudrate icc rate = (ICC_SYNC_OK, icc\<lparr>sync_baudrate := rate\<rparr>)"

definition ICC_Sync_GetBaudrate :: "ICC_Sync \<Rightarrow> icc_sync_ret \<times> nat" where
  "ICC_Sync_GetBaudrate icc = (ICC_SYNC_OK, sync_baudrate icc)"

definition ICC_Sync_GetLength :: "ICC_Sync \<Rightarrow> nat" where "ICC_Sync_GetLength icc = sync_length icc"
definition ICC_Sync_GetType :: "ICC_Sync \<Rightarrow> icc_kind" where "ICC_Sync_GetType icc = sync_type icc"
definition ICC_Sync_GetPagemode :: "ICC_Sync \<Rightarrow> byte" where "ICC_Sync_GetPagemode icc = sync_pagemode icc"
definition ICC_Sync_GetIFD :: "ICC_Sync \<Rightarrow> IFD option" where "ICC_Sync_GetIFD icc = sync_ifd icc"
definition ICC_Sync_GetAtr :: "ICC_Sync \<Rightarrow> ATR_Sync option" where "ICC_Sync_GetAtr icc = sync_atr icc"

section \<open>Probing\<close>

text \<open>
  \<open>orig0\<close> and \<open>status0\<close> are the values of the local bytes where a failed call, whose
  result is ignored, leaves them unset.
\<close>

definition probe_pattern :: "byte \<Rightarrow> byte" where
  "probe_pattern orig = (if orig = 0xFF then 0x01 else if orig = 0x00 then 0xFE else NOT orig)"

definition ICC_Sync_ProbeCardType :: "'d os \<Rightarrow> byte list \<Rightarrow> byte \<Rightarrow> byte \<Rightarrow> ('d, icc_sync_ret) sync_io" where
  "ICC_Sync_ProbeCardType os stack status0 orig0 = do {
     icc \<leftarrow> get_icc;
     case sync_atr icc of
       Some atr \<Rightarrow>
         let protocol = ATR_Sync_GetProtocolType atr;
             found = (\<lambda>k. do { _ \<leftarrow> mod_icc (\<lambda>icc. icc\<lparr>sync_type := k\<rparr>); State_Monad.return ICC_SYNC_OK })
         in if protocol = ATR_SYNC_PROTOCOL_TYPE_3W then found IFD_TOWITOKO_3W
            else if protocol = ATR_SYNC_PROTOCOL_TYPE_2W then found IFD_TOWITOKO_2W
            else if protocol = ATR_SYNC_PROTOCOL_TYPE_SDA then found IFD_TOWITOKO_I2C_SHORT
            else State_Monad.return ICC_SYNC_DETECT_ERROR
     | None \<Rightarrow> do {
         _ \<leftarrow> on_ifd (\<lambda>ifd. IFD_Towitoko_SetReadAddress os ifd IFD_TOWITOKO_I2C_SHORT 0);
         st \<leftarrow> on_ifd (IFD_Towitoko_GetStatus os);
         _ \<leftarrow> on_ifd (IFD_Towitoko_DeactivateICC os);
         let status = (case st of Inl _ \<Rightarrow> status0 | Inr s \<Rightarrow> s);
         if status AND 0x10 \<noteq> 0x10 then do {
           _ \<leftarrow> mod_icc (\<lambda>icc. icc\<lparr>sync_type := IFD_TOWITOKO_I2C_SHORT\<rparr>);
           b \<leftarrow> ICC_Sync_Read os stack 0 1;
           let orig = (case b of Inl _ \<Rightarrow> orig0 | Inr bs \<Rightarrow> bs ! 0);
           w \<leftarrow> ICC_Sync_Write os stack 0 [probe_pattern orig];
           _ \<leftarrow> (if w = ICC_SYNC_OK then do { _ \<leftarrow> ICC_Sync_Write os stack 0 [orig]; State_Monad.return () }
                else mod_icc (\<lambda>icc. icc\<lparr>sync_type := IFD_TOWITOKO_I2C_LONG\<rparr>));
           _ \<leftarrow> on_ifd (IFD_Towitoko_ActivateICC os);
           State_Monad.return ICC_SYNC_OK }
         else State_Monad.return ICC_SYNC_DETECT_ERROR } }"

text \<open>
  The loop doubles the length, which is not 0, until an address behind the memory is not
  acknowledged.
\<close>

function probe_length :: "'d os \<Rightarrow> byte \<Rightarrow> nat \<Rightarrow> nat \<Rightarrow> ('d, unit) sync_io" where
  "probe_length os status0 len maxlen = do {
     _ \<leftarrow> mod_icc (\<lambda>icc. icc\<lparr>sync_length := len\<rparr>);
     if 0 < len \<and> len < maxlen then do {
       icc \<leftarrow> get_icc;
       _ \<leftarrow> on_ifd (\<lambda>ifd. IFD_Towitoko_SetReadAddress os ifd (sync_type icc) (ushort len));
       st \<leftarrow> on_ifd (IFD_Towitoko_GetStatus os);
       _ \<leftarrow> on_ifd (IFD_Towitoko_DeactivateICC os);
       _ \<leftarrow> on_ifd (IFD_Towitoko_ActivateICC os);
       let status = (case st of Inl _ \<Rightarrow> status0 | Inr s \<Rightarrow> s);
       if status AND 0x10 = 0x10 then State_Monad.return ()
       else probe_length os status (len * 2) maxlen }
     else State_Monad.return () }"
  by pat_completeness auto

termination
  by (relation "measure (\<lambda>(os, status0, len, maxlen). maxlen - len)") auto

declare probe_length.simps [simp del]

definition ICC_Sync_ProbeMemoryLength :: "'d os \<Rightarrow> byte \<Rightarrow> ('d, icc_sync_ret) sync_io" where
  "ICC_Sync_ProbeMemoryLength os status0 = do {
     icc \<leftarrow> get_icc;
     _ \<leftarrow> (case sync_atr icc of
            Some atr \<Rightarrow> mod_icc (\<lambda>icc. icc\<lparr>sync_length := ATR_Sync_GetNumberOfDataUnits atr * ATR_Sync_GetLengthOfDataUnits atr div 8\<rparr>)
          | None \<Rightarrow> (if sync_type icc = IFD_TOWITOKO_I2C_SHORT then probe_length os status0 256 2048
                     else if sync_type icc = IFD_TOWITOKO_I2C_LONG then probe_length os status0 2048 32768
                     else probe_length os status0 256 2048));
     State_Monad.return ICC_SYNC_OK }"

definition ICC_Sync_ProbePagemode :: "('d, icc_sync_ret) sync_io" where
  "ICC_Sync_ProbePagemode = do {
     _ \<leftarrow> mod_icc (\<lambda>icc. icc\<lparr>sync_pagemode := (if sync_type icc = IFD_TOWITOKO_I2C_LONG then 0x40 else 0x00)\<rparr>);
     State_Monad.return ICC_SYNC_OK }"

definition ICC_Sync_CreateAtr :: "ICC_Sync \<Rightarrow> ATR_Sync" where
  "ICC_Sync_CreateAtr icc =
     (case sync_atr icc of
        Some atr \<Rightarrow> atr
      | None \<Rightarrow>
          let protocol = (case sync_type icc of
                IFD_TOWITOKO_2W \<Rightarrow> ATR_SYNC_PROTOCOL_TYPE_2W
              | IFD_TOWITOKO_3W \<Rightarrow> ATR_SYNC_PROTOCOL_TYPE_3W
              | _ \<Rightarrow> ATR_SYNC_PROTOCOL_TYPE_SDA);
              n = sync_length icc;
              h2 = (if n = 256 then 0x13 else if n = 512 then 0x1B else if n = 1024 then 0x23 else if n = 2048 then 0x2B
                    else if n = 4096 then 0x33 else if n = 8192 then 0x3B else if n = 16384 then 0x43 else 0x4B)
          in snd (ATR_Sync_Init ATR_Sync_New [push_bit 4 protocol OR ATR_SYNC_STRUCTURE_ID_GENERAL, h2, 0x10, 0x84] ATR_SYNC_SIZE))"

section \<open>Initialisation\<close>

text \<open>A failed step of the probing clears the structure and passes its code on.\<close>

definition sync_then :: "('d, icc_sync_ret) sync_io \<Rightarrow> ('d, icc_sync_ret) sync_io \<Rightarrow> ('d, icc_sync_ret) sync_io" where
  "sync_then m k = do {
     r \<leftarrow> m;
     if r \<noteq> ICC_SYNC_OK then do { _ \<leftarrow> mod_icc (\<lambda>_. ICC_Sync_Clear); State_Monad.return r } else k }"

definition sync_ifd_step :: "('d, ifd_ret) io \<Rightarrow> ('d, icc_sync_ret) sync_io" where
  "sync_ifd_step m = do {
     r \<leftarrow> on_port m;
     State_Monad.return (if r \<noteq> IFD_TOWITOKO_OK then ICC_SYNC_IFD_ERROR else ICC_SYNC_OK) }"

definition ICC_Sync_Init :: "'d os \<Rightarrow> byte list \<Rightarrow> byte \<Rightarrow> byte \<Rightarrow> IFD \<Rightarrow> ('d, icc_sync_ret) sync_io" where
  "ICC_Sync_Init os stack status0 orig0 ifd = do {
     r \<leftarrow> sync_ifd_step (IFD_Towitoko_SetLED os ifd IFD_TOWITOKO_LED_RED);
     if r \<noteq> ICC_SYNC_OK then State_Monad.return r else do {
     r \<leftarrow> sync_ifd_step (IFD_Towitoko_SetBaudrate os ifd ICC_SYNC_BAUDRATE);
     if r \<noteq> ICC_SYNC_OK then State_Monad.return r else do {
     r \<leftarrow> sync_ifd_step (IFD_Towitoko_ActivateICC os ifd);
     if r \<noteq> ICC_SYNC_OK then State_Monad.return r else do {
     reset \<leftarrow> on_port (IFD_Towitoko_ResetSyncICC os ifd (stack ! 0));
     case reset of
       Inl _ \<Rightarrow> do { _ \<leftarrow> mod_icc (\<lambda>icc. icc\<lparr>sync_atr := None\<rparr>); State_Monad.return ICC_SYNC_IFD_ERROR }
     | Inr atr \<Rightarrow> do {
         _ \<leftarrow> mod_icc (\<lambda>icc. icc\<lparr>sync_atr := atr, sync_active := True, sync_baudrate := ICC_SYNC_BAUDRATE, sync_ifd := Some ifd,
                                 sync_pin_ok := False, sync_pin_needed := True\<rparr>);
         sync_then (ICC_Sync_ProbeCardType os stack status0 orig0)
           (sync_then (ICC_Sync_ProbeMemoryLength os status0)
             (sync_then ICC_Sync_ProbePagemode
               (do {
                 _ \<leftarrow> mod_icc (\<lambda>icc. icc\<lparr>sync_atr := Some (ICC_Sync_CreateAtr icc)\<rparr>);
                 sync_then (sync_ifd_step (IFD_Towitoko_SetLED os ifd IFD_TOWITOKO_LED_GREEN))
                   (do {
                     icc \<leftarrow> get_icc;
                     if ICC_SYNC_NEEDS_DEACTIVATE icc then
                       sync_then (sync_ifd_step (IFD_Towitoko_DeactivateICC os ifd))
                         (do { _ \<leftarrow> mod_icc (\<lambda>icc. icc\<lparr>sync_active := False\<rparr>); State_Monad.return ICC_SYNC_OK })
                     else State_Monad.return ICC_SYNC_OK }) }))) }}}}}"

definition ICC_Sync_Close :: "'d os \<Rightarrow> ('d, icc_sync_ret) sync_io" where
  "ICC_Sync_Close os = do {
     r \<leftarrow> on_ifd (IFD_Towitoko_DeactivateICC os);
     if r \<noteq> IFD_TOWITOKO_OK then State_Monad.return ICC_SYNC_IFD_ERROR else do {
     r \<leftarrow> on_ifd (\<lambda>ifd. IFD_Towitoko_SetLED os ifd IFD_TOWITOKO_LED_OFF);
     if r \<noteq> IFD_TOWITOKO_OK then State_Monad.return ICC_SYNC_IFD_ERROR else do {
     _ \<leftarrow> mod_icc (\<lambda>_. ICC_Sync_Clear);
     State_Monad.return ICC_SYNC_OK }}}"

section \<open>What the operations keep\<close>

text \<open>
  The identity of the card: the device, the answer to reset, the type, the size and the
  page mode do not change after initialisation.
\<close>

definition sync_card :: "ICC_Sync \<Rightarrow> IFD option \<times> ATR_Sync option \<times> icc_kind \<times> nat \<times> byte" where
  "sync_card icc = (sync_ifd icc, sync_atr icc, sync_type icc, sync_length icc, sync_pagemode icc)"

lemma run_on_port [simp]: "run_state (on_port m) (icc, p) = (case run_state m p of (a, p') \<Rightarrow> (a, (icc, p')))"
  and run_on_ifd [simp]: "run_state (on_ifd f) (icc, p) = (case run_state (f (the (sync_ifd icc))) p of (a, p') \<Rightarrow> (a, (icc, p')))"
  and run_get_icc [simp]: "run_state get_icc (icc, p) = (icc, (icc, p))"
  and run_mod_icc [simp]: "run_state (mod_icc g) (icc, p) = ((), (g icc, p))"
  by (simp_all add: on_port_def on_ifd_def get_icc_def mod_icc_def)

lemma keeps_card_ops [vcg]:
  "keeps (\<lambda>s. sync_card (fst s) = c) (on_ifd f)" "keeps (\<lambda>s. sync_card (fst s) = c) (on_port m)"
  "keeps (\<lambda>s. sync_card (fst s) = c) get_icc"
  by (auto intro!: keepsI split: prod.splits)

lemma keeps_card_mod [vcg]: "(\<And>icc. sync_card (g icc) = sync_card icc) \<Longrightarrow> keeps (\<lambda>s. sync_card (fst s) = c) (mod_icc g)"
  by (auto intro!: keepsI)

lemma keeps_case_sum [vcg]:
  "(\<And>a. keeps I (f a)) \<Longrightarrow> (\<And>b. keeps I (g b)) \<Longrightarrow> keeps I (case x of Inl a \<Rightarrow> f a | Inr b \<Rightarrow> g b)"
  by (cases x) simp_all

lemma keeps_card_activate [vcg]: "keeps (\<lambda>s. sync_card (fst s) = c) (sync_activate os)"
  and keeps_card_deactivate [vcg]: "keeps (\<lambda>s. sync_card (fst s) = c) (sync_deactivate os)"
  unfolding sync_activate_def sync_deactivate_def by (intro vcg; simp add: sync_card_def)+

lemma keeps_card_Read [vcg]: "keeps (\<lambda>s. sync_card (fst s) = c) (ICC_Sync_Read os stack address len)"
  unfolding ICC_Sync_Read_def by (intro vcg)

lemma keeps_card_EnterPin [vcg]: "keeps (\<lambda>s. sync_card (fst s) = c) (ICC_Sync_EnterPin os pin)"
  unfolding ICC_Sync_EnterPin_def by (intro vcg; simp add: sync_card_def)

lemma keeps_card_reactivate [vcg]: "keeps (\<lambda>s. sync_card (fst s) = c) (sync_reactivate os)"
  unfolding sync_reactivate_def by (intro vcg)

lemma keeps_card_tries [vcg]: "keeps (\<lambda>s. sync_card (fst s) = c) (write_tries tries os stack address data)"
  by (induction tries) (auto intro!: vcg)

lemma keeps_card_pages [vcg]: "keeps (\<lambda>s. sync_card (fst s) = c) (write_pages tries os stack address data written)"
proof (induction tries os stack address data written rule: write_pages.induct)
  case (1 tries os stack address data written)
  show ?case
    by (subst write_pages.simps) (intro vcg keeps_let; use 1 in simp)
qed

lemma keeps_card_Write [vcg]: "keeps (\<lambda>s. sync_card (fst s) = c) (ICC_Sync_Write os stack address data)"
  unfolding ICC_Sync_Write_def by (intro vcg)

lemma keeps_card_ChangePin [vcg]: "keeps (\<lambda>s. sync_card (fst s) = c) (ICC_Sync_ChangePin os pin)"
  unfolding ICC_Sync_ChangePin_def by (intro vcg; simp add: sync_card_def)

lemma keeps_card_Begin [vcg]: "keeps (\<lambda>s. sync_card (fst s) = c) (ICC_Sync_BeginTransmission os)"
  unfolding ICC_Sync_BeginTransmission_def by (intro vcg)

section \<open>Writing page by page\<close>

text \<open>
  The reference: the data cut at the page boundaries of the card, and the pages written one
  after the other.
\<close>

function page_segments :: "byte \<Rightarrow> nat \<Rightarrow> byte list \<Rightarrow> (nat \<times> byte list) list" where
  "page_segments pagemode a data =
     (if data = [] then []
      else let n = to_write pagemode a (length data)
           in (a, take n data) # page_segments pagemode (a + n) (drop n data))"
  by pat_completeness auto

termination
  by (relation "measure (\<lambda>(pagemode, a, data). length data)") (auto simp: to_write_pos)

declare page_segments.simps [simp del]

fun write_all :: "nat \<Rightarrow> 'd os \<Rightarrow> byte list \<Rightarrow> (nat \<times> byte list) list \<Rightarrow> ('d, icc_sync_ret) sync_io" where
  "write_all tries os stack [] = State_Monad.return ICC_SYNC_OK"
| "write_all tries os stack ((a, seg) # segs) = do {
     r \<leftarrow> write_tries tries os stack (ushort a) seg;
     if r \<noteq> ICC_SYNC_OK then State_Monad.return r else do {
     _ \<leftarrow> on_ifd (\<lambda>ifd. if IFD_Towitoko_GetType ifd = IFD_TOWITOKO_CHIPDRIVE_INT
                     then syscall (os_nanosleep os 90) else State_Monad.return ());
     write_all tries os stack segs }}"

lemma write_pages_segments:
  "sync_pagemode icc = pagemode \<Longrightarrow> written \<le> length data \<Longrightarrow>
   run_state (write_pages tries os stack address data written) (icc, p) =
   run_state (write_all tries os stack (page_segments pagemode (address + written) (drop written data))) (icc, p)"
proof (induction "length data - written" arbitrary: written icc p rule: less_induct)
  case less
  show ?case
  proof (cases "written < length data")
    case True
    let ?n = "to_write pagemode (address + written) (length data - written)"
    have n: "0 < ?n" "?n \<le> length data - written" using True by (rule_tac to_write_pos, simp) (simp add: to_write_def)
    have seg: "page_segments pagemode (address + written) (drop written data) =
        (address + written, take ?n (drop written data)) # page_segments pagemode (address + (written + ?n)) (drop (written + ?n) data)"
      using True by (subst page_segments.simps) (simp add: Let_def ac_simps)
    have step: "run_state (write_pages tries os stack address data (written + ?n)) (icc', p') =
        run_state (write_all tries os stack (page_segments pagemode (address + (written + ?n)) (drop (written + ?n) data))) (icc', p')"
      if "run_state (write_tries tries os stack (ushort (address + written)) (take ?n (drop written data))) (icc, p) = (r, (icc', p0))" for r icc' p0 p'
    proof (rule less.hyps)
      show "sync_pagemode icc' = pagemode"
        using keepsD [OF keeps_card_tries that, of "sync_card icc"] less.prems by (simp add: sync_card_def)
    qed (use n in auto)
    show ?thesis
      using True less.prems(1) step by (subst write_pages.simps) (auto simp: seg Let_def split: prod.split)
  next
    case False
    then have "drop written data = []" by simp
    then show ?thesis using False by (simp add: write_pages.simps page_segments.simps)
  qed
qed

lemma or_mask: "a OR mask k = push_bit k (drop_bit k a) + mask (k :: nat)" for a :: nat
proof -
  have "push_bit k (drop_bit k a) AND mask k = 0" by (rule bit_eqI) (simp add: bit_simps)
  then have "push_bit k (drop_bit k a) + mask k = push_bit k (drop_bit k a) OR mask k" by (rule disjunctive_add_eq_or)
  also have "\<dots> = a OR mask k" by (rule bit_eqI) (auto simp: bit_simps)
  finally show ?thesis by simp
qed

text \<open>The size of a page: 64 bytes for cards with long addresses, 256 for the others.\<close>

definition page_size :: "byte \<Rightarrow> nat" where
  "page_size pagemode = page_mask pagemode + 1"

lemma page_masks: "page_mask 0x00 = 255" "page_mask 0x40 = 63"
  by (simp_all add: page_mask_def unsigned_minus_1_eq_mask mask_eq_exp_minus_1)

lemma page_end:
  assumes "pagemode = 0x00 \<or> pagemode = 0x40"
  shows "(a OR page_mask pagemode) + 1 = (a div page_size pagemode + 1) * page_size pagemode"
proof -
  have "\<exists>k. page_mask pagemode = mask k \<and> page_size pagemode = 2 ^ k"
    using assms by (auto simp: page_masks page_size_def mask_eq_exp_minus_1 intro: exI [of _ 8] exI [of _ 6])
  then obtain k where k: "page_mask pagemode = mask k" "page_size pagemode = 2 ^ k" by blast
  show ?thesis unfolding k or_mask by (simp add: push_bit_eq_mult drop_bit_eq_div mask_eq_exp_minus_1)
qed

lemma page_segments_props:
  "pagemode = 0x00 \<or> pagemode = 0x40 \<Longrightarrow> concat (map snd (page_segments pagemode a data)) = data \<and>
    (\<forall>(b, seg) \<in> set (page_segments pagemode a data). seg \<noteq> [] \<and> length seg \<le> 256 \<and>
       (b + length seg - 1) div page_size pagemode = b div page_size pagemode)"
proof (induction pagemode a data rule: page_segments.induct)
  case (1 pm a data)
  show ?case
  proof (cases "data = []")
    case False
    let ?n = "to_write pm a (length data)" and ?s = "page_size pm"
    have n: "0 < ?n" "?n \<le> length data" "?n \<le> 256" using False by (simp_all add: to_write_pos) (simp_all add: to_write_def ICC_SYNC_MAX_TRANSMIT_def)
    have s: "0 < ?s" by (simp add: page_size_def)
    have "?n \<le> (a OR page_mask pm) + 1 - a" by (simp add: to_write_def)
    then have "a + ?n - 1 < (a div ?s + 1) * ?s"
      using n(1) page_end [OF 1(2), of a] by linarith
    moreover have "a div ?s * ?s \<le> a + ?n - 1" using n(1) div_times_less_eq_dividend [of a ?s] by linarith
    ultimately have "(a + ?n - 1) div ?s = a div ?s" using s by (intro div_nat_eqI) (simp_all add: ac_simps)
    then show ?thesis
      using 1(1) [OF False refl 1(2)] False n by (subst (1 2) page_segments.simps) (auto simp: Let_def)
  qed (simp add: page_segments.simps)
qed

text \<open>
  (C25) Writing to a memory card: the data is written in pieces, in order and completely, no
  piece is longer than 256 bytes and none crosses a page boundary of the card; I2C cards get
  a second try for more than one byte of data.
\<close>

theorem ICC_Sync_Write_pages:
  assumes "sync_pagemode icc = 0x00 \<or> sync_pagemode icc = 0x40"
    "segs = page_segments (sync_pagemode icc) address data"
  shows "run_state (ICC_Sync_Write os stack address data) (icc, p) =
      run_state (write_all (if 1 < length data \<and> is_i2c (sync_type icc) then 2 else 1) os stack segs) (icc, p) \<and>
    concat (map snd segs) = data \<and>
    (\<forall>(a, seg) \<in> set segs. seg \<noteq> [] \<and> length seg \<le> 256 \<and>
       (a + length seg - 1) div page_size (sync_pagemode icc) = a div page_size (sync_pagemode icc))"
  using page_segments_props [OF assms(1), of address data]
    write_pages_segments [OF refl, of 0 data _ os stack address icc p]
  by (simp add: ICC_Sync_Write_def assms(2) ICC_SYNC_I2C_RETRY_TRIGGER_def ICC_SYNC_I2C_MAX_RETRIES_def)

lemma ICC_Sync_Write_pages_witness:
  "page_segments 0x40 60 [1, 2, 3, 4, 5, 6] = [(60, [1, 2, 3, 4]), (64, [5, 6])] \<and>
   run_state (ICC_Sync_Write script_os (replicate 17 0) 60 [1, 2, 3, 4, 5, 6])
     (ICC_Sync_Clear\<lparr>sync_type := IFD_TOWITOKO_I2C_LONG, sync_pagemode := 0x40\<rparr>, script_port [] None) =
   run_state (write_all 2 script_os (replicate 17 0) [(60, [1, 2, 3, 4]), (64, [5, 6])])
     (ICC_Sync_Clear\<lparr>sync_type := IFD_TOWITOKO_I2C_LONG, sync_pagemode := 0x40\<rparr>, script_port [] None)"
proof -
  have w: "to_write 0x40 60 6 = 4" "to_write 0x40 64 2 = 2"
    by (simp_all add: to_write_def page_masks ICC_SYNC_MAX_TRANSMIT_def)
  have s: "page_segments 0x40 60 [1, 2, 3, 4, 5, 6] = [(60, [1, 2, 3, 4]), (64, [5, 6])]"
    using w by (simp add: page_segments.simps Let_def numeral_eq_Suc)
  then show ?thesis
    using ICC_Sync_Write_pages [of "ICC_Sync_Clear\<lparr>sync_type := IFD_TOWITOKO_I2C_LONG, sync_pagemode := 0x40\<rparr>" _ 60 "[1, 2, 3, 4, 5, 6]"
        script_os "replicate 17 0" "script_port [] None"] by (simp add: is_i2c_def)
qed

lemma Read_error: "run_state (ICC_Sync_Read os stack address len) s = (Inl e, s') \<Longrightarrow> e = ICC_SYNC_IFD_ERROR"
  by (cases s) (auto simp: ICC_Sync_Read_def split: prod.splits if_splits sum.splits)

text \<open>
  (C26) A piece counts as written only when it has been read back: the last thing a
  successful attempt does is to read the same number of bytes from the same address, and what
  it gets is the data.  Without success it is never reported as written.
\<close>

theorem write_tries_verified:
  "run_state (write_tries tries os stack address data) s = (ICC_SYNC_OK, s') \<Longrightarrow>
   \<exists>s1. run_state (ICC_Sync_Read os stack address (length data)) s1 = (Inr data, s')"
  by (induction tries arbitrary: s) (auto split: prod.splits if_splits sum.splits dest: Read_error)

lemma write_tries_verified_witness:
  "\<exists>s1 s'. run_state (write_tries 1 script_os (replicate 17 0) 5 [0x41])
      (ICC_Sync_Clear\<lparr>sync_ifd := Some IFD_Towitoko_Clear, sync_type := IFD_TOWITOKO_3W, sync_active := True\<rparr>,
       script_port [[0x01], [0x01], [0x01], [0x41, 0x01]] (Some default_properties)) = (ICC_SYNC_OK, s') \<and>
    run_state (ICC_Sync_Read script_os (replicate 17 0) 5 1) s1 = (Inr [0x41], s')"
proof -
  let ?s = "(ICC_Sync_Clear\<lparr>sync_ifd := Some IFD_Towitoko_Clear, sync_type := IFD_TOWITOKO_3W, sync_active := True\<rparr>,
       script_port [[0x01], [0x01], [0x01], [0x41, 0x01]] (Some default_properties))"
  obtain r s' where r: "run_state (write_tries 1 script_os (replicate 17 0) 5 [0x41]) ?s = (r, s')" by (metis surj_pair)
  then have "r = ICC_SYNC_OK"
    by (auto simp: sync_reactivate_def sync_activate_def sync_deactivate_def ICC_Sync_Read_def ICC_SYNC_NEEDS_ACTIVATE_def ICC_SYNC_NEEDS_DEACTIVATE_def
        IFD_Towitoko_SetWriteAddress_def IFD_Towitoko_SetReadAddress_def IFD_Towitoko_WriteBuffer_def IFD_Towitoko_ReadBuffer_def read_block_def
        IFD_TOWITOKO_PS_def ifd_eval script_port_def Let_def)
  then show ?thesis using r write_tries_verified [of 1 script_os "replicate 17 0" 5 "[0x41]" ?s s'] by auto
qed

section \<open>The PIN\<close>

lemma counter_stored:
  "run_state (IFD_Towitoko_ReadErrorCounter os ifd IFD_TOWITOKO_2W) p = ((IFD_TOWITOKO_OK, trials), p') \<Longrightarrow> \<exists>n. trials = Some n"
  "run_state (IFD_Towitoko_ReadErrorCounter os ifd IFD_TOWITOKO_3W) p = ((IFD_TOWITOKO_OK, trials), p') \<Longrightarrow> \<exists>n. trials = Some n"
  by (auto simp: IFD_Towitoko_ReadErrorCounter_def read_counter_def ifd_exchange_def split: prod.splits if_splits option.splits sum.splits)

text \<open>
  (C27) Presenting a PIN of three bytes to a 2-wire or 3-wire card.  Unless the device fails,
  the error counter is read first.  A card with no trials left is reported as blocked and
  nothing is presented to it.  Otherwise the PIN is presented with the \<open>n\<close> trials that
  were read and the counter is read again: when it has gone down to \<open>m < n\<close> the PIN is
  reported as wrong and the success of an earlier one is forgotten, else the PIN is kept
  and not asked for again; in both cases \<open>m\<close> is what the caller gets.  The identity of
  the card does not change.
\<close>

theorem ICC_Sync_EnterPin_correct:
  assumes "run_state (ICC_Sync_EnterPin os pin) (icc, p) = ((ret, trials), (icc', p'))"
    "sync_type icc = IFD_TOWITOKO_2W \<or> sync_type icc = IFD_TOWITOKO_3W" "length pin = 3"
  shows "sync_card icc' = sync_card icc \<and> ret \<notin> {ICC_SYNC_RO_ERROR, ICC_SYNC_DETECT_ERROR} \<and>
    (ret \<noteq> ICC_SYNC_IFD_ERROR \<longrightarrow>
      (\<exists>n p1 p2. run_state (sync_activate os) (icc, p) = (True, (icc\<lparr>sync_active := True\<rparr>, p1)) \<and>
         run_state (IFD_Towitoko_ReadErrorCounter os (the (sync_ifd icc)) (sync_type icc)) p1 = ((IFD_TOWITOKO_OK, Some n), p2) \<and>
         (if n = 0 then ret = ICC_SYNC_BLOCKED_ERROR \<and> trials = Some 0 \<and> icc' = icc\<lparr>sync_active := True\<rparr> \<and> p' = p2
          else (\<exists>m p3. run_state (IFD_Towitoko_EnterPin os (the (sync_ifd icc)) (sync_type icc) pin n) p2 = (IFD_TOWITOKO_OK, p3) \<and>
            run_state (IFD_Towitoko_ReadErrorCounter os (the (sync_ifd icc)) (sync_type icc)) p3 = ((IFD_TOWITOKO_OK, Some m), p') \<and>
            trials = Some m \<and>
            (if m < n then ret = ICC_SYNC_PIN_ERROR \<and> icc' = icc\<lparr>sync_active := True, sync_pin_ok := False\<rparr>
             else ret = ICC_SYNC_OK \<and>
               icc' = icc\<lparr>sync_active := True, sync_pin := pin, sync_pin_ok := True, sync_pin_needed := False\<rparr>)))))"
proof -
  have card: "sync_card icc' = sync_card icc"
    using keepsD [OF keeps_card_EnterPin assms(1), of "sync_card icc"] by simp
  have act: "icc1 = icc\<lparr>sync_active := True\<rparr>" if "run_state (sync_activate os) (icc, p) = (True, (icc1, p1))" for icc1 p1
    using that by (cases icc) (auto simp: sync_activate_def ICC_SYNC_NEEDS_ACTIVATE_def split: if_splits prod.splits)
  let ?ifd = "the (sync_ifd icc)" and ?t = "sync_type icc"
  have stored: "\<exists>n. x = Some n" if "run_state (IFD_Towitoko_ReadErrorCounter os ?ifd ?t) q = ((IFD_TOWITOKO_OK, x), q')" for x q q'
    using that assms(2) counter_stored by auto
  have "\<exists>n p1 p2. run_state (sync_activate os) (icc, p) = (True, (icc\<lparr>sync_active := True\<rparr>, p1)) \<and>
      run_state (IFD_Towitoko_ReadErrorCounter os ?ifd ?t) p1 = ((IFD_TOWITOKO_OK, Some n), p2) \<and>
      (if n = 0 then ret = ICC_SYNC_BLOCKED_ERROR \<and> trials = Some 0 \<and> icc' = icc\<lparr>sync_active := True\<rparr> \<and> p' = p2
       else (\<exists>m p3. run_state (IFD_Towitoko_EnterPin os ?ifd ?t pin n) p2 = (IFD_TOWITOKO_OK, p3) \<and>
         run_state (IFD_Towitoko_ReadErrorCounter os ?ifd ?t) p3 = ((IFD_TOWITOKO_OK, Some m), p') \<and> trials = Some m \<and>
         (if m < n then ret = ICC_SYNC_PIN_ERROR \<and> icc' = icc\<lparr>sync_active := True, sync_pin_ok := False\<rparr>
          else ret = ICC_SYNC_OK \<and>
            icc' = icc\<lparr>sync_active := True, sync_pin := pin, sync_pin_ok := True, sync_pin_needed := False\<rparr>)))"
    if ok: "ret \<noteq> ICC_SYNC_IFD_ERROR"
  proof -
    obtain p1 where 1: "run_state (sync_activate os) (icc, p) = (True, (icc\<lparr>sync_active := True\<rparr>, p1))"
      using assms(1,2) ok act by (fastforce simp: ICC_Sync_EnterPin_def is_i2c_def split: prod.splits if_splits)
    obtain r x p2 where 2: "run_state (IFD_Towitoko_ReadErrorCounter os ?ifd ?t) p1 = ((r, x), p2)" by (metis surj_pair)
    have "r = IFD_TOWITOKO_OK" using assms(1,2) ok 1 2 by (auto simp: ICC_Sync_EnterPin_def is_i2c_def split: if_splits)
    then obtain n where n: "run_state (IFD_Towitoko_ReadErrorCounter os ?ifd ?t) p1 = ((IFD_TOWITOKO_OK, Some n), p2)"
      using stored 2 by blast
    show ?thesis
    proof (cases "n = 0")
      case True
      then show ?thesis using assms(1,2) ok 1 n by (auto simp: ICC_Sync_EnterPin_def is_i2c_def)
    next
      case False
      obtain r3 p3 where 3: "run_state (IFD_Towitoko_EnterPin os ?ifd ?t pin n) p2 = (r3, p3)" by fastforce
      obtain r4 y p4 where 4: "run_state (IFD_Towitoko_ReadErrorCounter os ?ifd ?t) p3 = ((r4, y), p4)" by (metis surj_pair)
      have r: "r3 = IFD_TOWITOKO_OK" "r4 = IFD_TOWITOKO_OK"
        using assms(1,2) ok 1 n 3 4 False by (auto simp: ICC_Sync_EnterPin_def is_i2c_def split: if_splits)
      then obtain m where m: "y = Some m" using stored 4 by blast
      have "p' = p4 \<and> trials = Some m \<and> (if m < n then ret = ICC_SYNC_PIN_ERROR \<and> icc' = icc\<lparr>sync_active := True, sync_pin_ok := False\<rparr>
          else ret = ICC_SYNC_OK \<and>
            icc' = icc\<lparr>sync_active := True, sync_pin := pin, sync_pin_ok := True, sync_pin_needed := False\<rparr>)"
        using assms 1 n 3 4 r m False by (auto simp: ICC_Sync_EnterPin_def is_i2c_def ICC_SYNC_PIN_SIZE_def split: if_splits)
      then show ?thesis using False 1 n 3 4 r m by auto
    qed
  qed
  moreover have "ret \<notin> {ICC_SYNC_RO_ERROR, ICC_SYNC_DETECT_ERROR}"
    using assms(1,2) by (auto simp: ICC_Sync_EnterPin_def is_i2c_def split: prod.splits if_splits)
  ultimately show ?thesis using card by blast
qed

text \<open>A wrong PIN: of three trials two are left.\<close>

lemma ICC_Sync_EnterPin_correct_witness:
  "\<exists>icc' p'. run_state (ICC_Sync_EnterPin script_os [0x12, 0x34, 0x56])
      (ICC_Sync_Clear\<lparr>sync_ifd := Some IFD_Towitoko_Clear, sync_type := IFD_TOWITOKO_2W\<rparr>,
       script_port [[0x01], [0x01], [0x07, 0x00, 0x00, 0x00, 0x01], [0x01], [0x01], [0x01], [0x01], [0x01], [0x01],
                    [0x01], [0x06, 0x00, 0x00, 0x00, 0x01]] (Some default_properties)) =
      ((ICC_SYNC_PIN_ERROR, Some 2), (icc', p')) \<and> \<not> sync_pin_ok icc'"
proof -
  let ?s = "(ICC_Sync_Clear\<lparr>sync_ifd := Some IFD_Towitoko_Clear, sync_type := IFD_TOWITOKO_2W\<rparr>,
       script_port [[0x01], [0x01], [0x07, 0x00, 0x00, 0x00, 0x01], [0x01], [0x01], [0x01], [0x01], [0x01], [0x01],
                    [0x01], [0x06, 0x00, 0x00, 0x00, 0x01]] (Some default_properties))"
  obtain ret trials icc' p' where r: "run_state (ICC_Sync_EnterPin script_os [0x12, 0x34, 0x56]) ?s = ((ret, trials), (icc', p'))"
    by (metis surj_pair)
  have pop: "IFD_Towitoko_NumTrials 0x07 = 3" "IFD_Towitoko_NumTrials 0x06 = 2"
    by (simp_all add: IFD_Towitoko_NumTrials_def upt_rec)
  from r have "ret = ICC_SYNC_PIN_ERROR \<and> trials = Some 2"
    by (auto simp: ICC_Sync_EnterPin_def sync_activate_def is_i2c_def ICC_SYNC_NEEDS_ACTIVATE_def IFD_Towitoko_ActivateICC_def
        IFD_Towitoko_ReadErrorCounter_def read_counter_def IFD_Towitoko_EnterPin_def enter_pin_2W_def counter_2W_def pop
        IFD_TOWITOKO_PIN_SIZE_def ICC_Sync_Clear_def ifd_eval script_port_def Let_def)
  then show ?thesis using r ICC_Sync_EnterPin_correct [OF r] by (auto split: if_splits)
qed

section \<open>The made-up answer to reset\<close>

text \<open>
  The answer to reset that is made up for a card without one describes the card: read
  back by the accessors it gives the size that was probed and, for every kind of card, the
  protocol type from which the probing concludes the same kind, up to the length of the
  address of I2C cards.
\<close>

lemma ICC_Sync_CreateAtr_describes:
  assumes "sync_atr icc = None" "sync_length icc \<in> {256, 512, 1024, 2048, 4096, 8192, 16384, 32768}"
    "atr = ICC_Sync_CreateAtr icc"
  shows "ATR_Sync_GetNumberOfDataUnits atr * ATR_Sync_GetLengthOfDataUnits atr div 8 = sync_length icc \<and>
    ATR_Sync_GetProtocolType atr = (case sync_type icc of IFD_TOWITOKO_2W \<Rightarrow> ATR_SYNC_PROTOCOL_TYPE_2W
      | IFD_TOWITOKO_3W \<Rightarrow> ATR_SYNC_PROTOCOL_TYPE_3W | _ \<Rightarrow> ATR_SYNC_PROTOCOL_TYPE_SDA) \<and>
    ATR_Sync_Init ATR_Sync_New (ATR_Sync_GetRaw atr) ATR_SYNC_SIZE = (ATR_SYNC_OK, atr)"
proof -
  let ?p = "case sync_type icc of IFD_TOWITOKO_2W \<Rightarrow> ATR_SYNC_PROTOCOL_TYPE_2W
      | IFD_TOWITOKO_3W \<Rightarrow> ATR_SYNC_PROTOCOL_TYPE_3W | _ \<Rightarrow> ATR_SYNC_PROTOCOL_TYPE_SDA"
  have fields: "H1 atr = push_bit 4 ?p OR 0x02" "H3 atr = 0x10"
    using assms(1,3) by (simp_all add: ICC_Sync_CreateAtr_def ATR_Sync_Init_def Let_def ATR_SYNC_SIZE_def ATR_SYNC_STRUCTURE_ID_GENERAL_def)
  have units: "ATR_Sync_GetNumberOfDataUnits atr * ATR_Sync_GetLengthOfDataUnits atr div 8 = 64 * 2 ^ e"
    if "drop_bit 3 (H2 atr) AND 0x0F = of_nat e" "H2 atr AND 0x07 = 3" "e \<in> {1..15}" for e
  proof -
    have e: "unat (of_nat e :: byte) = e" "(2 :: nat) ^ e \<le> 2 ^ 15"
      using that(3) power_increasing [of e 15 "2 :: nat"] by (simp_all add: unat_of_nat)
    have "double_loop e 64 = 64 * 2 ^ e" "double_loop 3 1 = 1 * 2 ^ 3" using e(2) by (intro double_loop_eq; simp)+
    then show ?thesis using that e(1) by (simp add: ATR_Sync_GetNumberOfDataUnits_def ATR_Sync_GetLengthOfDataUnits_def Let_def)
  qed
  have h2: "H2 atr = (let n = sync_length icc in
      if n = 256 then 0x13 else if n = 512 then 0x1B else if n = 1024 then 0x23 else if n = 2048 then 0x2B
      else if n = 4096 then 0x33 else if n = 8192 then 0x3B else if n = 16384 then 0x43 else 0x4B)"
    using assms(1,3) by (simp add: ICC_Sync_CreateAtr_def ATR_Sync_Init_def Let_def ATR_SYNC_SIZE_def)
  have "\<exists>e \<in> {2, 3, 4, 5, 6, 7, 8, 9}. sync_length icc = 64 * 2 ^ e \<and> H2 atr = of_nat (8 * e + 3)"
    using assms(2) by (elim insertE emptyE; simp add: h2)
  then obtain e where e: "e \<in> {2, 3, 4, 5, 6, 7, 8, 9}" "sync_length icc = 64 * 2 ^ e" "H2 atr = of_nat (8 * e + 3)" by blast
  have "drop_bit 3 (H2 atr) AND 0x0F = of_nat e \<and> H2 atr AND 0x07 = 3"
    unfolding e(3) using e(1) by (elim insertE emptyE; simp)
  then have "ATR_Sync_GetNumberOfDataUnits atr * ATR_Sync_GetLengthOfDataUnits atr div 8 = sync_length icc"
    using units [of e] e(1,2) by auto
  moreover have "ATR_Sync_GetProtocolType atr = ?p" "H1 atr AND 0x03 = 0x02"
    by (simp_all add: ATR_Sync_GetProtocolType_def fields ATR_SYNC_PROTOCOL_TYPE_2W_def ATR_SYNC_PROTOCOL_TYPE_3W_def
        ATR_SYNC_PROTOCOL_TYPE_SDA_def split: icc_kind.split)
  ultimately show ?thesis using fields(2) by (simp add: ATR_Sync_Init_def ATR_Sync_GetRaw_def ATR_SYNC_SIZE_def)
qed

end
