(* ===== verification/Tlv.thy ===== *)
theory Tlv
  imports Interfaces
begin

text \<open>
  BER-TLV data objects read through a callback, \<^verbatim>\<open>src/src/driver/tlv_object.c\<close>.  The
  callback \<open>get_data\<close> is the code of the object's user (a card read in
  \<^verbatim>\<open>icc_sync.c\<close> and \<^verbatim>\<open>protocol_sync.c\<close>); it may change the state of the reader, so it is
  a computation of the state monad, and \<open>None\<close> is its result \<open>FALSE\<close>.  A \<open>NULL\<close>
  object is \<open>None\<close>.
\<close>

type_synonym 's tlv_get_data = "nat \<Rightarrow> nat \<Rightarrow> ('s, byte list option) state"

record 's TLV_Object =
  tlv_get_data :: "'s tlv_get_data"
  tlv_data_length :: nat
  tlv_address :: nat
  tlv_tag :: nat
  tlv_length :: nat
  tlv_value :: nat

section \<open>Decoding an object\<close>

text \<open>The guard every access has: the bytes must be inside the data source.\<close>

definition tlv_fetch :: "'s tlv_get_data \<Rightarrow> nat \<Rightarrow> nat \<Rightarrow> nat \<Rightarrow> ('s, byte list option) state" where
  "tlv_fetch get_data data_length addr n =
     (if addr + n > data_length then State_Monad.return None else get_data addr n)"

definition tlv_read_tag :: "'s tlv_get_data \<Rightarrow> nat \<Rightarrow> nat \<Rightarrow> ('s, (nat \<times> nat) option) state" where
  "tlv_read_tag get_data data_length addr =
     opt_bind (tlv_fetch get_data data_length addr 1) (\<lambda>b0.
       if b0 ! 0 AND 0x1F = 0x1F then
         opt_bind (tlv_fetch get_data data_length (addr + 1) 1) (\<lambda>b1.
           State_Monad.return (Some (be16 (b0 ! 0) (b1 ! 0), 2)))
       else State_Monad.return (Some (unat (b0 ! 0), 1)))"

definition tlv_read_length :: "'s tlv_get_data \<Rightarrow> nat \<Rightarrow> nat \<Rightarrow> nat \<Rightarrow> ('s, (nat \<times> nat) option) state" where
  "tlv_read_length get_data data_length addr i =
     opt_bind (tlv_fetch get_data data_length (addr + i) 1) (\<lambda>l.
       if l ! 0 AND 0x80 = 0x80 then
         if l ! 0 AND 0x7F = 0x01 then
           opt_bind (tlv_fetch get_data data_length (addr + (i + 1)) 1) (\<lambda>b.
             State_Monad.return (Some (unat (b ! 0), i + 2)))
         else if l ! 0 AND 0x7F = 0x02 then
           opt_bind (tlv_fetch get_data data_length (addr + (i + 1)) 2) (\<lambda>b.
             State_Monad.return (Some (be16 (b ! 0) (b ! 1), i + 3)))
         else State_Monad.return None
       else State_Monad.return (Some (unat (0x7F AND l ! 0), i + 1)))"

definition TLV_Object_New :: "'s tlv_get_data \<Rightarrow> nat \<Rightarrow> nat \<Rightarrow> ('s, 's TLV_Object option) state" where
  "TLV_Object_New get_data data_length addr =
     opt_bind (tlv_read_tag get_data data_length addr) (\<lambda>(tag, i).
     opt_bind (tlv_read_length get_data data_length addr i) (\<lambda>(len, i).
       if addr + i \<ge> data_length then State_Monad.return None
       else State_Monad.return (Some
         \<lparr>tlv_get_data = get_data, tlv_data_length = data_length, tlv_address = addr,
          tlv_tag = tag, tlv_length = min len (data_length - (addr + i)), tlv_value = addr + i\<rparr>)))"

section \<open>Accessors and iteration\<close>

definition TLV_Object_GetTag :: "'s TLV_Object \<Rightarrow> nat" where
  "TLV_Object_GetTag tlv = tlv_tag tlv"

definition TLV_Object_GetLength :: "'s TLV_Object \<Rightarrow> nat" where
  "TLV_Object_GetLength tlv = tlv_length tlv"

definition TLV_Object_GetValue :: "'s TLV_Object \<Rightarrow> nat \<Rightarrow> ('s, byte list option) state" where
  "TLV_Object_GetValue tlv len =
     (let len' = min len (tlv_length tlv)
      in if len' = 0 then State_Monad.return (Some []) else tlv_get_data tlv (tlv_value tlv) len')"

text \<open>
  The result of a comparison is \<open>!memcmp\<close> over the shortened length, which is returned
  with it through the \<open>length\<close> argument.
\<close>

definition TLV_Object_CompareValue :: "'s TLV_Object \<Rightarrow> byte list \<Rightarrow> nat \<Rightarrow> ('s, bool \<times> nat) state" where
  "TLV_Object_CompareValue tlv val len = do {
     r \<leftarrow> TLV_Object_GetValue tlv len;
     State_Monad.return
       (case r of None \<Rightarrow> False | Some buffer \<Rightarrow> take (min len (tlv_length tlv)) val = buffer,
        min len (tlv_length tlv)) }"

definition TLV_Object_Shift :: "'s TLV_Object \<Rightarrow> ('s, 's TLV_Object option) state" where
  "TLV_Object_Shift tlv =
     TLV_Object_New (tlv_get_data tlv) (tlv_data_length tlv) (ushort (tlv_value tlv + tlv_length tlv))"

text \<open>The step the three iterations share: the sibling, or \<open>NULL\<close> past the parent's value.\<close>

definition tlv_next :: "'s TLV_Object \<Rightarrow> 's TLV_Object \<Rightarrow> ('s, 's TLV_Object option) state" where
  "tlv_next tlv aux =
     (if tlv_value aux + tlv_length aux < tlv_value tlv + tlv_length tlv
      then TLV_Object_Shift aux else State_Monad.return None)"

definition tlv_first :: "'s TLV_Object \<Rightarrow> ('s, 's TLV_Object option) state" where
  "tlv_first tlv = TLV_Object_New (tlv_get_data tlv) (tlv_data_length tlv) (tlv_value tlv)"

definition TLV_Object_Iterate ::
    "'s TLV_Object \<Rightarrow> 's TLV_Object option \<Rightarrow> ('s, 's TLV_Object option) state" where
  "TLV_Object_Iterate tlv iterator =
     (case iterator of None \<Rightarrow> tlv_first tlv | Some aux \<Rightarrow> tlv_next tlv aux)"

text \<open>
  The search loop, with fuel: the outer \<open>None\<close> says that the fuel ran out.  A search in
  an object needs at most one turn per byte of the data source.
\<close>

fun tlv_find :: "nat \<Rightarrow> 's TLV_Object \<Rightarrow> nat \<Rightarrow> 's TLV_Object option \<Rightarrow> ('s, 's TLV_Object option option) state" where
  "tlv_find 0 tlv tag aux = State_Monad.return None"
| "tlv_find (Suc fuel) tlv tag aux =
     (case aux of
        None \<Rightarrow> State_Monad.return (Some None)
      | Some a \<Rightarrow>
          if TLV_Object_GetTag a = tag then State_Monad.return (Some (Some a))
          else do { aux' \<leftarrow> tlv_next tlv a; tlv_find fuel tlv tag aux' })"

definition TLV_Object_GetObjectByTag ::
    "'s TLV_Object \<Rightarrow> nat \<Rightarrow> ('s, 's TLV_Object option option) state" where
  "TLV_Object_GetObjectByTag tlv tag = do {
     aux \<leftarrow> tlv_first tlv;
     tlv_find (tlv_data_length tlv + 2) tlv tag aux }"

fun tlv_advance :: "nat \<Rightarrow> 's TLV_Object \<Rightarrow> 's TLV_Object option \<Rightarrow> ('s, 's TLV_Object option) state" where
  "tlv_advance 0 tlv aux = State_Monad.return aux"
| "tlv_advance (Suc n) tlv aux =
     (case aux of
        None \<Rightarrow> State_Monad.return None
      | Some a \<Rightarrow> do { aux' \<leftarrow> tlv_next tlv a; tlv_advance n tlv aux' })"

definition TLV_Object_GetObjectBySec ::
    "'s TLV_Object \<Rightarrow> nat \<Rightarrow> ('s, 's TLV_Object option) state" where
  "TLV_Object_GetObjectBySec tlv sec = do {
     aux \<leftarrow> tlv_first tlv;
     tlv_advance sec tlv aux }"

definition TLV_Object_GetRawLength :: "'s TLV_Object \<Rightarrow> nat" where
  "TLV_Object_GetRawLength tlv = ushort (tlv_length tlv + (tlv_value tlv - tlv_address tlv))"

definition TLV_Object_GetAddress :: "'s TLV_Object \<Rightarrow> nat" where
  "TLV_Object_GetAddress tlv = tlv_address tlv"

section \<open>Objects stay inside the data source\<close>

definition tlv_ok :: "'s TLV_Object \<Rightarrow> bool" where
  "tlv_ok tlv \<longleftrightarrow>
     tlv_address tlv + 2 \<le> tlv_value tlv \<and> tlv_value tlv < tlv_data_length tlv \<and>
     tlv_value tlv + tlv_length tlv \<le> tlv_data_length tlv \<and> tlv_data_length tlv < 65536"

lemma tlv_read_tag_size: "run_state (tlv_read_tag gd dl a) s = (Some (tag, i), s') \<Longrightarrow> 1 \<le> i \<and> i \<le> 2"
  unfolding tlv_read_tag_def by (auto split: prod.splits option.splits if_splits)

lemma tlv_read_length_size:
  "run_state (tlv_read_length gd dl a i) s = (Some (len, j), s') \<Longrightarrow> i + 1 \<le> j \<and> j \<le> i + 3"
  unfolding tlv_read_length_def by (auto split: prod.splits option.splits if_splits)

lemma TLV_Object_New_ok:
  assumes "run_state (TLV_Object_New gd dl a) s = (Some tlv, s')" "dl < 65536"
  shows "tlv_ok tlv \<and> tlv_get_data tlv = gd \<and> tlv_data_length tlv = dl \<and> tlv_address tlv = a"
  using assms unfolding TLV_Object_New_def tlv_ok_def
  by (auto simp del: run_opt_bind split: if_splits prod.splits elim!: opt_bind_SomeE
      dest!: tlv_read_tag_size tlv_read_length_size)

lemma tlv_next_ok:
  assumes "run_state (tlv_next tlv a) s = (Some b, s')" "tlv_ok a"
  shows "tlv_ok b \<and> tlv_get_data b = tlv_get_data a \<and> tlv_data_length b = tlv_data_length a \<and>
         tlv_address b = tlv_value a + tlv_length a \<and> tlv_address a < tlv_address b"
proof -
  have "tlv_data_length a < 65536" and small: "ushort (tlv_value a + tlv_length a) = tlv_value a + tlv_length a"
    using assms(2) by (auto simp: tlv_ok_def)
  then show ?thesis
    using assms TLV_Object_New_ok [of "tlv_get_data a" "tlv_data_length a" "tlv_value a + tlv_length a" s b s']
    by (auto simp: tlv_next_def TLV_Object_Shift_def tlv_ok_def split: if_splits)
qed

lemma tlv_find_total:
  "(\<And>a. aux = Some a \<Longrightarrow> tlv_ok a \<and> tlv_data_length a = dl \<and> dl \<le> fuel + tlv_address a) \<Longrightarrow> 0 < fuel \<Longrightarrow>
   \<exists>r s'. run_state (tlv_find (Suc fuel) tlv tag aux) s = (Some r, s')"
proof (induction fuel arbitrary: aux s)
  case (Suc fuel)
  show ?case
  proof (cases aux)
    case (Some a)
    obtain aux' s1 where n: "run_state (tlv_next tlv a) s = (aux', s1)" by fastforce
    have step: "tlv_ok b \<and> tlv_data_length b = dl \<and> dl \<le> fuel + tlv_address b" if "aux' = Some b" for b
      using tlv_next_ok [of tlv a s b s1] n that Suc.prems Some by auto
    show ?thesis
    proof (cases fuel)
      case 0
      then show ?thesis using step n Some Suc.prems by (cases aux') (auto simp: tlv_ok_def)
    next
      case (Suc m)
      then show ?thesis using Suc.IH [of aux' s1] step n Some by auto
    qed
  qed simp
qed simp

lemma tlv_find_found:
  "run_state (tlv_find fuel tlv tag aux) s = (Some (Some b), s') \<Longrightarrow>
   (\<And>a. aux = Some a \<Longrightarrow> tlv_ok a \<and> tlv_data_length a = dl \<and> lo \<le> tlv_address a) \<Longrightarrow>
   tlv_ok b \<and> tlv_tag b = tag \<and> tlv_data_length b = dl \<and> lo \<le> tlv_address b"
proof (induction fuel arbitrary: aux s)
  case (Suc fuel)
  show ?case
  proof (cases aux)
    case (Some a)
    obtain aux' s1 where n: "run_state (tlv_next tlv a) s = (aux', s1)" by fastforce
    have "tlv_ok c \<and> tlv_data_length c = dl \<and> lo \<le> tlv_address c" if "aux' = Some c" for c
      using tlv_next_ok [of tlv a s c s1] n that Suc.prems(2) Some by auto
    then show ?thesis
      using Suc.IH [of aux' s1] Suc.prems n Some by (auto simp: TLV_Object_GetTag_def split: if_splits)
  qed (use Suc.prems in simp)
qed simp

lemma tlv_first_ok:
  "run_state (tlv_first tlv) s = (Some a, s') \<Longrightarrow> tlv_ok tlv \<Longrightarrow>
   tlv_ok a \<and> tlv_data_length a = tlv_data_length tlv \<and> tlv_address a = tlv_value tlv"
  unfolding tlv_first_def by (auto dest!: TLV_Object_New_ok simp: tlv_ok_def)

lemma GetObjectByTag_total:
  assumes "tlv_ok tlv"
  shows "\<exists>r s'. run_state (TLV_Object_GetObjectByTag tlv tag) s = (Some r, s') \<and>
    (\<forall>b. r = Some b \<longrightarrow> tlv_ok b \<and> tlv_tag b = tag \<and> tlv_data_length b = tlv_data_length tlv \<and> tlv_value tlv \<le> tlv_address b)"
proof -
  obtain aux s1 where f: "run_state (tlv_first tlv) s = (aux, s1)" by fastforce
  have a: "tlv_ok a \<and> tlv_data_length a = tlv_data_length tlv \<and> tlv_value tlv \<le> tlv_address a" if "aux = Some a" for a
    using tlv_first_ok [of tlv s a s1] f that assms by auto
  then obtain r s' where r: "run_state (tlv_find (Suc (tlv_data_length tlv + 1)) tlv tag aux) s1 = (Some r, s')"
    using tlv_find_total [of aux "tlv_data_length tlv" "tlv_data_length tlv + 1" tlv tag s1] by fastforce
  then have "tlv_ok b \<and> tlv_tag b = tag \<and> tlv_data_length b = tlv_data_length tlv \<and> tlv_value tlv \<le> tlv_address b"
    if "r = Some b" for b
    using that r a by (intro tlv_find_found [OF _ a, where fuel = "Suc (tlv_data_length tlv + 1)"]) auto
  then show ?thesis
    using f r by (auto simp: TLV_Object_GetObjectByTag_def simp del: tlv_find.simps)
qed

text \<open>
  (C38) A search by tag in any object, over any data source, ends (the fuel never runs out),
  and what it finds has that tag, lies behind the parent's header and has its header and
  value entirely inside the data source.
\<close>

theorem TLV_Object_GetObjectByTag_safe:
  assumes "tlv_ok tlv"
  shows "\<exists>r s'. run_state (TLV_Object_GetObjectByTag tlv tag) s = (Some r, s') \<and>
    (\<forall>b. r = Some b \<longrightarrow>
       TLV_Object_GetTag b = tag \<and> tlv_value tlv \<le> TLV_Object_GetAddress b \<and>
       TLV_Object_GetAddress b < tlv_value b \<and> tlv_value b + TLV_Object_GetLength b \<le> tlv_data_length tlv)"
proof -
  obtain r s' where r: "run_state (TLV_Object_GetObjectByTag tlv tag) s = (Some r, s')"
    and b: "\<And>b. r = Some b \<Longrightarrow> tlv_ok b \<and> tlv_tag b = tag \<and> tlv_data_length b = tlv_data_length tlv \<and> tlv_value tlv \<le> tlv_address b"
    using GetObjectByTag_total [OF assms] by metis
  show ?thesis
    using r b by (fastforce simp: TLV_Object_GetTag_def TLV_Object_GetAddress_def TLV_Object_GetLength_def tlv_ok_def)
qed

section \<open>The contract of a data source\<close>

text \<open>
  What a user of data objects promises of its callback: it delivers as many bytes as it is
  asked for and keeps an invariant of its own.  In return every object obtained from such a
  source has that source, lies inside it, and no operation breaks the invariant.
\<close>

definition of_source :: "'s tlv_get_data \<Rightarrow> nat \<Rightarrow> 's TLV_Object \<Rightarrow> bool" where
  "of_source gd dl tlv \<longleftrightarrow> tlv_ok tlv \<and> tlv_get_data tlv = gd \<and> tlv_data_length tlv = dl"

locale data_source =
  fixes gd :: "'s tlv_get_data"
    and dl :: nat
    and I :: "'s \<Rightarrow> bool"
  assumes source: "valid I (gd a n) (\<lambda>r s. I s \<and> (\<forall>bs. r = Some bs \<longrightarrow> length bs = n))"
    and source_size: "dl < 65536"
begin

lemma source_keeps: "keeps I (gd a n)"
  unfolding keeps_def by (rule valid_conseq [OF source]) auto

lemma fetch_keeps: "keeps I (tlv_fetch gd dl a n)"
  unfolding tlv_fetch_def by (intro vcg source_keeps)

lemma New_keeps: "keeps I (TLV_Object_New gd dl a)"
  unfolding TLV_Object_New_def tlv_read_tag_def tlv_read_length_def by (intro vcg fetch_keeps)

lemma New_valid:
  "valid I (TLV_Object_New gd dl a) (\<lambda>r s. I s \<and> (\<forall>t. r = Some t \<longrightarrow> of_source gd dl t \<and> tlv_address t = a))"
  by (rule validI) (auto simp: of_source_def dest: keepsD [OF New_keeps] TLV_Object_New_ok [OF _ source_size])

lemma Shift_valid:
  assumes "of_source gd dl t"
  shows "valid I (TLV_Object_Shift t) (\<lambda>r s. I s \<and> (\<forall>u. r = Some u \<longrightarrow> of_source gd dl u \<and> tlv_address t < tlv_address u))"
proof -
  have t: "TLV_Object_Shift t = TLV_Object_New gd dl (tlv_value t + tlv_length t)" "tlv_address t < tlv_value t + tlv_length t"
    using assms by (auto simp: TLV_Object_Shift_def of_source_def tlv_ok_def)
  show ?thesis unfolding t(1) by (rule valid_conseq [OF New_valid]) (use t(2) in auto)
qed

lemma next_valid:
  "of_source gd dl t \<Longrightarrow> valid I (tlv_next tlv t) (\<lambda>r s. I s \<and> (\<forall>u. r = Some u \<longrightarrow> of_source gd dl u \<and> tlv_address t < tlv_address u))"
  unfolding tlv_next_def using Shift_valid by (auto intro!: valid_return)

lemma first_valid: "of_source gd dl tlv \<Longrightarrow> valid I (tlv_first tlv) (\<lambda>r s. I s \<and> (\<forall>u. r = Some u \<longrightarrow> of_source gd dl u))"
  using valid_conseq [OF New_valid [of "tlv_value tlv"]] by (force simp: tlv_first_def of_source_def)

lemma Iterate_valid:
  assumes "of_source gd dl dir" "\<And>t. it = Some t \<Longrightarrow> of_source gd dl t"
  shows "valid I (TLV_Object_Iterate dir it) (\<lambda>r s. I s \<and>
    (\<forall>u. r = Some u \<longrightarrow> of_source gd dl u \<and> (\<forall>t. it = Some t \<longrightarrow> tlv_address t < tlv_address u)))"
proof (cases it)
  case None
  then show ?thesis using first_valid [OF assms(1)] by (simp add: TLV_Object_Iterate_def)
next
  case (Some t)
  then show ?thesis using next_valid [OF assms(2)] by (simp add: TLV_Object_Iterate_def)
qed

lemma find_valid:
  "(\<And>t. aux = Some t \<Longrightarrow> of_source gd dl t) \<Longrightarrow>
   valid I (tlv_find fuel tlv tag aux) (\<lambda>r s. I s \<and> (\<forall>u. r = Some (Some u) \<longrightarrow> of_source gd dl u))"
proof (induction fuel arbitrary: aux)
  case (Suc fuel)
  show ?case
  proof (cases aux)
    case (Some t)
    have step: "valid (\<lambda>s. I s \<and> (\<forall>u. r = Some u \<longrightarrow> of_source gd dl u)) (tlv_find fuel tlv tag r)
        (\<lambda>r s. I s \<and> (\<forall>u. r = Some (Some u) \<longrightarrow> of_source gd dl u))" for r
      by (cases "\<forall>u. r = Some u \<longrightarrow> of_source gd dl u") (auto intro: valid_conseq [OF Suc.IH] simp: valid_def [of "\<lambda>_. False"])
    have "valid I (tlv_next tlv t) (\<lambda>r s. I s \<and> (\<forall>u. r = Some u \<longrightarrow> of_source gd dl u))"
      by (rule valid_conseq [OF next_valid]) (use Suc.prems Some in auto)
    then show ?thesis using Some Suc.prems step by (auto intro!: valid_return valid_bind)
  qed (auto intro!: valid_return)
qed (auto intro!: valid_return)

lemma ByTag_valid:
  assumes "of_source gd dl t"
  shows "valid I (TLV_Object_GetObjectByTag t tag) (\<lambda>r s. I s \<and> (\<exists>x. r = Some x \<and> (\<forall>u. x = Some u \<longrightarrow> of_source gd dl u)))"
proof -
  have step: "valid (\<lambda>s. I s \<and> (\<forall>u. r = Some u \<longrightarrow> of_source gd dl u)) (tlv_find n tlv tag r)
      (\<lambda>r s. I s \<and> (\<forall>u. r = Some (Some u) \<longrightarrow> of_source gd dl u))" for r n and tlv :: "'s TLV_Object"
    by (cases "\<forall>u. r = Some u \<longrightarrow> of_source gd dl u") (auto intro: valid_conseq [OF find_valid] simp: valid_def [of "\<lambda>_. False"])
  have found: "valid I (TLV_Object_GetObjectByTag t tag) (\<lambda>r s. I s \<and> (\<forall>u. r = Some (Some u) \<longrightarrow> of_source gd dl u))"
    unfolding TLV_Object_GetObjectByTag_def by (rule valid_bind [OF first_valid [OF assms] step])
  show ?thesis
  proof (rule validI)
    fix s a s' assume "I s" and r: "run_state (TLV_Object_GetObjectByTag t tag) s = (a, s')"
    moreover obtain x where "a = Some x"
      using GetObjectByTag_total [of t tag s] r assms by (auto simp: of_source_def)
    ultimately show "I s' \<and> (\<exists>x. a = Some x \<and> (\<forall>u. x = Some u \<longrightarrow> of_source gd dl u))"
      using validD [OF found] by blast
  qed
qed

lemma GetValue_valid:
  "of_source gd dl t \<Longrightarrow> valid I (TLV_Object_GetValue t n) (\<lambda>r s. I s \<and> (\<forall>bs. r = Some bs \<longrightarrow> length bs = min n (tlv_length t)))"
  unfolding TLV_Object_GetValue_def Let_def using source by (auto simp: of_source_def intro!: valid_return)

lemma CompareValue_valid:
  "of_source gd dl t \<Longrightarrow> valid I (TLV_Object_CompareValue t bs n) (\<lambda>_ s. I s)"
  unfolding TLV_Object_CompareValue_def
  by (rule valid_bind [OF GetValue_valid]) (auto intro: valid_return)

end

section \<open>Decoding inverts the BER encoding\<close>

text \<open>
  The encoding of a tag and a value, with the length coded on one, two or three bytes, and a
  data source that is a plain memory image.
\<close>

definition tlv_tag_bytes :: "nat \<Rightarrow> byte list" where
  "tlv_tag_bytes t = (if t < 256 then [low_byte t] else [high_byte t, low_byte t])"

definition tlv_length_bytes :: "nat \<Rightarrow> byte list" where
  "tlv_length_bytes n =
     (if n < 128 then [low_byte n] else if n < 256 then [0x81, low_byte n]
      else [0x82, high_byte n, low_byte n])"

definition tlv_encode :: "nat \<times> byte list \<Rightarrow> byte list" where
  "tlv_encode tv = tlv_tag_bytes (fst tv) @ tlv_length_bytes (length (snd tv)) @ snd tv"

definition tlv_tag_wf :: "nat \<Rightarrow> bool" where
  "tlv_tag_wf t \<longleftrightarrow> t < 65536 \<and> (if t < 256 then low_byte t AND 0x1F \<noteq> 0x1F else high_byte t AND 0x1F = 0x1F)"

definition tlv_wf :: "nat \<times> byte list \<Rightarrow> bool" where
  "tlv_wf tv \<longleftrightarrow> tlv_tag_wf (fst tv) \<and> 0 < length (snd tv) \<and> length (snd tv) < 65536"

definition tlv_image :: "byte list \<Rightarrow> 's tlv_get_data" where
  "tlv_image mem addr n = State_Monad.return (bytes_at mem addr n)"

lemma tlv_fetch_image [simp]:
  "run_state (tlv_fetch (tlv_image mem) (length mem) addr n) s = (bytes_at mem addr n, s)"
  by (simp add: tlv_fetch_def tlv_image_def bytes_at_def)

lemma bytes_at_split:
  "mem = pre @ bs @ post \<Longrightarrow> addr = length pre \<Longrightarrow> n = length bs \<Longrightarrow> bytes_at mem addr n = Some bs"
  by (simp add: bytes_at_def)

lemma read_tag_image:
  assumes "mem = pre @ tlv_tag_bytes t @ post" "tlv_tag_wf t"
  shows "run_state (tlv_read_tag (tlv_image mem) (length mem) (length pre)) s =
    (Some (t, length (tlv_tag_bytes t)), s)"
proof (cases "t < 256")
  case True
  then have "bytes_at mem (length pre) 1 = Some [low_byte t]"
    using assms(1) by (intro bytes_at_split) (auto simp: tlv_tag_bytes_def)
  then show ?thesis
    using assms(2) True by (simp add: tlv_read_tag_def tlv_tag_wf_def tlv_tag_bytes_def c_simps)
next
  case False
  then have "bytes_at mem (length pre) 1 = Some [high_byte t]" "bytes_at mem (length pre + 1) 1 = Some [low_byte t]"
    using assms(1) by (auto simp: tlv_tag_bytes_def intro: bytes_at_split [of _ "pre @ [_]"] bytes_at_split)
  then show ?thesis
    using assms(2) False by (simp add: tlv_read_tag_def tlv_tag_wf_def tlv_tag_bytes_def c_simps)
qed

lemma length_octet_masks:
  "n < 128 \<Longrightarrow> low_byte n AND 0x80 \<noteq> 0x80" "n < 128 \<Longrightarrow> unat (0x7F AND low_byte n) = n"
proof -
  assume n: "n < 128"
  have "unat (low_byte n AND mask 7) = n"
    using n by (simp only: take_bit_eq_mask [symmetric] unsigned_take_bit_eq unat_low_byte) (simp add: take_bit_eq_mod)
  then have "unat (low_byte n AND 0x7F) = n" by (simp add: mask_eq_exp_minus_1)
  then show "unat (0x7F AND low_byte n) = n" by (simp add: and.commute)
  have "bit (low_byte n) 7 \<longleftrightarrow> bit n 7" by (simp only: low_byte_def bit_simps) simp
  then have "\<not> bit (low_byte n) 7" using n by (simp add: bit_iff_odd)
  moreover have "bit (0x80 :: byte) 7" by simp
  ultimately show "low_byte n AND 0x80 \<noteq> 0x80"
    by (metis bit_and_iff)
qed

lemma read_length_image:
  assumes "mem = pre @ tlv_length_bytes n @ post" "n < 65536" "a + i = length pre"
  shows "run_state (tlv_read_length (tlv_image mem) (length mem) a i) s =
    (Some (n, i + length (tlv_length_bytes n)), s)"
proof -
  consider "n < 128" | "128 \<le> n" "n < 256" | "256 \<le> n" by linarith
  then show ?thesis
  proof cases
    case 1
    then have "bytes_at mem (a + i) 1 = Some [low_byte n]"
      using assms by (intro bytes_at_split) (auto simp: tlv_length_bytes_def)
    then show ?thesis
      using 1 by (simp add: tlv_read_length_def length_octet_masks tlv_length_bytes_def)
  next
    case 2
    then have "bytes_at mem (a + i) 1 = Some [0x81]" "bytes_at mem (a + (i + 1)) 1 = Some [low_byte n]"
      using assms by (auto simp: tlv_length_bytes_def intro: bytes_at_split [of _ "pre @ [_]"] bytes_at_split)
    then show ?thesis
      using 2 by (simp add: tlv_read_length_def tlv_length_bytes_def unat_low_byte)
  next
    case 3
    then have "bytes_at mem (a + i) 1 = Some [0x82]" "bytes_at mem (a + (i + 1)) 2 = Some [high_byte n, low_byte n]"
      using assms by (auto simp: tlv_length_bytes_def intro: bytes_at_split [of _ "pre @ [_]"] bytes_at_split)
    then show ?thesis
      using 3 assms(2) by (simp add: tlv_read_length_def tlv_length_bytes_def be16_split)
  qed
qed

text \<open>The object that decodes the encoding of \<open>tv\<close> at address \<open>a\<close>.\<close>

definition tlv_object_at :: "byte list \<Rightarrow> nat \<Rightarrow> nat \<times> byte list \<Rightarrow> 's TLV_Object" where
  "tlv_object_at mem a tv =
     \<lparr>tlv_get_data = tlv_image mem, tlv_data_length = length mem, tlv_address = a, tlv_tag = fst tv,
      tlv_length = length (snd tv),
      tlv_value = a + length (tlv_tag_bytes (fst tv)) + length (tlv_length_bytes (length (snd tv)))\<rparr>"

lemma TLV_Object_New_image:
  assumes mem: "mem = pre @ tlv_encode tv @ post" and "tlv_wf tv"
  shows "run_state (TLV_Object_New (tlv_image mem) (length mem) (length pre)) s =
    (Some (tlv_object_at mem (length pre) tv), s)"
proof -
  let ?t = "tlv_tag_bytes (fst tv)" and ?n = "length (snd tv)"
  have "run_state (tlv_read_tag (tlv_image mem) (length mem) (length pre)) s = (Some (fst tv, length ?t), s)"
    using assms by (intro read_tag_image) (auto simp: tlv_encode_def tlv_wf_def)
  moreover have "run_state (tlv_read_length (tlv_image mem) (length mem) (length pre) (length ?t)) s =
      (Some (?n, length ?t + length (tlv_length_bytes ?n)), s)"
    using assms by (intro read_length_image [of _ "pre @ ?t"]) (auto simp: tlv_encode_def tlv_wf_def)
  ultimately show ?thesis
    using assms by (simp add: TLV_Object_New_def tlv_object_at_def tlv_encode_def tlv_wf_def add.assoc)
qed

lemma tlv_object_at_end [simp]:
  "tlv_value (tlv_object_at mem a tv) + tlv_length (tlv_object_at mem a tv) = a + length (tlv_encode tv)"
  by (simp add: tlv_object_at_def tlv_encode_def)

lemma tlv_object_at_sel [simp]:
  "tlv_get_data (tlv_object_at mem a tv) = tlv_image mem"
  "tlv_data_length (tlv_object_at mem a tv) = length mem"
  "tlv_tag (tlv_object_at mem a tv) = fst tv"
  "tlv_address (tlv_object_at mem a tv) = a"
  by (simp_all add: tlv_object_at_def)

lemma tlv_encode_not_Nil [simp]: "tlv_encode tv \<noteq> []"
  by (simp add: tlv_encode_def tlv_tag_bytes_def)

lemma tlv_find_image:
  assumes "mem = pre @ concat (map tlv_encode (tv # tvs)) @ post" "list_all tlv_wf (tv # tvs)" "length mem < 65536"
    and "tlv_value tlv + tlv_length tlv = length pre + length (concat (map tlv_encode (tv # tvs)))"
    and "length tvs + 2 \<le> fuel"
  shows "\<exists>r. run_state (tlv_find fuel tlv tag (Some (tlv_object_at mem (length pre) tv))) s = (Some r, s) \<and>
     (case r of None \<Rightarrow> map_of (tv # tvs) tag = None
      | Some b \<Rightarrow> \<exists>v pre' post'. map_of (tv # tvs) tag = Some v \<and> mem = pre' @ tlv_encode (tag, v) @ post' \<and>
          b = tlv_object_at mem (length pre') (tag, v))"
  using assms
proof (induction tvs arbitrary: tv pre fuel)
  case Nil
  then obtain k where "fuel = Suc (Suc k)" by (auto simp: numeral_2_eq_2 dest: le_Suc_ex)
  then show ?case
    using Nil by (cases tv) (fastforce simp: tlv_next_def TLV_Object_GetTag_def)
next
  case (Cons tw tvs)
  obtain k where k: "fuel = Suc k" "length tvs + 2 \<le> k" using Cons.prems(5) by (cases fuel) auto
  show ?case
  proof (cases "fst tv = tag")
    case True
    then show ?thesis using Cons.prems(1) k by (cases tv) (fastforce simp: TLV_Object_GetTag_def)
  next
    case False
    have "length (pre @ tlv_encode tv) \<le> length mem" using Cons.prems(1) by simp
    then have small: "ushort (length pre + length (tlv_encode tv)) = length (pre @ tlv_encode tv)"
      using Cons.prems(3) by simp
    have new: "run_state (TLV_Object_New (tlv_image mem) (length mem) (length (pre @ tlv_encode tv))) s =
        (Some (tlv_object_at mem (length (pre @ tlv_encode tv)) tw), s)"
      using Cons.prems by (intro TLV_Object_New_image [of _ _ _ "concat (map tlv_encode tvs) @ post"]) auto
    have lt: "length pre + length (tlv_encode tv) < tlv_value tlv + tlv_length tlv"
      using Cons.prems(4) by simp
    have "run_state (tlv_next tlv (tlv_object_at mem (length pre) tv)) s =
        (Some (tlv_object_at mem (length (pre @ tlv_encode tv)) tw), s)"
      using lt new by (simp only: tlv_next_def TLV_Object_Shift_def small tlv_object_at_end tlv_object_at_sel if_True)
    moreover have "\<exists>r. run_state (tlv_find k tlv tag (Some (tlv_object_at mem (length (pre @ tlv_encode tv)) tw))) s = (Some r, s) \<and>
     (case r of None \<Rightarrow> map_of (tw # tvs) tag = None
      | Some b \<Rightarrow> \<exists>v pre' post'. map_of (tw # tvs) tag = Some v \<and> mem = pre' @ tlv_encode (tag, v) @ post' \<and>
          b = tlv_object_at mem (length pre') (tag, v))"
      using Cons.prems k by (intro Cons.IH) auto
    moreover have "map_of (tv # tw # tvs) tag = map_of (tw # tvs) tag" using False by (cases tv) simp
    ultimately show ?thesis
      using False by (simp add: k(1) TLV_Object_GetTag_def del: map_of.simps length_append cong: option.case_cong)
  qed
qed

lemma concat_encode_length: "length tvs \<le> length (concat (map tlv_encode tvs))"
proof (induction tvs)
  case (Cons tv tvs)
  then show ?case by (cases "tlv_encode tv") simp_all
qed simp

text \<open>
  (C37) In a memory image of less than 65536 bytes in which an object's value is a sequence of
  at least one encoded object, each with a non-empty value (and a tag and a length the
  format can encode, \<open>tlv_wf\<close>), the search by tag returns the first of them with that
  tag, and reading its value returns the encoded value; it returns \<open>NULL\<close> exactly when
  there is none.  The two conditions are needed: \<open>TLV_Object_New\<close> rejects an object with
  an empty value at the end of the image, and the search in an object without contents
  looks at what follows it.
\<close>

theorem TLV_Object_GetObjectByTag_correct:
  assumes "mem = pre @ concat (map tlv_encode tvs) @ post" "tvs \<noteq> []" "list_all tlv_wf tvs" "length mem < 65536"
    and "tlv = \<lparr>tlv_get_data = tlv_image mem, tlv_data_length = length mem, tlv_address = adr, tlv_tag = t,
                tlv_length = length (concat (map tlv_encode tvs)), tlv_value = length pre\<rparr>"
  shows "case map_of tvs tag of
      None \<Rightarrow> run_state (TLV_Object_GetObjectByTag tlv tag) s = (Some None, s)
    | Some v \<Rightarrow> \<exists>b. run_state (TLV_Object_GetObjectByTag tlv tag) s = (Some (Some b), s) \<and>
        TLV_Object_GetTag b = tag \<and> run_state (TLV_Object_GetValue b (length v)) s = (Some v, s)"
proof -
  obtain tv tw where tvs: "tvs = tv # tw" using assms(2) by (cases tvs) auto
  have first: "run_state (tlv_first tlv) s = (Some (tlv_object_at mem (length pre) tv), s)"
    unfolding tlv_first_def
    using assms tvs TLV_Object_New_image [of mem pre tv "concat (map tlv_encode tw) @ post"] by simp
  have "length tw + 2 \<le> tlv_data_length tlv + 2"
    using concat_encode_length [of tw] assms tvs by simp
  then obtain r where r: "run_state (TLV_Object_GetObjectByTag tlv tag) s = (Some r, s)"
    "case r of None \<Rightarrow> map_of tvs tag = None
      | Some b \<Rightarrow> \<exists>v pre' post'. map_of tvs tag = Some v \<and> mem = pre' @ tlv_encode (tag, v) @ post' \<and>
          b = tlv_object_at mem (length pre') (tag, v)"
    using tlv_find_image [OF assms(1,3) [unfolded tvs] assms(4), of tlv "tlv_data_length tlv + 2" tag s] first tvs assms(5)
    by (auto simp: TLV_Object_GetObjectByTag_def simp del: tlv_find.simps map_of.simps)
  have val: "run_state (TLV_Object_GetValue (tlv_object_at (pre' @ tlv_encode (tag, v) @ post') (length pre') (tag, v)) (length v)) s = (Some v, s)"
    for v pre' post'
    by (simp add: TLV_Object_GetValue_def tlv_object_at_def tlv_image_def tlv_encode_def bytes_at_def Let_def)
  show ?thesis
    using r val by (cases r) (fastforce simp: TLV_Object_GetTag_def)+
qed

text \<open>Both searches on an application template with a label and a path.\<close>

definition tlv_sample :: "byte list" where
  "tlv_sample = [0x61, 0x07, 0x50, 0x02, 0x41, 0x42, 0x51, 0x01, 0x3F]"

definition tlv_sample_object :: "unit TLV_Object" where
  "tlv_sample_object =
     \<lparr>tlv_get_data = tlv_image tlv_sample, tlv_data_length = length tlv_sample, tlv_address = 0, tlv_tag = 0x61,
      tlv_length = length (concat (map tlv_encode [(0x50, [0x41, 0x42]), (0x51, [0x3F])])),
      tlv_value = length [0x61, 0x07 :: byte]\<rparr>"

lemma TLV_Object_GetObjectByTag_safe_witness:
  "tlv_ok tlv_sample_object \<and>
   (\<exists>r s'. run_state (TLV_Object_GetObjectByTag tlv_sample_object 0x51) () = (Some r, s'))"
proof -
  have "tlv_ok tlv_sample_object"
    by (simp add: tlv_ok_def tlv_sample_object_def tlv_sample_def tlv_encode_def tlv_tag_bytes_def tlv_length_bytes_def)
  then show ?thesis using TLV_Object_GetObjectByTag_safe [of tlv_sample_object "0x51" "()"] by blast
qed

lemma TLV_Object_GetObjectByTag_correct_witness:
  "\<exists>b. run_state (TLV_Object_GetObjectByTag tlv_sample_object 0x51) () = (Some (Some b), ()) \<and>
     TLV_Object_GetTag b = 0x51 \<and> run_state (TLV_Object_GetValue b 1) () = (Some [0x3F], ())"
proof -
  let ?tvs = "[(0x50, [0x41, 0x42]), (0x51, [0x3F])] :: (nat \<times> byte list) list"
  have "tlv_sample = [0x61, 0x07] @ concat (map tlv_encode ?tvs) @ []"
    by (simp add: tlv_sample_def tlv_encode_def tlv_tag_bytes_def tlv_length_bytes_def low_byte_def)
  moreover have "list_all tlv_wf ?tvs"
    by (simp add: tlv_wf_def tlv_tag_wf_def low_byte_def)
  moreover have "length tlv_sample < 65536" by (simp add: tlv_sample_def)
  ultimately show ?thesis
    using TLV_Object_GetObjectByTag_correct [of tlv_sample "[0x61, 0x07]" ?tvs "[]" tlv_sample_object 0 "0x61" "0x51" "()"]
    by (simp add: tlv_sample_object_def)
qed

end
