(* ===== verification/ProtocolSync.thy ===== *)
theory ProtocolSync
  imports IccSync Tlv
begin

text \<open>
  Interindustry commands on memory cards, \<^verbatim>\<open>src/src/driver/protocol_sync.c\<close>: selection
  of a data section of the card, reading and updating it, and the PIN.  The handler's pointer
  to the card is the card of the state; a response is what the command function leaves in
  \<open>*rsp\<close>.
\<close>

section \<open>Data\<close>

datatype protocol_sync_ret = PROTOCOL_SYNC_OK | PROTOCOL_SYNC_ICC_ERROR | PROTOCOL_SYNC_ERROR

definition PROTOCOL_SYNC_DS_MF :: nat where "PROTOCOL_SYNC_DS_MF = 0x3F00"
definition PROTOCOL_SYNC_DS_DIR :: nat where "PROTOCOL_SYNC_DS_DIR = 0x2F00"
definition PROTOCOL_SYNC_DS_ATR :: nat where "PROTOCOL_SYNC_DS_ATR = 0x2F01"
definition PROTOCOL_SYNC_AID_SIZE :: nat where "PROTOCOL_SYNC_AID_SIZE = 16"

definition TLV_OBJECT_TAG_SEQUENCE :: nat where "TLV_OBJECT_TAG_SEQUENCE = 0x30"
definition TLV_OBJECT_TAG_APPLICATION_ID :: nat where "TLV_OBJECT_TAG_APPLICATION_ID = 0x4F"
definition TLV_OBJECT_TAG_PATH :: nat where "TLV_OBJECT_TAG_PATH = 0x51"
definition TLV_OBJECT_TAG_TEMPLATE :: nat where "TLV_OBJECT_TAG_TEMPLATE = 0x61"

text \<open>\<open>ps_icc\<close> says whether the pointer to the card is set.\<close>

record Protocol_Sync =
  ps_icc :: bool
  ps_path :: nat
  ps_length :: nat

definition Protocol_Sync_Clear :: Protocol_Sync where
  "Protocol_Sync_Clear = \<lparr>ps_icc = False, ps_path = 0, ps_length = 0\<rparr>"

definition Protocol_Sync_New :: Protocol_Sync where
  "Protocol_Sync_New = Protocol_Sync_Clear"

definition Protocol_Sync_Init :: "ICC_Sync \<Rightarrow> protocol_sync_ret \<times> Protocol_Sync" where
  "Protocol_Sync_Init icc = (PROTOCOL_SYNC_OK, \<lparr>ps_icc = True, ps_path = 0, ps_length = ICC_Sync_GetLength icc\<rparr>)"

definition Protocol_Sync_Close :: "Protocol_Sync \<Rightarrow> protocol_sync_ret \<times> Protocol_Sync" where
  "Protocol_Sync_Close ps = (PROTOCOL_SYNC_OK, Protocol_Sync_Clear)"

text \<open>The results of the commands: code, response, handler.\<close>

type_synonym ('d, 'a) sync_out = "('d sync, 'a outcome) state"
type_synonym sync_result = "protocol_sync_ret \<times> APDU_Rsp option \<times> Protocol_Sync"

definition sync_reply :: "protocol_sync_ret \<Rightarrow> byte list \<Rightarrow> Protocol_Sync \<Rightarrow> ('d, sync_result) sync_out" where
  "sync_reply ret buffer ps = out_return (ret, APDU_Rsp_New buffer (length buffer), ps)"

section \<open>Selection\<close>

definition Protocol_Sync_GetData :: "'d os \<Rightarrow> byte list \<Rightarrow> 'd sync tlv_get_data" where
  "Protocol_Sync_GetData os stack address len = do {
     r \<leftarrow> ICC_Sync_Read os stack address len;
     State_Monad.return (case r of Inl _ \<Rightarrow> None | Inr data \<Rightarrow> Some data) }"

definition PROTOCOL_SYNC_TLV :: "'d os \<Rightarrow> byte list \<Rightarrow> nat \<Rightarrow> ('d, 'd sync TLV_Object option) sync_io" where
  "PROTOCOL_SYNC_TLV os stack address = do {
     icc \<leftarrow> get_icc;
     TLV_Object_New (Protocol_Sync_GetData os stack) (ushort (ICC_Sync_GetLength icc)) (ushort address) }"

definition sync_found :: "Protocol_Sync \<Rightarrow> 's TLV_Object \<Rightarrow> Protocol_Sync" where
  "sync_found ps tlv = ps\<lparr>ps_path := TLV_Object_GetAddress tlv, ps_length := TLV_Object_GetRawLength tlv\<rparr>"

text \<open>The address of the DIR data section, when the answer to reset refers to it.\<close>

definition dir_reference :: "ATR_Sync \<Rightarrow> nat option" where
  "dir_reference atr =
     (if ATR_Sync_GetCategoryIndicator atr = ATR_SYNC_CATEGORY_INDICATOR \<and>
         ATR_SYNC_IS_DIR_DATA_REFERENCE (ATR_Sync_GetDirDataReference atr)
      then Some (unat (ATR_SYNC_DIR_DATA_REFERENCE (ATR_Sync_GetDirDataReference atr))) else None)"

text \<open>The section selected by a file identifier, \<open>None\<close> when it is not found.\<close>

definition select_fid :: "'d os \<Rightarrow> byte list \<Rightarrow> ICC_Sync \<Rightarrow> Protocol_Sync \<Rightarrow> nat \<Rightarrow> ('d, Protocol_Sync option) sync_out" where
  "select_fid os stack icc ps fid =
     (if fid = PROTOCOL_SYNC_DS_MF then out_return (Some (ps\<lparr>ps_path := 0, ps_length := ICC_Sync_GetLength icc\<rparr>))
      else if fid = PROTOCOL_SYNC_DS_ATR then
        (case ICC_Sync_GetAtr icc of
           None \<Rightarrow> out_fault
         | Some atr \<Rightarrow> out_return (case dir_reference atr of
             None \<Rightarrow> None
           | Some d \<Rightarrow> if d > 4 \<and> ICC_Sync_GetLength icc > 4
                      then Some (ps\<lparr>ps_path := 4, ps_length := min d (ICC_Sync_GetLength icc) - 4\<rparr>) else None))
      else if fid = PROTOCOL_SYNC_DS_DIR then
        (case ICC_Sync_GetAtr icc of
           None \<Rightarrow> out_fault
         | Some atr \<Rightarrow> (case dir_reference atr of
             None \<Rightarrow> out_return None
           | Some d \<Rightarrow> out_bind (out_lift (PROTOCOL_SYNC_TLV os stack d)) (\<lambda>t. out_return (map_option (sync_found ps) t))))
      else out_return None)"

text \<open>
  The application a template of a multi-application card leads to.  \<open>path_length\<close>, never
  initialised, is the number of bytes copied to the two-byte array \<open>path\<close>; a longer value
  would be written behind the array.  Both are passed on to the next turn of the search.
\<close>

definition select_path ::
    "'d os \<Rightarrow> byte list \<Rightarrow> 'd sync TLV_Object \<Rightarrow> byte list \<Rightarrow> nat \<Rightarrow> ('d, 'd sync TLV_Object option \<times> byte list \<times> nat) sync_out" where
  "select_path os stack template path path_length =
     out_bind (out_lift (TLV_Object_GetObjectByTag template TLV_OBJECT_TAG_PATH)) (\<lambda>q. case q of
       None \<Rightarrow> State_Monad.return Runs_on
     | Some None \<Rightarrow> out_return (None, path, path_length)
     | Some (Some tlv_path) \<Rightarrow>
         let n = min path_length (TLV_Object_GetLength tlv_path)
         in if n > length path then out_fault
            else out_bind (out_lift (TLV_Object_GetValue tlv_path path_length)) (\<lambda>v. case v of
              None \<Rightarrow> out_return (None, path, n)
            | Some bs \<Rightarrow>
                let path' = bs @ drop (length bs) path
                in out_bind (out_lift (PROTOCOL_SYNC_TLV os stack
                     (if n < 2 then unat (path' ! 0) else be16 (path' ! (n - 2)) (path' ! (n - 1))))) (\<lambda>app.
                   out_return (app, path', n))))"

text \<open>
  The search through the templates.  Comparisons shorten \<open>aid_length\<close> for the ones that
  follow.  The search has fuel, and needs one turn per byte of the card at most.
\<close>

fun select_app ::
    "nat \<Rightarrow> 'd os \<Rightarrow> byte list \<Rightarrow> byte list \<Rightarrow> 'd sync TLV_Object \<Rightarrow> nat \<Rightarrow> byte list \<Rightarrow> nat \<Rightarrow> 'd sync TLV_Object option \<Rightarrow>
     ('d, 'd sync TLV_Object option) sync_out" where
  "select_app 0 os stack aid dir aid_length path path_length template = State_Monad.return Runs_on"
| "select_app (Suc fuel) os stack aid dir aid_length path path_length template =
     out_bind (out_lift (TLV_Object_Iterate dir template)) (\<lambda>t. case t of
       None \<Rightarrow> out_return None
     | Some tmpl \<Rightarrow>
         out_bind (out_lift (TLV_Object_GetObjectByTag tmpl TLV_OBJECT_TAG_APPLICATION_ID)) (\<lambda>a. case a of
           None \<Rightarrow> State_Monad.return Runs_on
         | Some None \<Rightarrow> select_app fuel os stack aid dir aid_length path path_length (Some tmpl)
         | Some (Some tlv_aid) \<Rightarrow>
             out_bind (out_lift (TLV_Object_CompareValue tlv_aid aid aid_length)) (\<lambda>(eq, aid_length').
               if eq then
                 out_bind (select_path os stack tmpl path path_length) (\<lambda>(app, path', path_length'). case app of
                   None \<Rightarrow> select_app fuel os stack aid dir aid_length' path' path_length' (Some tmpl)
                 | Some _ \<Rightarrow> out_return app)
               else select_app fuel os stack aid dir aid_length' path path_length (Some tmpl))))"

text \<open>The section selected by an application identifier.\<close>

definition select_aid ::
    "'d os \<Rightarrow> byte list \<Rightarrow> byte list \<Rightarrow> nat \<Rightarrow> ICC_Sync \<Rightarrow> Protocol_Sync \<Rightarrow> byte list \<Rightarrow> ('d, Protocol_Sync option) sync_out" where
  "select_aid os stack path0 path_length0 icc ps aid =
     (let found = map_option (sync_found ps); shift = (\<lambda>dir. out_bind (out_lift (TLV_Object_Shift dir)) (\<lambda>t. out_return (found t)))
      in case ICC_Sync_GetAtr icc of
        None \<Rightarrow> out_fault
      | Some atr \<Rightarrow> (case dir_reference atr of
          None \<Rightarrow> out_return None
        | Some d \<Rightarrow> out_bind (out_lift (PROTOCOL_SYNC_TLV os stack d)) (\<lambda>t. case t of
            None \<Rightarrow> out_return None
          | Some dir \<Rightarrow>
              if TLV_Object_GetTag dir = TLV_OBJECT_TAG_APPLICATION_ID then
                out_bind (out_lift (TLV_Object_CompareValue dir aid (length aid))) (\<lambda>(eq, _).
                  if eq then shift dir else out_return None)
              else if TLV_Object_GetTag dir = TLV_OBJECT_TAG_TEMPLATE then
                out_bind (out_lift (TLV_Object_GetObjectByTag dir TLV_OBJECT_TAG_APPLICATION_ID)) (\<lambda>a. case a of
                  None \<Rightarrow> State_Monad.return Runs_on
                | Some None \<Rightarrow> out_return None
                | Some (Some tlv_aid) \<Rightarrow>
                    out_bind (out_lift (TLV_Object_CompareValue tlv_aid aid (length aid))) (\<lambda>(eq, _).
                      if eq then shift dir else out_return None))
              else if TLV_Object_GetTag dir = TLV_OBJECT_TAG_SEQUENCE then
                out_bind (select_app (tlv_data_length dir + 2) os stack aid dir (length aid) path0 path_length0 None)
                  (\<lambda>app. out_return (found app))
              else out_return None)))"

text \<open>
  \<open>path0\<close> and \<open>path_length0\<close> are the values of the uninitialised locals.  The commands
  that use their data without looking at its length read behind the command when it is too
  short.
\<close>

definition cmd_bytes :: "APDU_Cmd \<Rightarrow> nat \<Rightarrow> nat \<Rightarrow> byte list option" where
  "cmd_bytes cmd off n = (if n = 0 then Some [] else Option.bind (APDU_Cmd_Data cmd) (\<lambda>data. bytes_at data off n))"

definition Protocol_Sync_SelectFile ::
    "'d os \<Rightarrow> byte list \<Rightarrow> byte list \<Rightarrow> nat \<Rightarrow> Protocol_Sync \<Rightarrow> APDU_Cmd \<Rightarrow> ('d, sync_result) sync_out" where
  "Protocol_Sync_SelectFile os stack path0 path_length0 ps cmd =
     (let reply = (\<lambda>r. case r of
            Some ps' \<Rightarrow> sync_reply PROTOCOL_SYNC_OK [0x90, 0x00] ps'
          | None \<Rightarrow> sync_reply PROTOCOL_SYNC_OK [0x6A, 0x82] ps)
      in out_bind (out_lift get_icc) (\<lambda>icc.
        if APDU_Cmd_P1 cmd = 0x00 then
          (case cmd_bytes cmd 0 2 of
             None \<Rightarrow> out_fault
           | Some f \<Rightarrow> out_bind (select_fid os stack icc ps (be16 (f ! 0) (f ! 1))) reply)
        else if APDU_Cmd_P1 cmd = 0x04 then
          (case cmd_bytes cmd 0 (min (APDU_Cmd_Lc cmd) PROTOCOL_SYNC_AID_SIZE) of
             None \<Rightarrow> out_fault
           | Some aid \<Rightarrow> out_bind (select_aid os stack path0 path_length0 icc ps aid) reply)
        else reply None))"

section \<open>Reading, updating and the PIN\<close>

definition ps_offset :: "APDU_Cmd \<Rightarrow> nat" where
  "ps_offset cmd = be16 (APDU_Cmd_P1 cmd) (APDU_Cmd_P2 cmd)"

definition ps_available :: "Protocol_Sync \<Rightarrow> APDU_Cmd \<Rightarrow> nat" where
  "ps_available ps cmd = ps_length ps - ps_offset cmd"

definition ps_expected :: "Protocol_Sync \<Rightarrow> APDU_Cmd \<Rightarrow> nat" where
  "ps_expected ps cmd =
     min (if APDU_Cmd_Le_Available cmd then ps_available ps cmd else APDU_Cmd_Le cmd) (APDU_MAX_RSP_SIZE - 2)"

definition Protocol_Sync_ReadBinary :: "'d os \<Rightarrow> byte list \<Rightarrow> Protocol_Sync \<Rightarrow> APDU_Cmd \<Rightarrow> ('d, sync_result) sync_out" where
  "Protocol_Sync_ReadBinary os stack ps cmd =
     (let available = ps_available ps cmd; expected = ps_expected ps cmd;
          (n, sw) = (if expected > available then (available, [0x62, 0x82]) else (expected, [0x90, 0x00]))
      in out_bind (out_lift (ICC_Sync_Read os stack (ps_path ps + ps_offset cmd) n)) (\<lambda>r. case r of
           Inl _ \<Rightarrow> sync_reply PROTOCOL_SYNC_ICC_ERROR [0x65, 0x01] ps
         | Inr data \<Rightarrow> sync_reply PROTOCOL_SYNC_OK (data @ sw) ps))"

definition Protocol_Sync_UpdateBinary :: "'d os \<Rightarrow> byte list \<Rightarrow> Protocol_Sync \<Rightarrow> APDU_Cmd \<Rightarrow> ('d, sync_result) sync_out" where
  "Protocol_Sync_UpdateBinary os stack ps cmd =
     (let available = ps_available ps cmd; provided = APDU_Cmd_Lc cmd
      in case cmd_bytes cmd 0 (min available provided) of
           None \<Rightarrow> out_fault
         | Some data \<Rightarrow> out_bind (out_lift (ICC_Sync_Write os stack (ushort (ps_path ps + ps_offset cmd)) data)) (\<lambda>ret.
             if ret = ICC_SYNC_RO_ERROR then sync_reply PROTOCOL_SYNC_OK [0x62, 0x00] ps
             else if ret \<noteq> ICC_SYNC_OK then sync_reply PROTOCOL_SYNC_ICC_ERROR [0x62, 0x00] ps
             else if available < provided then sync_reply PROTOCOL_SYNC_OK [0x62, 0x00] ps
             else sync_reply PROTOCOL_SYNC_OK [0x90, 0x00] ps))"

text \<open>The status for a PIN that was not accepted, with the number of trials that are left.\<close>

definition sw_trials :: "nat option \<Rightarrow> byte list" where
  "sw_trials trials = [0x63, 0xC0 OR (low_byte (the trials) AND 0x0F)]"

definition Protocol_Sync_Verify :: "'d os \<Rightarrow> Protocol_Sync \<Rightarrow> APDU_Cmd \<Rightarrow> ('d, sync_result) sync_out" where
  "Protocol_Sync_Verify os ps cmd =
     (let n = min (APDU_Cmd_Lc cmd) ICC_SYNC_PIN_SIZE
      in case cmd_bytes cmd 0 n of
           None \<Rightarrow> out_fault
         | Some bs \<Rightarrow> out_bind (out_lift (ICC_Sync_EnterPin os (bs @ replicate (ICC_SYNC_PIN_SIZE - n) 0x00))) (\<lambda>(ret, trials).
             if ret = ICC_SYNC_PIN_ERROR then sync_reply PROTOCOL_SYNC_OK (sw_trials trials) ps
             else if ret = ICC_SYNC_BLOCKED_ERROR then sync_reply PROTOCOL_SYNC_OK [0x69, 0x83] ps
             else if ret \<noteq> ICC_SYNC_OK then sync_reply PROTOCOL_SYNC_ICC_ERROR [0x63, 0x00] ps
             else sync_reply PROTOCOL_SYNC_OK [0x90, 0x00] ps))"

definition Protocol_Sync_ChangeVerifyData :: "'d os \<Rightarrow> Protocol_Sync \<Rightarrow> APDU_Cmd \<Rightarrow> ('d, sync_result) sync_out" where
  "Protocol_Sync_ChangeVerifyData os ps cmd =
     (case (cmd_bytes cmd 0 ICC_SYNC_PIN_SIZE, cmd_bytes cmd ICC_SYNC_PIN_SIZE ICC_SYNC_PIN_SIZE) of
        (Some pin, Some newpin) \<Rightarrow> out_bind (out_lift (ICC_Sync_EnterPin os pin)) (\<lambda>(ret, trials).
          if ret = ICC_SYNC_PIN_ERROR then sync_reply PROTOCOL_SYNC_OK (sw_trials trials) ps
          else if ret = ICC_SYNC_BLOCKED_ERROR then sync_reply PROTOCOL_SYNC_OK [0x69, 0x83] ps
          else if ret \<noteq> ICC_SYNC_OK then sync_reply PROTOCOL_SYNC_ICC_ERROR [0x63, 0x00] ps
          else out_bind (out_lift (ICC_Sync_ChangePin os newpin)) (\<lambda>ret2.
            if ret2 \<noteq> ICC_SYNC_OK then sync_reply PROTOCOL_SYNC_ICC_ERROR [0x63, 0x00] ps
            else sync_reply PROTOCOL_SYNC_OK [0x90, 0x00] ps))
      | _ \<Rightarrow> out_fault)"

definition Protocol_Sync_BadCommand :: "Protocol_Sync \<Rightarrow> ('d, sync_result) sync_out" where
  "Protocol_Sync_BadCommand ps = sync_reply PROTOCOL_SYNC_OK [0x6E, 0x00] ps"

definition Protocol_Sync_Command ::
    "'d os \<Rightarrow> byte list \<Rightarrow> byte list \<Rightarrow> nat \<Rightarrow> Protocol_Sync \<Rightarrow> APDU_Cmd \<Rightarrow> ('d, sync_result) sync_out" where
  "Protocol_Sync_Command os stack path0 path_length0 ps cmd =
     out_bind (out_lift (ICC_Sync_BeginTransmission os)) (\<lambda>_.
       let ins = APDU_Cmd_Ins cmd
       in if ins = 0xA4 then Protocol_Sync_SelectFile os stack path0 path_length0 ps cmd
          else if ins = 0xB0 then Protocol_Sync_ReadBinary os stack ps cmd
          else if ins = 0xD6 then Protocol_Sync_UpdateBinary os stack ps cmd
          else if ins = 0x20 then Protocol_Sync_Verify os ps cmd
          else if ins = 0x24 then Protocol_Sync_ChangeVerifyData os ps cmd
          else Protocol_Sync_BadCommand ps)"

section \<open>The selected section stays inside the card\<close>

definition ps_inside :: "ICC_Sync \<Rightarrow> Protocol_Sync \<Rightarrow> bool" where
  "ps_inside icc ps \<longleftrightarrow> ps_path ps + ps_length ps \<le> ICC_Sync_GetLength icc"

text \<open>
  Commands that bring the data their function reads: a file identifier of two bytes, an
  application identifier, two PINs.
\<close>

definition cmd_complete :: "APDU_Cmd \<Rightarrow> bool" where
  "cmd_complete cmd \<longleftrightarrow> apdu_cmd_wf cmd \<and>
     (APDU_Cmd_Ins cmd = 0xA4 \<and> APDU_Cmd_P1 cmd = 0x00 \<longrightarrow> cmd_bytes cmd 0 2 \<noteq> None) \<and>
     (APDU_Cmd_Ins cmd = 0x24 \<longrightarrow> cmd_bytes cmd 0 6 \<noteq> None)"

lemma cmd_bytes_Lc:
  assumes "apdu_cmd_wf cmd" "n \<le> APDU_Cmd_Lc cmd"
  shows "\<exists>bs. cmd_bytes cmd 0 n = Some bs \<and> length bs = n"
  using assms
  by (cases "APDU_Cmd_Case cmd")
     (auto simp: cmd_bytes_def APDU_Cmd_Lc_def APDU_Cmd_Data_def APDU_Cmd_Case_def bytes_at_def apdu_cmd_wf_def apdu_sizes Let_def split: if_splits)

text \<open>The card as a data source: reads are exact and leave the identity of the card alone.\<close>

lemma Read_length: "run_state (ICC_Sync_Read os stack address len) s = (Inr data, s') \<Longrightarrow> length data = len"
  by (cases s) (auto simp: ICC_Sync_Read_def split: prod.splits if_splits sum.splits dest: ReadBuffer_length)

interpretation card_source: data_source "Protocol_Sync_GetData os stack" "ushort n" "\<lambda>s. sync_card (fst s) = c" for os stack n c
proof unfold_locales
  show "valid (\<lambda>s. sync_card (fst s) = c) (Protocol_Sync_GetData os stack a m)
      (\<lambda>r s. sync_card (fst s) = c \<and> (\<forall>bs. r = Some bs \<longrightarrow> length bs = m))" for a m
    unfolding Protocol_Sync_GetData_def
    by (rule validI) (auto split: prod.splits sum.splits dest: Read_length keepsD [OF keeps_card_Read])
qed simp

text \<open>The objects of a card of \<open>L\<close> bytes, and the invariant of a state with the card \<open>c\<close>.\<close>

abbreviation card_object :: "'d os \<Rightarrow> byte list \<Rightarrow> nat \<Rightarrow> 'd sync TLV_Object \<Rightarrow> bool" where
  "card_object os stack L \<equiv> of_source (Protocol_Sync_GetData os stack) (ushort L)"

abbreviation card_is :: "IFD option \<times> ATR_Sync option \<times> icc_kind \<times> nat \<times> byte \<Rightarrow> 'd sync \<Rightarrow> bool" where
  "card_is c \<equiv> \<lambda>s. sync_card (fst s) = c"

definition card_length :: "IFD option \<times> ATR_Sync option \<times> icc_kind \<times> nat \<times> byte \<Rightarrow> nat" where
  "card_length c = (case c of (_, _, _, n, _) \<Rightarrow> n)"

lemma card_length_card [simp]: "card_length (sync_card icc) = sync_length icc"
  by (simp add: card_length_def sync_card_def)

lemma TLV_valid:
  "valid (card_is c) (PROTOCOL_SYNC_TLV os stack a) (\<lambda>r s. card_is c s \<and> (\<forall>t. r = Some t \<longrightarrow> card_object os stack (card_length c) t))"
  unfolding PROTOCOL_SYNC_TLV_def
proof (rule valid_bind [where R = "\<lambda>icc s. card_is c s \<and> sync_length icc = card_length c"])
  show "valid (card_is c) get_icc (\<lambda>icc s. card_is c s \<and> sync_length icc = card_length c)"
    by (rule validI) (auto simp: get_icc_def)
  show "valid (\<lambda>s. card_is c s \<and> sync_length icc = card_length c)
      (TLV_Object_New (Protocol_Sync_GetData os stack) (ushort (ICC_Sync_GetLength icc)) (ushort a))
      (\<lambda>r s. card_is c s \<and> (\<forall>t. r = Some t \<longrightarrow> card_object os stack (card_length c) t))" for icc
  proof (cases "sync_length icc = card_length c")
    case True
    show ?thesis
      unfolding ICC_Sync_GetLength_def True by (rule valid_conseq [OF card_source.New_valid]) auto
  qed (simp add: valid_def)
qed

lemma found_inside:
  "card_object os stack L t \<Longrightarrow> ps_path (sync_found ps t) + ps_length (sync_found ps t) \<le> L"
  by (auto simp: sync_found_def of_source_def tlv_ok_def TLV_Object_GetAddress_def TLV_Object_GetRawLength_def)

definition turns_left :: "nat \<Rightarrow> 's TLV_Object option \<Rightarrow> nat" where
  "turns_left dl template = (case template of None \<Rightarrow> dl + 1 | Some t \<Rightarrow> dl - tlv_address t)"

lemma compare_valid:
  "card_object os stack (card_length c) u \<Longrightarrow> valid (card_is c) (TLV_Object_CompareValue u bs n) (\<lambda>_ s. card_is c s \<and> True)"
  by (rule valid_conseq [OF card_source.CompareValue_valid]) auto

lemma select_path_returns:
  assumes "card_object os stack (card_length c) tmpl" "length path = 2" "path_length \<le> 2 \<or> F"
  shows "returns_unless F (card_is c) (select_path os stack tmpl path path_length)
    (\<lambda>(app, path', n) s. card_is c s \<and> (\<forall>t. app = Some t \<longrightarrow> card_object os stack (card_length c) t) \<and> length path' = 2 \<and> (n \<le> 2 \<or> F))"
  unfolding select_path_def
proof (rule returns_lift_bind [OF card_source.ByTag_valid [OF assms(1)]], goal_cases)
  case (1 q)
  then obtain y where y: "q = Some y" "\<And>u. y = Some u \<Longrightarrow> card_object os stack (card_length c) u" by blast
  show ?case
  proof (cases y)
    case (Some u)
    show ?thesis
    proof (cases "length path < min path_length (TLV_Object_GetLength u)")
      case True
      then have F using assms(2,3) by linarith
      then show ?thesis using y(1) Some True by (simp add: returns_fault)
    next
      case le: False
      then have n: "min path_length (TLV_Object_GetLength u) \<le> 2" using assms(2) by linarith
      show ?thesis
        unfolding y(1) Some option.case Let_def if_not_P [OF le]
    proof (rule returns_lift_bind [OF card_source.GetValue_valid [OF y(2) [OF Some]]], goal_cases)
      case (1 v)
      show ?case
      proof (cases v)
        case (Some bs)
        show ?thesis
          unfolding Some option.case
          by (rule returns_lift_bind [OF TLV_valid], rule returns_return)
             (use 1 Some n assms(2,3) in \<open>auto simp: TLV_Object_GetLength_def\<close>)
      qed (use n assms(2) in \<open>auto intro!: returns_return\<close>)
      qed
    qed
  qed (use y(1) assms(2,3) in \<open>auto intro!: returns_return\<close>)
qed

lemma select_app_returns:
  assumes "card_object os stack (card_length c) dir"
  shows "(\<And>t. template = Some t \<Longrightarrow> card_object os stack (card_length c) t) \<Longrightarrow> turns_left (ushort (card_length c)) template < fuel \<Longrightarrow>
    length path = 2 \<Longrightarrow> path_length \<le> 2 \<or> F \<Longrightarrow>
    returns_unless F (card_is c) (select_app fuel os stack aid dir aid_length path path_length template)
      (\<lambda>r s. card_is c s \<and> (\<forall>t. r = Some t \<longrightarrow> card_object os stack (card_length c) t))"
proof (induction fuel arbitrary: aid_length path path_length template)
  case (Suc fuel)
  show ?case
    unfolding select_app.simps
  proof (rule returns_lift_bind [OF card_source.Iterate_valid [OF assms Suc.prems(1)]], assumption, goal_cases)
    case (1 t)
    show ?case
    proof (cases t)
      case (Some tmpl)
      then have o: "card_object os stack (card_length c) tmpl" and less: "turns_left (ushort (card_length c)) (Some tmpl) < fuel"
        using 1 Suc.prems(2) by (auto simp: turns_left_def of_source_def tlv_ok_def split: option.splits)
      have again: "returns_unless F (card_is c) (select_app fuel os stack aid dir al pa pl (Some tmpl))
          (\<lambda>r s. card_is c s \<and> (\<forall>t. r = Some t \<longrightarrow> card_object os stack (card_length c) t))" if "length pa = 2" "pl \<le> 2 \<or> F" for al pa pl
        by (rule Suc.IH) (use that o less in auto)
      have path: "returns_unless F (card_is c) (out_bind (select_path os stack tmpl path path_length) (\<lambda>(app, path', path_length'). case app of
            None \<Rightarrow> select_app fuel os stack aid dir al path' path_length' (Some tmpl) | Some _ \<Rightarrow> out_return app))
          (\<lambda>r s. card_is c s \<and> (\<forall>t. r = Some t \<longrightarrow> card_object os stack (card_length c) t))" for al
      proof (rule returns_bind [OF select_path_returns [OF o Suc.prems(3,4)]], goal_cases)
        case (1 a)
        obtain app pa n where a: "a = (app, pa, n)" by (cases a)
        show ?case
          unfolding a prod.case
        proof (rule returns_pure [where C = "length pa = 2 \<and> (n \<le> 2 \<or> F)"], blast)
          assume "length pa = 2 \<and> (n \<le> 2 \<or> F)"
          then show "returns_unless F (\<lambda>s. card_is c s \<and> (\<forall>t. app = Some t \<longrightarrow> card_object os stack (card_length c) t) \<and> length pa = 2 \<and> (n \<le> 2 \<or> F))
              (case app of None \<Rightarrow> select_app fuel os stack aid dir al pa n (Some tmpl) | Some _ \<Rightarrow> out_return app)
              (\<lambda>r s. card_is c s \<and> (\<forall>t. r = Some t \<longrightarrow> card_object os stack (card_length c) t))"
            by (cases app) (auto intro!: returns_return returns_conseq [OF again])
        qed
      qed
      show ?thesis
        unfolding Some option.case
      proof (rule returns_lift_bind [OF card_source.ByTag_valid [OF o]], goal_cases)
        case (1 a)
        then obtain x where x: "a = Some x" "\<And>u. x = Some u \<Longrightarrow> card_object os stack (card_length c) u" by blast
        show ?case
        proof (cases x)
          case (Some tlv_aid)
          show ?thesis
            unfolding x(1) Some option.case
            by (rule returns_lift_bind [OF compare_valid [OF x(2) [OF Some]]])
               (auto split: prod.split intro!: returns_if again path Suc.prems(3,4))
        qed (use x(1) again Suc.prems(3,4) in simp)
      qed
    qed (auto intro!: returns_return)
  qed
qed simp

text \<open>What every command function returns.\<close>

definition sync_good :: "IFD option \<times> ATR_Sync option \<times> icc_kind \<times> nat \<times> byte \<Rightarrow> sync_result \<Rightarrow> 'd sync \<Rightarrow> bool" where
  "sync_good c x s = (case x of (ret, rsp, ps) \<Rightarrow>
     card_is c s \<and> (\<exists>r. rsp = Some r \<and> apdu_rsp_wf r) \<and> ps_path ps + ps_length ps \<le> card_length c)"

lemma returns_keeps_bind: "keeps I m \<Longrightarrow> (\<And>a. returns_unless F I (f a) Q) \<Longrightarrow> returns_unless F I (out_bind (out_lift m) f) Q"
  by (rule returns_lift_bind [where C = "\<lambda>_. True"]) (simp_all add: keeps_def)

lemma reply_good:
  "2 \<le> length buffer \<Longrightarrow> ps_path ps + ps_length ps \<le> card_length c \<Longrightarrow> returns_unless F (card_is c) (sync_reply ret buffer ps) (sync_good c)"
  unfolding sync_reply_def by (rule returns_return) (auto simp: sync_good_def APDU_Rsp_New_def apdu_rsp_wf_def apdu_sizes)

definition select_good :: "IFD option \<times> ATR_Sync option \<times> icc_kind \<times> nat \<times> byte \<Rightarrow> Protocol_Sync option \<Rightarrow> 'd sync \<Rightarrow> bool" where
  "select_good c r s \<longleftrightarrow> card_is c s \<and> (\<forall>ps. r = Some ps \<longrightarrow> ps_path ps + ps_length ps \<le> card_length c)"

lemma found_good:
  assumes "\<forall>t. x = Some t \<longrightarrow> card_object os stack (card_length c) t"
  shows "returns_unless F (card_is c) (out_return (map_option (sync_found ps) x)) (select_good c)"
  by (rule returns_return) (use assms in \<open>auto simp: select_good_def intro!: found_inside\<close>)

lemma none_good: "returns_unless F (card_is c) (out_return None) (select_good c)"
  by (rule returns_return) (simp add: select_good_def)

lemma select_fid_good:
  assumes "sync_card icc = c" "sync_atr icc = Some atr"
  shows "returns_unless F (card_is c) (select_fid os stack icc ps fid) (select_good c)"
proof -
  have L: "ICC_Sync_GetLength icc = card_length c" "ICC_Sync_GetAtr icc = Some atr"
    using assms by (auto simp: ICC_Sync_GetLength_def ICC_Sync_GetAtr_def)
  show ?thesis
    unfolding select_fid_def L option.case
    by (intro returns_if) (auto simp: select_good_def split: option.split
        intro!: none_good returns_return returns_lift_bind [OF TLV_valid] found_good)
qed

lemma shift_good:
  assumes "card_object os stack (card_length c) dir"
  shows "returns_unless F (card_is c) (out_bind (out_lift (TLV_Object_Shift dir)) (\<lambda>t. out_return (map_option (sync_found ps) t))) (select_good c)"
  by (rule returns_lift_bind [OF card_source.Shift_valid [OF assms(1)]]) (auto intro!: found_good)

lemma select_aid_good:
  assumes "sync_card icc = c" "sync_atr icc = Some atr" "length path0 = 2" "path_length0 \<le> 2 \<or> F \<or> dir_reference atr = None"
  shows "returns_unless F (card_is c) (select_aid os stack path0 path_length0 icc ps aid) (select_good c)"
proof -
  have L: "ICC_Sync_GetAtr icc = Some atr" using assms(2) by (simp add: ICC_Sync_GetAtr_def)
  show ?thesis
  proof (cases "dir_reference atr")
    case ref: (Some d)
    show ?thesis
      unfolding select_aid_def Let_def L option.case ref
    proof (rule returns_lift_bind [OF TLV_valid], goal_cases)
      case (1 t)
      show ?case
      proof (cases t)
        case (Some dir)
        then have o: "card_object os stack (card_length c) dir" using 1 by blast
        have compare: "returns_unless F (card_is c) (out_bind (out_lift (TLV_Object_CompareValue u aid n)) (\<lambda>(eq, _).
            if eq then out_bind (out_lift (TLV_Object_Shift dir)) (\<lambda>t. out_return (map_option (sync_found ps) t)) else out_return None))
            (select_good c)" if "card_object os stack (card_length c) u" for u n
          by (rule returns_lift_bind [OF compare_valid [OF that]])
             (auto split: prod.split intro!: returns_if shift_good [OF o] none_good)
        have template: "returns_unless F (card_is c) (out_bind (out_lift (TLV_Object_GetObjectByTag dir TLV_OBJECT_TAG_APPLICATION_ID)) (\<lambda>a. case a of
              None \<Rightarrow> State_Monad.return Runs_on
            | Some None \<Rightarrow> out_return None
            | Some (Some tlv_aid) \<Rightarrow> out_bind (out_lift (TLV_Object_CompareValue tlv_aid aid (length aid))) (\<lambda>(eq, _).
                if eq then out_bind (out_lift (TLV_Object_Shift dir)) (\<lambda>t. out_return (map_option (sync_found ps) t)) else out_return None)))
            (select_good c)"
          by (rule returns_lift_bind [OF card_source.ByTag_valid [OF o]]) (auto split: option.split intro: compare none_good)
        have app: "returns_unless F (card_is c) (select_app (tlv_data_length dir + 2) os stack aid dir (length aid) path0 path_length0 None)
            (\<lambda>r s. card_is c s \<and> (\<forall>t. r = Some t \<longrightarrow> card_object os stack (card_length c) t))"
          by (rule select_app_returns [OF o]) (use o assms(3,4) ref in \<open>auto simp: turns_left_def of_source_def\<close>)
        have seq: "returns_unless F (card_is c) (out_bind (select_app (tlv_data_length dir + 2) os stack aid dir (length aid) path0 path_length0 None)
            (\<lambda>app. out_return (map_option (sync_found ps) app))) (select_good c)"
          by (rule returns_bind [OF app], rule returns_pure) (auto intro: returns_conseq [OF found_good])
        show ?thesis
          unfolding Some option.case by (intro returns_if compare [OF o] template seq none_good)
      qed (simp add: none_good)
    qed
  qed (simp add: select_aid_def L none_good)
qed

text \<open>
  Where a command may touch memory it does not own: it does not bring its data, or it selects
  an application on a card with a directory while the uninitialised \<open>path_length\<close>
  is longer than the array \<open>path\<close>.
\<close>

definition path_overflow :: "ATR_Sync \<Rightarrow> nat \<Rightarrow> APDU_Cmd \<Rightarrow> bool" where
  "path_overflow atr path_length0 cmd \<longleftrightarrow>
     APDU_Cmd_Ins cmd = 0xA4 \<and> APDU_Cmd_P1 cmd = 0x04 \<and> dir_reference atr \<noteq> None \<and> 2 < path_length0"

lemma Command_good:
  assumes "apdu_cmd_wf cmd" "ps_path ps + ps_length ps \<le> card_length c"
    "c = sync_card icc" "sync_atr icc = Some atr" "length path0 = 2"
    "F = (\<not> cmd_complete cmd \<or> path_overflow atr path_length0 cmd)"
  shows "returns_unless F (card_is c) (Protocol_Sync_Command os stack path0 path_length0 ps cmd) (sync_good c)"
proof -
  note wf = assms(1)
  have reply: "returns_unless F (card_is c) (sync_reply ret [a, b] ps) (sync_good c)"
      "returns_unless F (card_is c) (sync_reply ret (sw_trials n) ps) (sync_good c)" for ret a b n
    using assms(2) by (auto intro!: reply_good simp: sw_trials_def)
  have select: "returns_unless F (card_is c) (Protocol_Sync_SelectFile os stack path0 path_length0 ps cmd) (sync_good c)" if ins: "APDU_Cmd_Ins cmd = 0xA4"
  proof -
    have found: "returns_unless F (select_good c r) (case r of Some ps' \<Rightarrow> sync_reply PROTOCOL_SYNC_OK [0x90, 0x00] ps'
        | None \<Rightarrow> sync_reply PROTOCOL_SYNC_OK [0x6A, 0x82] ps) (sync_good c)" for r :: "Protocol_Sync option"
      by (rule returns_pure [where C = "\<forall>ps'. r = Some ps' \<longrightarrow> ps_path ps' + ps_length ps' \<le> card_length c"])
         (auto simp: select_good_def split: option.split intro: returns_conseq [OF reply(1)] returns_conseq [OF reply_good])
    have start: "returns_unless F (card_is c) (out_lift get_icc) (\<lambda>i s. card_is c s \<and> sync_card i = c)"
      by (rule returns_lift, rule validI) (auto simp: get_icc_def)
    have aid: "\<exists>bs. cmd_bytes cmd 0 (min (APDU_Cmd_Lc cmd) PROTOCOL_SYNC_AID_SIZE) = Some bs"
      using cmd_bytes_Lc [OF wf, of "min (APDU_Cmd_Lc cmd) PROTOCOL_SYNC_AID_SIZE"] by auto
    show ?thesis
      unfolding Protocol_Sync_SelectFile_def Let_def
    proof (rule returns_bind [OF start], rule returns_pure [where C = "sync_card _ = c"], blast, goal_cases)
      case (1 i)
      then have a: "sync_atr i = Some atr" "sync_card i = c" using assms(3,4) by (auto simp: sync_card_def)
      have f: F if "APDU_Cmd_P1 cmd = 0x00" "cmd_bytes cmd 0 2 = None" using assms(6) ins that by (auto simp: cmd_complete_def)
      have short: "path_length0 \<le> 2 \<or> F \<or> dir_reference atr = None" if "APDU_Cmd_P1 cmd = 0x04"
        using assms(6) ins that by (auto simp: path_overflow_def)
      have weak: "returns_unless F (\<lambda>s. card_is c s \<and> sync_card i = c) m Q" if "returns_unless F (card_is c) m Q" for m :: "('d, sync_result) sync_out" and Q
        by (rule returns_conseq [OF that]) auto
      show ?case
        using f aid
        by (auto split: option.split intro!: weak returns_if returns_fault reply returns_bind [OF select_fid_good [OF a(2,1)] found]
            returns_bind [OF select_aid_good [OF a(2,1) assms(5) short] found])
    qed
  qed
  have read: "returns_unless F (card_is c) (Protocol_Sync_ReadBinary os stack ps cmd) (sync_good c)"
    unfolding Protocol_Sync_ReadBinary_def Let_def
    by (auto split: prod.split sum.split intro!: returns_keeps_bind [OF keeps_card_Read] reply reply_good assms(2))
  have update: "returns_unless F (card_is c) (Protocol_Sync_UpdateBinary os stack ps cmd) (sync_good c)"
    using cmd_bytes_Lc [OF wf, of "min (ps_available ps cmd) (APDU_Cmd_Lc cmd)"]
    unfolding Protocol_Sync_UpdateBinary_def Let_def
    by (auto intro!: returns_keeps_bind [OF keeps_card_Write] reply)
  have verify: "returns_unless F (card_is c) (Protocol_Sync_Verify os ps cmd) (sync_good c)"
    using cmd_bytes_Lc [OF wf, of "min (APDU_Cmd_Lc cmd) ICC_SYNC_PIN_SIZE"]
    unfolding Protocol_Sync_Verify_def Let_def
    by (auto split: prod.split intro!: returns_keeps_bind [OF keeps_card_EnterPin] reply)
  have change: "returns_unless F (card_is c) (Protocol_Sync_ChangeVerifyData os ps cmd) (sync_good c)" if "APDU_Cmd_Ins cmd = 0x24"
  proof -
    have F if "cmd_bytes cmd 0 3 = None \<or> cmd_bytes cmd 3 3 = None"
      using assms(6) that \<open>APDU_Cmd_Ins cmd = 0x24\<close> by (auto simp: cmd_complete_def cmd_bytes_def bytes_at_def split: bind_splits if_splits)
    then show ?thesis
      unfolding Protocol_Sync_ChangeVerifyData_def ICC_SYNC_PIN_SIZE_def
      by (auto split: prod.split option.split intro!: returns_fault returns_keeps_bind [OF keeps_card_EnterPin] returns_keeps_bind [OF keeps_card_ChangePin] reply)
  qed
  show ?thesis
    unfolding Protocol_Sync_Command_def Let_def Protocol_Sync_BadCommand_def
    by (rule returns_keeps_bind [OF keeps_card_Begin]) (intro returns_if select read update verify change reply; assumption)
qed

text \<open>
  (C24) Commands on a memory card, with any device behind it and whatever the uninitialised
  locals hold: they always end.  A command that returns has produced a well-formed
  response, has kept the identity of the card and has left a section selected that lies
  inside its memory.  It touches memory it does not own only when it lacks the data its
  function reads, or when it selects an application on a card with a directory and the
  uninitialised \<open>path_length\<close> is greater than 2, the size of the array it bounds.
\<close>

theorem Protocol_Sync_Command_inside:
  assumes "apdu_cmd_wf cmd" "ps_inside icc ps" "ICC_Sync_GetAtr icc = Some atr" "length path0 = 2"
    and "run_state (Protocol_Sync_Command os stack path0 path_length0 ps cmd) (icc, p) = (r, (icc', p'))"
  shows "(r = Faults \<longrightarrow> \<not> cmd_complete cmd \<or> path_overflow atr path_length0 cmd) \<and>
    (r \<noteq> Faults \<longrightarrow> (\<exists>ret rsp ps'. r = Returns (ret, Some rsp, ps') \<and>
       apdu_rsp_wf rsp \<and> sync_card icc' = sync_card icc \<and> ps_inside icc' ps'))"
proof -
  have "(\<exists>x. r = Returns x \<and> sync_good (sync_card icc) x (icc', p')) \<or>
      (r = Faults \<and> (\<not> cmd_complete cmd \<or> path_overflow atr path_length0 cmd))"
    by (rule returns_unlessD [OF Command_good [OF assms(1) _ refl _ assms(4) refl] _ assms(5)])
       (use assms(2,3) in \<open>auto simp: ps_inside_def ICC_Sync_GetLength_def ICC_Sync_GetAtr_def\<close>)
  then show ?thesis
    by (fastforce simp: sync_good_def ps_inside_def ICC_Sync_GetLength_def sync_card_def card_length_def)
qed

text \<open>A 3-wire card of 1024 bytes whose answer to reset refers to no directory.\<close>

definition sample_icc :: ICC_Sync where
  "sample_icc = ICC_Sync_Clear\<lparr>sync_ifd := Some IFD_Towitoko_Clear, sync_type := IFD_TOWITOKO_3W, sync_length := 1024,
     sync_active := True, sync_atr := Some ATR_Sync_New\<rparr>"

definition sample_select_mf :: APDU_Cmd where
  "sample_select_mf = \<lparr>command = [0x00, 0xA4, 0x00, 0x00, 0x02, 0x3F, 0x00], cmd_length = 7\<rparr>"

text \<open>The whole card is selected, with 77 in the uninitialised \<open>path_length\<close>.\<close>

lemma Protocol_Sync_Command_inside_witness:
  "\<exists>ret rsp ps' icc' p'. run_state (Protocol_Sync_Command script_os (replicate 17 0) [0, 0] 77 (snd (Protocol_Sync_Init sample_icc)) sample_select_mf)
      (sample_icc, script_port [] (Some default_properties)) = (Returns (ret, Some rsp, ps'), (icc', p')) \<and>
    apdu_rsp_wf rsp \<and> sync_card icc' = sync_card sample_icc \<and> ps_inside icc' ps'"
proof -
  obtain r icc' p' where r: "run_state (Protocol_Sync_Command script_os (replicate 17 0) [0, 0] 77 (snd (Protocol_Sync_Init sample_icc)) sample_select_mf)
      (sample_icc, script_port [] (Some default_properties)) = (r, (icc', p'))" by (metis surj_pair)
  have "cmd_complete sample_select_mf" "\<not> path_overflow ATR_Sync_New 77 sample_select_mf"
    by (simp_all add: cmd_complete_def sample_select_mf_def apdu_cmd_wf_def apdu_sizes cmd_bytes_def APDU_Cmd_Data_def
        APDU_Cmd_Case_def bytes_at_def APDU_Cmd_Ins_def APDU_Cmd_P1_def path_overflow_def)
  moreover have "apdu_cmd_wf sample_select_mf" "ps_inside sample_icc (snd (Protocol_Sync_Init sample_icc))" "ICC_Sync_GetAtr sample_icc = Some ATR_Sync_New"
    by (simp_all add: sample_select_mf_def sample_icc_def apdu_cmd_wf_def apdu_sizes Protocol_Sync_Init_def ps_inside_def
        ICC_Sync_GetLength_def ICC_Sync_GetAtr_def)
  ultimately show ?thesis
    using Protocol_Sync_Command_inside [OF _ _ _ _ r] r by auto
qed

section \<open>Reading a section\<close>

text \<open>
  (C28) READ BINARY.  The card is read once, from the offset in the selected section, for the
  number of bytes asked for or what is left of the section, and never behind the memory of
  the card.  The response carries exactly the bytes read, with the status for an early end
  of the section exactly when there were fewer than expected, or the status of a memory
  failure when the read failed.
\<close>

theorem Protocol_Sync_ReadBinary_section:
  assumes "ps_inside icc ps" "n = min (ps_expected ps cmd) (ps_available ps cmd)"
    "run_state (ICC_Sync_Read os stack (ps_path ps + ps_offset cmd) n) (icc, p) = (r, s')"
  shows "run_state (Protocol_Sync_ReadBinary os stack ps cmd) (icc, p) = (Returns (case r of
        Inl _ \<Rightarrow> (PROTOCOL_SYNC_ICC_ERROR, Some \<lparr>response = [0x65, 0x01], rsp_length = 2\<rparr>, ps)
      | Inr data \<Rightarrow> (PROTOCOL_SYNC_OK, Some \<lparr>response = data @ (if n < ps_expected ps cmd then [0x62, 0x82] else [0x90, 0x00]),
          rsp_length = n + 2\<rparr>, ps)), s') \<and>
    (0 < n \<longrightarrow> ps_path ps + ps_offset cmd + n \<le> ICC_Sync_GetLength icc) \<and> n + 2 \<le> APDU_MAX_RSP_SIZE"
proof -
  have n: "n = (if ps_expected ps cmd > ps_available ps cmd then ps_available ps cmd else ps_expected ps cmd)"
    "n < ps_expected ps cmd \<longleftrightarrow> ps_expected ps cmd > ps_available ps cmd" "n + 2 \<le> APDU_MAX_RSP_SIZE"
    using assms(2) by (auto simp: ps_expected_def apdu_sizes)
  have "0 < n \<longrightarrow> ps_path ps + ps_offset cmd + n \<le> ICC_Sync_GetLength icc"
    using assms(1,2) by (auto simp: ps_available_def ps_inside_def)
  then show ?thesis
    using n(3) assms(3) Read_length [of os stack "ps_path ps + ps_offset cmd" n "(icc, p)" _ s']
    by (auto simp: Protocol_Sync_ReadBinary_def sync_reply_def APDU_Rsp_New_def apdu_sizes n(1) Let_def split: sum.split if_splits)
qed

lemma Protocol_Sync_ReadBinary_section_witness:
  "fst (run_state (Protocol_Sync_ReadBinary script_os (replicate 17 0) \<lparr>ps_icc = True, ps_path = 4, ps_length = 7\<rparr>
      \<lparr>command = [0x00, 0xB0, 0x00, 0x05, 0x03], cmd_length = 5\<rparr>)
      (sample_icc, script_port [[0x01], [0x41, 0x42, 0x01]] (Some default_properties))) =
   Returns (PROTOCOL_SYNC_OK, Some \<lparr>response = [0x41, 0x42, 0x62, 0x82], rsp_length = 4\<rparr>, \<lparr>ps_icc = True, ps_path = 4, ps_length = 7\<rparr>)"
proof -
  let ?ps = "\<lparr>ps_icc = True, ps_path = 4, ps_length = 7\<rparr>" and ?cmd = "\<lparr>command = [0x00, 0xB0, 0x00, 0x05, 0x03], cmd_length = 5\<rparr>"
  let ?s = "(sample_icc, script_port [[0x01], [0x41, 0x42, 0x01]] (Some default_properties))"
  have e: "ps_expected ?ps ?cmd = 3" "ps_available ?ps ?cmd = 2" "ps_offset ?cmd = 5"
    by (simp_all add: ps_expected_def ps_available_def ps_offset_def APDU_Cmd_Le_Available_def APDU_Cmd_Le_def APDU_Cmd_Case_def
        APDU_Cmd_P1_def APDU_Cmd_P2_def be16_eq apdu_sizes)
  obtain r s' where r: "run_state (ICC_Sync_Read script_os (replicate 17 0) 9 2) ?s = (r, s')" by (metis surj_pair)
  then have "r = Inr [0x41, 0x42]"
    by (auto simp: sample_icc_def sync_activate_def sync_deactivate_def ICC_Sync_Read_def ICC_SYNC_NEEDS_ACTIVATE_def ICC_SYNC_NEEDS_DEACTIVATE_def
        IFD_Towitoko_SetReadAddress_def IFD_Towitoko_ReadBuffer_def read_block_def IFD_TOWITOKO_PS_def ifd_eval script_port_def Let_def)
  moreover have "ps_inside sample_icc ?ps" by (simp add: ps_inside_def sample_icc_def ICC_Sync_GetLength_def)
  ultimately show ?thesis
    using Protocol_Sync_ReadBinary_section [of sample_icc ?ps 2 ?cmd script_os "replicate 17 0" _ r s'] r by (simp add: e)
qed

end
