(* ===== verification/CtSlot.thy ===== *)
theory CtSlot
  imports Pps ProtocolSync
begin

text \<open>
  The slots of a card terminal, \<^verbatim>\<open>src/src/ct-api/ct_slot.c\<close>: detection of the card in
  a slot, the choice between the synchronous and the asynchronous card and its protocol, and
  the commands to the card.  A slot holds untyped pointers to a card and to a protocol handler
  with two integers that tell their types; a cast to another type than that of the object is
  a fault of the model.
\<close>

section \<open>Data\<close>

datatype ct_ret = OK | ERR_INVALID | ERR_CT | ERR_TRANS | ERR_MEMORY | ERR_HTSI

definition CTBCS_SW1_ICC_ERROR :: byte where "CTBCS_SW1_ICC_ERROR = 0x6F"
definition CTBCS_SW2_ICC_ERROR :: byte where "CTBCS_SW2_ICC_ERROR = 0x00"

definition CT_SLOT_PROTOCOL_T0 :: int where "CT_SLOT_PROTOCOL_T0 = 0"
definition CT_SLOT_PROTOCOL_T1 :: int where "CT_SLOT_PROTOCOL_T1 = 1"
definition CT_SLOT_PROTOCOL_SYNC :: int where "CT_SLOT_PROTOCOL_SYNC = 16"
definition CT_SLOT_ICC_ASYNC :: int where "CT_SLOT_ICC_ASYNC = 0"
definition CT_SLOT_ICC_SYNC :: int where "CT_SLOT_ICC_SYNC = 1"
definition CT_SLOT_NULL :: int where "CT_SLOT_NULL = - 1"

lemmas ct_slot_types = CT_SLOT_PROTOCOL_T0_def CT_SLOT_PROTOCOL_T1_def CT_SLOT_PROTOCOL_SYNC_def
  CT_SLOT_ICC_ASYNC_def CT_SLOT_ICC_SYNC_def CT_SLOT_NULL_def

text \<open>
  What the untyped pointers refer to.  The handler of an asynchronous card holds the card;
  the slot's copy is kept equal to it, as both are one object.
\<close>

datatype slot_card = No_Card | Sync_Card ICC_Sync | Async_Card ICC_Async

datatype slot_handler = No_Handler | Sync_Handler Protocol_Sync | T0_Handler Protocol_T0 | T1_Handler Protocol_T1

record CT_Slot =
  slot_ifd :: "IFD option"
  slot_icc :: slot_card
  slot_protocol :: slot_handler
  slot_icc_type :: int
  slot_protocol_type :: int

text \<open>
  The host the driver runs on: its system calls, the rounding of its floating point numbers,
  the configuration of T=0 and of the port numbers, a bound on the turns of the protocol loops, and what the
  functions find in their uninitialised local variables.
\<close>

record 'd host =
  host_os :: "'d os"
  host_fl :: "rat \<Rightarrow> rat"
  host_fll :: "rat \<Rightarrow> rat"
  host_iso7816 :: bool
  host_win32_com :: bool
  host_fuel :: nat
  host_atr :: ATR
  host_t0 :: "byte list"
  host_t1 :: "byte list"
  host_pps :: "byte list"
  host_probe :: "byte list"
  host_sync :: "byte list"
  host_status :: byte
  host_orig :: byte
  host_path :: "byte list"
  host_path_length :: nat
  host_buffer :: "byte list"
  host_length :: nat

section \<open>Operations\<close>

definition CT_Slot_Clear :: CT_Slot where
  "CT_Slot_Clear =
     \<lparr>slot_ifd = None, slot_icc = No_Card, slot_protocol = No_Handler, slot_icc_type = CT_SLOT_NULL, slot_protocol_type = CT_SLOT_NULL\<rparr>"

definition CT_Slot_New :: CT_Slot where
  "CT_Slot_New = CT_Slot_Clear"

definition CT_Slot_Init :: "'d host \<Rightarrow> CT_Slot \<Rightarrow> byte \<Rightarrow> ('d, ct_ret \<times> CT_Slot) io" where
  "CT_Slot_Init h sl sn = do {
     (r, ifd) \<leftarrow> IFD_Towitoko_Init (host_os h) IFD_Towitoko_New sn;
     State_Monad.return
       (if r \<noteq> IFD_TOWITOKO_OK then (ERR_TRANS, sl\<lparr>slot_ifd := None\<rparr>) else (OK, sl\<lparr>slot_ifd := Some ifd\<rparr>)) }"

text \<open>The device is asked for its status once and then once a second.  The result is \<open>(card, change)\<close>.\<close>

fun slot_poll :: "'d os \<Rightarrow> IFD \<Rightarrow> nat \<Rightarrow> byte \<Rightarrow> bool \<Rightarrow> ('d, ct_ret + bool \<times> bool) io" where
  "slot_poll os ifd 0 status change = State_Monad.return (Inr (IFD_TOWITOKO_CARD status, change))"
| "slot_poll os ifd (Suc timeout) status change =
     (if IFD_TOWITOKO_CARD status then State_Monad.return (Inr (True, change))
      else do {
        _ \<leftarrow> syscall (os_nanosleep os 1000);
        st \<leftarrow> IFD_Towitoko_GetStatus os ifd;
        case st of
          Inl _ \<Rightarrow> State_Monad.return (Inl ERR_TRANS)
        | Inr status' \<Rightarrow> slot_poll os ifd timeout status' (change \<or> IFD_TOWITOKO_CHANGE status') })"

definition CT_Slot_Check :: "'d host \<Rightarrow> CT_Slot \<Rightarrow> nat \<Rightarrow> ('d, (ct_ret + bool \<times> bool) outcome) io" where
  "CT_Slot_Check h sl timeout =
     (case slot_ifd sl of
        None \<Rightarrow> out_fault
      | Some ifd \<Rightarrow> out_lift (do {
          st \<leftarrow> IFD_Towitoko_GetStatus (host_os h) ifd;
          case st of
            Inl _ \<Rightarrow> State_Monad.return (Inl ERR_TRANS)
          | Inr status \<Rightarrow> slot_poll (host_os h) ifd timeout status (IFD_TOWITOKO_CHANGE status) }))"

text \<open>An operation of a synchronous card on the card of the slot.\<close>

definition with_sync :: "ICC_Sync \<Rightarrow> ('d, 'a) sync_io \<Rightarrow> ('d, 'a \<times> ICC_Sync) io" where
  "with_sync icc m = State (\<lambda>p. case run_state m (icc, p) of (a, (icc', p')) \<Rightarrow> ((a, icc'), p'))"

fun handler_of :: "protocol \<Rightarrow> slot_handler" where
  "handler_of No_Protocol = No_Handler"
| "handler_of (Prot_T0 t0) = T0_Handler t0"
| "handler_of (Prot_T1 t1) = T1_Handler t1"

text \<open>The PPS request: at most six bytes of the user's data.\<close>

definition probe_request :: "byte list option \<Rightarrow> nat \<Rightarrow> byte list option" where
  "probe_request userdata len =
     (case userdata of
        Some bs \<Rightarrow> if len > 0 then bytes_at bs 0 (min len PPS_MAX_LENGTH) else Some []
      | None \<Rightarrow> Some [])"

definition probe_async :: "'d host \<Rightarrow> CT_Slot \<Rightarrow> ICC_Async \<Rightarrow> byte list option \<Rightarrow> nat \<Rightarrow> ('d, (ct_ret \<times> CT_Slot) outcome) io" where
  "probe_async h sl icc userdata len =
     (case probe_request userdata len of
        None \<Rightarrow> out_fault
      | Some request \<Rightarrow>
          out_bind (PPS_Perform (host_fl h) (host_fll h) (host_os h) (host_pps h) (PPS_New icc)
              (request @ drop (length request) (host_probe h)) (length request)) (\<lambda>(ret, pps, _).
            if ret \<noteq> PPS_OK then
              out_bind (out_lift (ICC_Async_Close (host_os h) (pps_icc pps))) (\<lambda>_.
                out_return (ERR_TRANS,
                  sl\<lparr>slot_icc := No_Card, slot_icc_type := CT_SLOT_NULL, slot_protocol_type := CT_SLOT_NULL\<rparr>))
            else
              out_return (OK, sl\<lparr>slot_icc := Async_Card (pps_icc pps), slot_icc_type := CT_SLOT_ICC_ASYNC,
                slot_protocol_type := uint (pps_t (PPS_GetProtocolParameters pps)), slot_protocol := handler_of (PPS_GetProtocol pps)\<rparr>)))"

definition probe_sync :: "'d host \<Rightarrow> CT_Slot \<Rightarrow> ICC_Sync \<Rightarrow> ('d, (ct_ret \<times> CT_Slot) outcome) io" where
  "probe_sync h sl icc =
     (let (ret, ps) = Protocol_Sync_Init icc
      in if ret \<noteq> PROTOCOL_SYNC_OK then
           out_bind (out_lift (with_sync icc (ICC_Sync_Close (host_os h)))) (\<lambda>_.
             out_return (ERR_TRANS, sl\<lparr>slot_icc := No_Card, slot_icc_type := CT_SLOT_NULL, slot_protocol := No_Handler,
               slot_protocol_type := CT_SLOT_NULL\<rparr>))
         else out_return (OK, sl\<lparr>slot_icc := Sync_Card icc, slot_icc_type := CT_SLOT_ICC_SYNC, slot_protocol := Sync_Handler ps,
           slot_protocol_type := CT_SLOT_PROTOCOL_SYNC\<rparr>))"

definition CT_Slot_Probe :: "'d host \<Rightarrow> CT_Slot \<Rightarrow> byte list option \<Rightarrow> nat \<Rightarrow> ('d, (ct_ret \<times> CT_Slot) outcome) io" where
  "CT_Slot_Probe h sl userdata len =
     (case slot_ifd sl of
        None \<Rightarrow> out_fault
      | Some ifd \<Rightarrow>
          out_bind (out_lift (with_sync ICC_Sync_New (ICC_Sync_Init (host_os h) (host_sync h) (host_status h) (host_orig h) ifd))) (\<lambda>(r, sync).
            if r = ICC_SYNC_OK then probe_sync h sl sync
            else out_bind (out_check (ICC_Async_Init (host_os h) (host_atr h) ICC_Async_New ifd)) (\<lambda>(ra, async).
              if ra \<noteq> ICC_ASYNC_OK then out_return (OK, sl\<lparr>slot_icc := No_Card, slot_icc_type := CT_SLOT_NULL\<rparr>)
              else probe_async h sl async userdata len)))"

text \<open>The end of the protocol and of the card, which \<open>CT_Slot_Release\<close> and \<open>CT_Slot_Close\<close> share.\<close>

definition slot_end_protocol :: "CT_Slot \<Rightarrow> ct_ret outcome" where
  "slot_end_protocol sl =
     (if slot_protocol_type sl = CT_SLOT_PROTOCOL_SYNC then
        (case slot_protocol sl of
           Sync_Handler ps \<Rightarrow> Returns (if fst (Protocol_Sync_Close ps) \<noteq> PROTOCOL_SYNC_OK then ERR_TRANS else OK)
         | _ \<Rightarrow> Faults)
      else if slot_protocol_type sl = CT_SLOT_PROTOCOL_T0 then
        (case slot_protocol sl of
           T0_Handler t0 \<Rightarrow> Returns (if fst (Protocol_T0_Close t0) \<noteq> PROTOCOL_T0_OK then ERR_TRANS else OK)
         | _ \<Rightarrow> Faults)
      else if slot_protocol_type sl = CT_SLOT_PROTOCOL_T1 then
        (case slot_protocol sl of
           T1_Handler t1 \<Rightarrow> Returns (if fst (Protocol_T1_Close t1) \<noteq> PROTOCOL_T1_OK then ERR_TRANS else OK)
         | _ \<Rightarrow> Faults)
      else Returns OK)"

definition slot_end_card :: "'d host \<Rightarrow> CT_Slot \<Rightarrow> ct_ret \<Rightarrow> ('d, ct_ret outcome) io" where
  "slot_end_card h sl ret =
     (if slot_icc_type sl = CT_SLOT_ICC_SYNC then
        (case slot_icc sl of
           Sync_Card icc \<Rightarrow> out_bind (out_lift (with_sync icc (ICC_Sync_Close (host_os h)))) (\<lambda>(r, _).
             out_return (if r \<noteq> ICC_SYNC_OK then ERR_TRANS else ret))
         | _ \<Rightarrow> out_fault)
      else if slot_icc_type sl = CT_SLOT_ICC_ASYNC then
        (case slot_icc sl of
           Async_Card icc \<Rightarrow> out_bind (out_lift (ICC_Async_Close (host_os h) icc)) (\<lambda>(r, _).
             out_return (if r \<noteq> ICC_ASYNC_OK then ERR_TRANS else ret))
         | _ \<Rightarrow> out_fault)
      else out_return ret)"

definition CT_Slot_Release :: "'d host \<Rightarrow> CT_Slot \<Rightarrow> ('d, (ct_ret \<times> CT_Slot) outcome) io" where
  "CT_Slot_Release h sl =
     out_bind (State_Monad.return (slot_end_protocol sl)) (\<lambda>ret.
     out_bind (slot_end_card h sl ret) (\<lambda>ret.
       out_return (ret, sl\<lparr>slot_protocol := No_Handler, slot_protocol_type := CT_SLOT_NULL, slot_icc := No_Card, slot_icc_type := CT_SLOT_NULL\<rparr>)))"

definition CT_Slot_Close :: "'d host \<Rightarrow> CT_Slot \<Rightarrow> ('d, (ct_ret \<times> CT_Slot) outcome) io" where
  "CT_Slot_Close h sl =
     out_bind (State_Monad.return (slot_end_protocol sl)) (\<lambda>ret.
     out_bind (slot_end_card h sl ret) (\<lambda>ret.
     out_bind (case slot_ifd sl of
         None \<Rightarrow> out_return ret
       | Some ifd \<Rightarrow> out_bind (out_lift (IFD_Towitoko_Close (host_os h) ifd)) (\<lambda>(r, _).
           out_return (if r \<noteq> IFD_TOWITOKO_OK then ERR_TRANS else ret))) (\<lambda>ret.
       out_return (ret, CT_Slot_Clear))))"

text \<open>\<open>rsp0\<close> is what \<open>*rsp\<close> holds before; a protocol may leave it.\<close>

fun t0_stored :: "APDU_Rsp option \<Rightarrow> t0_rsp \<Rightarrow> APDU_Rsp option" where
  "t0_stored rsp0 T0_Unset = rsp0"
| "t0_stored rsp0 T0_Null = None"
| "t0_stored rsp0 (T0_Rsp r) = Some r"

fun t1_stored :: "APDU_Rsp option \<Rightarrow> t1_rsp \<Rightarrow> APDU_Rsp option" where
  "t1_stored rsp0 T1_Unset = rsp0"
| "t1_stored rsp0 T1_Null = None"
| "t1_stored rsp0 (T1_Rsp r) = Some r"

definition CT_Slot_Command ::
    "'d host \<Rightarrow> CT_Slot \<Rightarrow> APDU_Cmd \<Rightarrow> APDU_Rsp option \<Rightarrow> ('d, (ct_ret \<times> APDU_Rsp option \<times> CT_Slot) outcome) io" where
  "CT_Slot_Command h sl cmd rsp0 =
     (if slot_protocol_type sl = CT_SLOT_PROTOCOL_SYNC then
        (case (slot_protocol sl, slot_icc sl) of
           (Sync_Handler ps, Sync_Card icc) \<Rightarrow>
             out_bind (State_Monad.bind (with_sync icc (Protocol_Sync_Command (host_os h) (host_sync h) (host_path h) (host_path_length h) ps cmd))
                 (\<lambda>(r, icc'). State_Monad.return (case r of Returns x \<Rightarrow> Returns (x, icc') | Faults \<Rightarrow> Faults | Runs_on \<Rightarrow> Runs_on)))
               (\<lambda>((r, rsp, ps'), icc').
                 out_return (if r \<noteq> PROTOCOL_SYNC_OK then ERR_TRANS else OK, rsp,
                   sl\<lparr>slot_protocol := Sync_Handler ps', slot_icc := Sync_Card icc'\<rparr>))
         | _ \<Rightarrow> out_fault)
      else if slot_protocol_type sl = CT_SLOT_PROTOCOL_T0 then
        (case slot_protocol sl of
           T0_Handler t0 \<Rightarrow>
             out_bind (Protocol_T0_Command (host_iso7816 h) (host_fuel h) (host_os h) (host_t0 h) t0 cmd) (\<lambda>(r, rsp).
               out_return (if r \<noteq> PROTOCOL_T0_OK then ERR_TRANS else OK, t0_stored rsp0 rsp, sl))
         | _ \<Rightarrow> out_fault)
      else if slot_protocol_type sl = CT_SLOT_PROTOCOL_T1 then
        (case slot_protocol sl of
           T1_Handler t1 \<Rightarrow>
             out_bind (Protocol_T1_Command (host_fuel h) (host_os h) (host_t1 h) t1 cmd) (\<lambda>(r, rsp, t1').
               out_return (if r \<noteq> PROTOCOL_T1_OK then ERR_TRANS else OK, t1_stored rsp0 rsp,
                 sl\<lparr>slot_protocol := T1_Handler t1', slot_icc := Async_Card (the (t1_icc t1'))\<rparr>))
         | _ \<Rightarrow> out_fault)
      else if slot_protocol_type sl = CT_SLOT_NULL then
        out_return (OK, APDU_Rsp_New [CTBCS_SW1_ICC_ERROR, CTBCS_SW2_ICC_ERROR] 2, sl)
      else out_return (ERR_HTSI, None, sl))"

definition CT_Slot_GetICCType :: "CT_Slot \<Rightarrow> int" where
  "CT_Slot_GetICCType sl = slot_icc_type sl"

definition CT_Slot_GetICC :: "CT_Slot \<Rightarrow> slot_card" where
  "CT_Slot_GetICC sl = slot_icc sl"

datatype slot_atr = No_Atr | Async_Atr ATR | Sync_Atr ATR_Sync

definition CT_Slot_GetAtr :: "CT_Slot \<Rightarrow> slot_atr outcome" where
  "CT_Slot_GetAtr sl =
     (if slot_icc_type sl = CT_SLOT_ICC_ASYNC then
        (case slot_icc sl of
           Async_Card icc \<Rightarrow> Returns (case ICC_Async_GetAtr icc of None \<Rightarrow> No_Atr | Some a \<Rightarrow> Async_Atr a)
         | _ \<Rightarrow> Faults)
      else if slot_icc_type sl = CT_SLOT_ICC_SYNC then
        (case slot_icc sl of
           Sync_Card icc \<Rightarrow> Returns (case ICC_Sync_GetAtr icc of None \<Rightarrow> No_Atr | Some a \<Rightarrow> Sync_Atr a)
         | _ \<Rightarrow> Faults)
      else Returns No_Atr)"

definition CT_Slot_IsLast :: "CT_Slot \<Rightarrow> bool outcome" where
  "CT_Slot_IsLast sl =
     (case slot_ifd sl of
        None \<Rightarrow> Faults
      | Some ifd \<Rightarrow> Returns (unat (IFD_Towitoko_GetSlot ifd) \<ge> IFD_Towitoko_GetNumSlots ifd - 1))"

definition CT_Slot_GetType :: "CT_Slot \<Rightarrow> nat \<Rightarrow> byte list outcome" where
  "CT_Slot_GetType sl len =
     (case slot_ifd sl of
        None \<Rightarrow> Faults
      | Some ifd \<Rightarrow> Returns (map of_char (IFD_Towitoko_GetDescription ifd len)))"

section \<open>The tags and the pointers agree\<close>

text \<open>
  The invariant of a slot.  Without a card neither type is set.  With one, both tags name the
  type of the object behind their pointer, the card belongs to the device of the slot and has
  an answer to reset, and the handler is ready for commands to that card.
\<close>

definition sync_ready :: "CT_Slot \<Rightarrow> bool" where
  "sync_ready sl \<longleftrightarrow> (case (slot_icc sl, slot_protocol sl) of
     (Sync_Card icc, Sync_Handler ps) \<Rightarrow>
        slot_ifd sl \<noteq> None \<and> sync_ifd icc = slot_ifd sl \<and> sync_atr icc \<noteq> None \<and> ps_inside icc ps \<and>
        slot_icc_type sl = CT_SLOT_ICC_SYNC \<and> slot_protocol_type sl = CT_SLOT_PROTOCOL_SYNC
   | _ \<Rightarrow> False)"

definition async_ready :: "CT_Slot \<Rightarrow> bool" where
  "async_ready sl \<longleftrightarrow> (case slot_icc sl of
     Async_Card icc \<Rightarrow>
        slot_ifd sl \<noteq> None \<and> icc_ifd icc = slot_ifd sl \<and> (\<exists>atr. icc_atr icc = Some atr \<and> atr_wf atr) \<and>
        slot_icc_type sl = CT_SLOT_ICC_ASYNC \<and>
        (case slot_protocol sl of
           T0_Handler t0 \<Rightarrow> slot_protocol_type sl = CT_SLOT_PROTOCOL_T0 \<and> t0_icc t0 = Some icc \<and> icc_equal_timeouts icc
         | T1_Handler t1 \<Rightarrow> slot_protocol_type sl = CT_SLOT_PROTOCOL_T1 \<and> t1_icc t1 = Some icc \<and> t1_ready t1
         | _ \<Rightarrow> False)
   | _ \<Rightarrow> False)"

definition slot_free :: "CT_Slot \<Rightarrow> bool" where
  "slot_free sl \<longleftrightarrow> slot_icc_type sl = CT_SLOT_NULL \<and> slot_protocol_type sl = CT_SLOT_NULL"

definition slot_ok :: "CT_Slot \<Rightarrow> bool" where
  "slot_ok sl \<longleftrightarrow> slot_free sl \<or> sync_ready sl \<or> async_ready sl"

text \<open>The arrays have the sizes the functions declare.\<close>

definition host_ok :: "'d host \<Rightarrow> bool" where
  "host_ok h \<longleftrightarrow> length (ib (host_atr h)) = ATR_MAX_PROTOCOLS \<and> length (host_t0 h) = 258 \<and> length (host_t1 h) = 259 \<and>
     length (host_pps h) = 6 \<and> length (host_probe h) = 6 \<and> length (host_path h) = 2 \<and> length (host_buffer h) = 35"

subsection \<open>A synchronous card after its initialisation\<close>

lemma run_with_sync [simp]:
  "run_state (with_sync icc m) p = (case run_state m (icc, p) of (a, (icc', p')) \<Rightarrow> ((a, icc'), p'))"
  by (simp add: with_sync_def)

lemma keeps_of_card: "(\<And>c. keeps (\<lambda>s. sync_card (fst s) = c) m) \<Longrightarrow> keeps (\<lambda>s. P (sync_ifd (fst s))) m"
  by (rule keepsI) (metis (mono_tags) keepsD prod.inject sync_card_def)

abbreviation has_ifd :: "IFD \<Rightarrow> 'd sync \<Rightarrow> bool" where
  "has_ifd ifd \<equiv> \<lambda>s. sync_ifd (fst s) = Some ifd"

lemma keeps_ifd_ops [vcg]:
  "keeps (has_ifd ifd) (on_ifd f)" "keeps (has_ifd ifd) (on_port m)" "keeps (has_ifd ifd) get_icc"
  "keeps (has_ifd ifd) (ICC_Sync_Read os stack address len)" "keeps (has_ifd ifd) (ICC_Sync_Write os stack address data)"
  by (rule keeps_of_card, intro vcg)+

lemma keeps_ifd_mod [vcg]: "(\<And>icc. sync_ifd (g icc) = sync_ifd icc) \<Longrightarrow> keeps (has_ifd ifd) (mod_icc g)"
  by (auto intro!: keepsI)

lemma keeps_ifd_length [vcg]: "keeps (has_ifd ifd) (probe_length os status0 len maxlen)"
proof (induction os status0 len maxlen rule: probe_length.induct)
  case (1 os status0 len maxlen)
  show ?case
    by (subst probe_length.simps) (intro vcg keeps_let; use 1 in simp)
qed

lemma keeps_ifd_probes [vcg]:
  "keeps (has_ifd ifd) (ICC_Sync_ProbeCardType os stack status0 orig0)"
  "keeps (has_ifd ifd) (ICC_Sync_ProbeMemoryLength os status0)" "keeps (has_ifd ifd) ICC_Sync_ProbePagemode"
  unfolding ICC_Sync_ProbeCardType_def ICC_Sync_ProbeMemoryLength_def ICC_Sync_ProbePagemode_def Let_def
  by (intro vcg keeps_let; simp)+

text \<open>The rest of the initialisation is reached only when the step before it succeeded.\<close>

lemma valid_sync_then:
  "keeps I m \<Longrightarrow> valid I k (\<lambda>r s. r = ICC_SYNC_OK \<longrightarrow> Q s) \<Longrightarrow> valid I (sync_then m k) (\<lambda>r s. r = ICC_SYNC_OK \<longrightarrow> Q s)"
  unfolding sync_then_def
  by (rule validI) (auto split: prod.splits if_splits dest: keepsD validD)

lemma valid_keeps_bind: "keeps I m \<Longrightarrow> (\<And>a. valid I (f a) Q) \<Longrightarrow> valid I (State_Monad.bind m f) Q"
  unfolding keeps_def by (rule valid_bind)

definition sync_started :: "IFD \<Rightarrow> 'd sync \<Rightarrow> bool" where
  "sync_started ifd s \<longleftrightarrow> has_ifd ifd s \<and> sync_atr (fst s) \<noteq> None"

lemma keeps_started [vcg]:
  "keeps (sync_started ifd) (on_port m)" "keeps (sync_started ifd) get_icc" "keeps (sync_started ifd) (sync_ifd_step n)"
  by (auto intro!: keepsI simp: sync_started_def sync_ifd_step_def split: prod.splits)

lemma run_sync_ifd_step:
  "run_state (sync_ifd_step n) (icc, p) =
     (case run_state n p of (r, p') \<Rightarrow> (if r \<noteq> IFD_TOWITOKO_OK then ICC_SYNC_IFD_ERROR else ICC_SYNC_OK, (icc, p')))"
  by (simp add: sync_ifd_step_def split: prod.split)

lemma ICC_Sync_Init_started:
  fixes p :: "'d port"
  assumes "run_state (ICC_Sync_Init os stack status0 orig0 ifd) (icc, p) = (ICC_SYNC_OK, s')"
  shows "sync_started ifd s'"
proof -
  let ?Q = "\<lambda>r (s :: 'd sync). r = ICC_SYNC_OK \<longrightarrow> sync_started ifd s"
  have fin: "valid (sync_started ifd) (State_Monad.return ICC_SYNC_OK) ?Q" by (rule valid_return) simp
  have last: "valid (sync_started ifd) (do { _ \<leftarrow> mod_icc (\<lambda>icc. icc\<lparr>sync_active := False\<rparr>); State_Monad.return ICC_SYNC_OK }) ?Q"
    by (rule validI) (auto simp: sync_started_def)
  have off: "valid (sync_started ifd) (sync_then (sync_ifd_step (IFD_Towitoko_SetLED os ifd IFD_TOWITOKO_LED_GREEN)) (do {
       icc \<leftarrow> get_icc;
       if ICC_SYNC_NEEDS_DEACTIVATE icc then
         sync_then (sync_ifd_step (IFD_Towitoko_DeactivateICC os ifd))
           (do { _ \<leftarrow> mod_icc (\<lambda>icc. icc\<lparr>sync_active := False\<rparr>); State_Monad.return ICC_SYNC_OK })
       else State_Monad.return ICC_SYNC_OK })) ?Q"
    by (rule valid_sync_then [OF keeps_started(3)], rule valid_keeps_bind [OF keeps_started(2)])
       (use fin valid_sync_then [OF keeps_started(3) last] in simp)
  note probes = valid_sync_then [OF keeps_ifd_probes(1)] valid_sync_then [OF keeps_ifd_probes(2)] valid_sync_then [OF keeps_ifd_probes(3)]
  have create: "valid (has_ifd ifd) (mod_icc (\<lambda>icc. icc\<lparr>sync_atr := Some (ICC_Sync_CreateAtr icc)\<rparr>)) (\<lambda>_. sync_started ifd)"
    by (rule validI) (auto simp: sync_started_def)
  have probe: "valid (has_ifd ifd) (sync_then (ICC_Sync_ProbeCardType os stack status0 orig0)
     (sync_then (ICC_Sync_ProbeMemoryLength os status0) (sync_then ICC_Sync_ProbePagemode (do {
       _ \<leftarrow> mod_icc (\<lambda>icc. icc\<lparr>sync_atr := Some (ICC_Sync_CreateAtr icc)\<rparr>);
       sync_then (sync_ifd_step (IFD_Towitoko_SetLED os ifd IFD_TOWITOKO_LED_GREEN)) (do {
         icc \<leftarrow> get_icc;
         if ICC_SYNC_NEEDS_DEACTIVATE icc then
           sync_then (sync_ifd_step (IFD_Towitoko_DeactivateICC os ifd))
             (do { _ \<leftarrow> mod_icc (\<lambda>icc. icc\<lparr>sync_active := False\<rparr>); State_Monad.return ICC_SYNC_OK })
         else State_Monad.return ICC_SYNC_OK }) })))) ?Q"
    by (intro probes valid_bind [OF create] off)
  show ?thesis
    using assms unfolding ICC_Sync_Init_def
    by (auto simp: run_sync_ifd_step split: prod.splits if_splits sum.splits dest!: validD [OF probe, rotated])
qed

subsection \<open>An asynchronous card after its initialisation\<close>

lemma out_of_Returns [simp]: "out_of r = Returns x \<longleftrightarrow> r = Some x"
  by (cases r) simp_all

lemma ICC_Async_Init_started:
  assumes "length (ib fresh) = ATR_MAX_PROTOCOLS"
    "run_state (ICC_Async_Init os fresh icc ifd) p = (Some (ICC_ASYNC_OK, icc'), p')"
  shows "icc_ifd icc' = Some ifd \<and> (\<exists>atr. icc_atr icc' = Some atr \<and> atr_wf atr)"
proof -
  have reset: "\<exists>x. a = Some x \<and> atr_wf x"
    if "run_state (IFD_Towitoko_ResetAsyncICC os ifd fresh atr) q = (Some (IFD_TOWITOKO_OK, a), q')" for a atr q q'
    using that unfolding IFD_Towitoko_ResetAsyncICC_def
    by (auto split: prod.splits if_splits option.splits bool.splits dest!: reset_pass_wf [OF assms(1)])
  show ?thesis
    using assms(2) unfolding ICC_Async_Init_def
    by (auto split: prod.splits if_splits option.splits sum.splits dest!: reset)
qed

lemma probe_async_ok:
  assumes "slot_free sl" "slot_ifd sl = Some ifd" "icc_ifd icc = Some ifd" "icc_atr icc = Some atr" "atr_wf atr"
    "run_state (probe_async h sl icc userdata len) p = (Returns (ret, sl'), p')"
  shows "slot_ok sl' \<and> slot_ifd sl' = slot_ifd sl \<and> (ret \<noteq> OK \<longrightarrow> slot_free sl')"
proof -
  obtain request where request: "probe_request userdata len = Some request"
    using assms(6) unfolding probe_async_def by (auto split: option.splits)
  obtain r pps params' len' p1 where run:
    "run_state (PPS_Perform (host_fl h) (host_fll h) (host_os h) (host_pps h) (PPS_New icc)
       (request @ drop (length request) (host_probe h)) (length request)) p = (Returns (r, pps, params', len'), p1)"
    and slot: "if r \<noteq> PPS_OK then ret = ERR_TRANS \<and>
        sl' = sl\<lparr>slot_icc := No_Card, slot_icc_type := CT_SLOT_NULL, slot_protocol_type := CT_SLOT_NULL\<rparr>
      else sl' = sl\<lparr>slot_icc := Async_Card (pps_icc pps), slot_icc_type := CT_SLOT_ICC_ASYNC,
        slot_protocol_type := uint (pps_t (PPS_GetProtocolParameters pps)), slot_protocol := handler_of (PPS_GetProtocol pps)\<rparr> \<and> ret = OK"
    using assms(6) unfolding probe_async_def request option.case
    by (auto split: prod.splits outcome.splits if_splits)
  show ?thesis
  proof (cases "r = PPS_OK")
    case True
    have "handler_ready pps" using Perform_ready [OF run refl] True by auto
    moreover have "icc_ifd (pps_icc pps) = Some ifd" "icc_atr (pps_icc pps) = Some atr"
      using Perform_same_card [OF run] assms(3,4) by (simp_all add: same_card_def PPS_New_def)
    ultimately have "async_ready sl'"
      using slot True assms(2,5)
      by (auto simp: async_ready_def handler_ready_def PPS_GetProtocol_def PPS_GetProtocolParameters_def
          ct_slot_types ATR_PROTOCOL_TYPE_T0_def ATR_PROTOCOL_TYPE_T1_def split: protocol.splits)
    then show ?thesis using slot True by (simp add: slot_ok_def)
  next
    case False
    then show ?thesis using slot by (simp add: slot_ok_def slot_free_def)
  qed
qed

lemma CT_Slot_Probe_ok:
  assumes "host_ok h" "slot_free sl" "run_state (CT_Slot_Probe h sl userdata len) p = (Returns (ret, sl'), p')"
  shows "slot_ok sl' \<and> slot_ifd sl' = slot_ifd sl \<and> (ret \<noteq> OK \<longrightarrow> slot_free sl')"
proof -
  obtain ifd where ifd: "slot_ifd sl = Some ifd" using assms(3) by (cases "slot_ifd sl") (auto simp: CT_Slot_Probe_def)
  obtain r icc p1 where init: "run_state (ICC_Sync_Init (host_os h) (host_sync h) (host_status h) (host_orig h) ifd) (ICC_Sync_New, p) = (r, (icc, p1))"
    by (metis surj_pair)
  show ?thesis
  proof (cases "r = ICC_SYNC_OK")
    case True
    then have "sync_started ifd (icc, p1)" using ICC_Sync_Init_started init by blast
    then show ?thesis
      using assms(3) ifd init True
      by (auto simp: CT_Slot_Probe_def probe_sync_def Protocol_Sync_Init_def slot_ok_def sync_ready_def sync_started_def ps_inside_def)
  next
    case False
    obtain ra async p2 where a: "run_state (ICC_Async_Init (host_os h) (host_atr h) ICC_Async_New ifd) p1 = (Some (ra, async), p2)"
      "run_state (if ra \<noteq> ICC_ASYNC_OK then out_return (OK, sl\<lparr>slot_icc := No_Card, slot_icc_type := CT_SLOT_NULL\<rparr>)
              else probe_async h sl async userdata len) p2 = (Returns (ret, sl'), p')"
      using assms(3) ifd init False by (auto simp: CT_Slot_Probe_def split: prod.splits option.splits outcome.splits)
    show ?thesis
    proof (cases "ra = ICC_ASYNC_OK")
      case True
      then obtain atr where "icc_ifd async = Some ifd" "icc_atr async = Some atr" "atr_wf atr"
        using ICC_Async_Init_started [of "host_atr h" "host_os h" ICC_Async_New ifd p1 async p2] a(1) assms(1) by (auto simp: host_ok_def)
      then show ?thesis using probe_async_ok [OF assms(2) ifd] a(2) True by simp
    qed (use a(2) assms(2) in \<open>auto simp: slot_ok_def slot_free_def\<close>)
  qed
qed

section \<open>Releasing and closing\<close>

lemma slot_end_protocol_ok [simp]: "slot_ok sl \<Longrightarrow> slot_end_protocol sl = Returns OK"
  by (auto simp: slot_ok_def slot_free_def sync_ready_def async_ready_def slot_end_protocol_def ct_slot_types Protocol_Sync_Close_def
      Protocol_T0_Close_def Protocol_T1_Close_def split: slot_card.splits slot_handler.splits)

lemma returns_end_card: "slot_ok sl \<Longrightarrow> returns P (slot_end_card h sl ret) (\<lambda>_ _. True)"
  by (auto simp: slot_ok_def slot_free_def sync_ready_def async_ready_def slot_end_card_def ct_slot_types returns_unless_def valid_def
      split: slot_card.splits slot_handler.splits prod.splits)

definition slot_released :: "CT_Slot \<Rightarrow> CT_Slot" where
  "slot_released sl = sl\<lparr>slot_protocol := No_Handler, slot_protocol_type := CT_SLOT_NULL, slot_icc := No_Card, slot_icc_type := CT_SLOT_NULL\<rparr>"

lemma slot_released_free [simp]: "slot_free (slot_released sl)" "slot_ifd (slot_released sl) = slot_ifd sl"
  and slot_Clear_free [simp]: "slot_free CT_Slot_Clear"
  by (simp_all add: slot_free_def slot_released_def CT_Slot_Clear_def)

lemma slot_free_ok [simp, intro]: "slot_free sl \<Longrightarrow> slot_ok sl"
  by (simp add: slot_ok_def)

lemma slot_ok_null: "slot_ok sl \<Longrightarrow> CT_Slot_GetICCType sl = CT_SLOT_NULL \<Longrightarrow> slot_free sl"
  by (auto simp: slot_ok_def sync_ready_def async_ready_def CT_Slot_GetICCType_def ct_slot_types split: slot_card.splits slot_handler.splits)

lemma returns_after: "returns P m (\<lambda>_ _. True) \<Longrightarrow> (\<And>a. returns (\<lambda>_. True) (f a) Q) \<Longrightarrow> returns P (out_bind m f) Q"
  by (erule returns_bind)

lemma CT_Slot_Release_ok: "slot_ok sl \<Longrightarrow> returns P (CT_Slot_Release h sl) (\<lambda>(ret, sl') _. sl' = slot_released sl)"
  unfolding CT_Slot_Release_def
  by (intro returns_after returns_end_card returns_return) (auto simp: returns_unless_def valid_def slot_released_def)

lemma CT_Slot_Close_ok: "slot_ok sl \<Longrightarrow> returns P (CT_Slot_Close h sl) (\<lambda>(ret, sl') _. sl' = CT_Slot_Clear)"
  unfolding CT_Slot_Close_def
  by (intro returns_after returns_end_card returns_return)
     (auto simp: returns_unless_def valid_def split: option.splits prod.splits)

section \<open>Commands\<close>

text \<open>A command that asks for data, to a T=0 card with \<open>PROTOCOL_T0_ISO\<close>.\<close>

definition t0_iso_read :: "'d host \<Rightarrow> CT_Slot \<Rightarrow> APDU_Cmd \<Rightarrow> bool" where
  "t0_iso_read h sl cmd \<longleftrightarrow> slot_protocol_type sl = CT_SLOT_PROTOCOL_T0 \<and> host_iso7816 h \<and>
     APDU_Cmd_Case cmd \<notin> {APDU_CASE_1, APDU_CASE_2S, APDU_CASE_2E, APDU_MALFORMED}"

text \<open>
  Where a command may stop the program: at a memory card, when the command does not bring the
  data its function reads or the uninitialised \<open>path_length\<close> overflows; at a T=0 card
  with \<open>PROTOCOL_T0_ISO\<close>, when it asks for data; at a T=1 card that asks for more time
  without saying how much.
\<close>

definition command_fault :: "'d host \<Rightarrow> CT_Slot \<Rightarrow> APDU_Cmd \<Rightarrow> 'd port \<Rightarrow> bool" where
  "command_fault h sl cmd p \<longleftrightarrow>
     (slot_protocol_type sl = CT_SLOT_PROTOCOL_SYNC \<and>
        (\<not> cmd_complete cmd \<or>
         (\<exists>icc atr. slot_icc sl = Sync_Card icc \<and> sync_atr icc = Some atr \<and> path_overflow atr (host_path_length h) cmd))) \<or>
     t0_iso_read h sl cmd \<or>
     (slot_protocol_type sl = CT_SLOT_PROTOCOL_T1 \<and> empty_wtx (host_os h) (host_t1 h) p)"

definition command_good :: "'d host \<Rightarrow> CT_Slot \<Rightarrow> APDU_Cmd \<Rightarrow> ct_ret \<times> APDU_Rsp option \<times> CT_Slot \<Rightarrow> bool" where
  "command_good h sl cmd = (\<lambda>(ret, rsp, sl'). slot_ok sl' \<and> slot_ifd sl' = slot_ifd sl \<and>
     slot_icc_type sl' = slot_icc_type sl \<and> slot_protocol_type sl' = slot_protocol_type sl \<and>
     (\<not> t0_iso_read h sl cmd \<longrightarrow> (\<forall>r. rsp = Some r \<longrightarrow> apdu_rsp_wf r) \<and>
       (ret = OK \<and> slot_protocol_type sl \<noteq> CT_SLOT_PROTOCOL_T1 \<longrightarrow> rsp \<noteq> None)))"

lemma command_sync:
  assumes "host_ok h" "sync_ready sl" "apdu_cmd_wf cmd"
  shows "gives_or (command_fault h sl cmd) (CT_Slot_Command h sl cmd None) (command_good h sl cmd)"
proof -
  obtain icc ps atr where sl: "slot_icc sl = Sync_Card icc" "slot_protocol sl = Sync_Handler ps" "sync_atr icc = Some atr" "ps_inside icc ps"
    "slot_icc_type sl = CT_SLOT_ICC_SYNC" "slot_protocol_type sl = CT_SLOT_PROTOCOL_SYNC" "sync_ifd icc = slot_ifd sl" "slot_ifd sl \<noteq> None"
    using assms(2) by (auto simp: sync_ready_def split: slot_card.splits slot_handler.splits)
  let ?F = "\<not> cmd_complete cmd \<or> path_overflow atr (host_path_length h) cmd"
  have good: "returns_unless ?F (card_is (sync_card icc)) (Protocol_Sync_Command (host_os h) (host_sync h) (host_path h) (host_path_length h) ps cmd)
      (sync_good (sync_card icc))"
    by (rule Command_good) (use assms sl in \<open>auto simp: host_ok_def ps_inside_def ICC_Sync_GetLength_def\<close>)
  show ?thesis
    unfolding yields_or_def
  proof (rule validI, goal_cases)
    case (1 p r p')
    obtain rs icc' p2 where run: "run_state (Protocol_Sync_Command (host_os h) (host_sync h) (host_path h) (host_path_length h) ps cmd) (icc, p) =
        (rs, (icc', p2))" by (metis surj_pair)
    consider ret rsp ps' where "rs = Returns (ret, rsp, ps')" "sync_good (sync_card icc) (ret, rsp, ps') (icc', p2)" | "rs = Faults" ?F
      using returns_unlessD [OF good _ run] by auto
    then show ?case
    proof cases
      case 2
      then show ?thesis
        using 1(2) run sl by (auto simp: CT_Slot_Command_def command_fault_def)
    next
      case (1 ret rsp ps')
      then have "ps_inside icc' ps'" "sync_card icc' = sync_card icc" "\<exists>a. rsp = Some a \<and> apdu_rsp_wf a"
        by (auto simp: sync_good_def ps_inside_def ICC_Sync_GetLength_def card_length_def sync_card_def)
      then show ?thesis
        using \<open>run_state (CT_Slot_Command h sl cmd None) p = (r, p')\<close> run 1(1) sl
        by (auto simp: CT_Slot_Command_def command_good_def slot_ok_def sync_ready_def sync_card_def)
    qed
  qed
qed

lemma gives_or_any: "(\<And>s. R s) \<Longrightarrow> gives_or R m (\<lambda>_. True)"
  by (simp add: yields_or_def valid_def)

lemma command_async:
  assumes "host_ok h" "async_ready sl" "apdu_cmd_wf cmd"
  shows "gives_or (command_fault h sl cmd) (CT_Slot_Command h sl cmd None) (command_good h sl cmd)" (is "gives_or ?R _ _")
proof -
  obtain icc where icc: "slot_icc sl = Async_Card icc" using assms(2) by (auto simp: async_ready_def split: slot_card.splits)
  consider t0 where "slot_protocol sl = T0_Handler t0" "slot_protocol_type sl = CT_SLOT_PROTOCOL_T0" "t0_ready t0 (host_t0 h)"
    | t1 where "slot_protocol sl = T1_Handler t1" "slot_protocol_type sl = CT_SLOT_PROTOCOL_T1" "t1_icc t1 = Some icc" "t1_ready t1"
    using assms(1,2) icc by (auto simp: async_ready_def host_ok_def t0_ready_def t0_sizes split: slot_handler.splits)
  then show ?thesis
  proof cases
    case 1
    let ?m = "Protocol_T0_Command (host_iso7816 h) (host_fuel h) (host_os h) (host_t0 h) t0 cmd"
    have m: "gives_or ?R ?m (\<lambda>x. \<not> t0_iso_read h sl cmd \<longrightarrow> t0_good APDU_MAX_RSP_SIZE x)"
    proof (cases "t0_iso_read h sl cmd")
      case True
      then show ?thesis using gives_or_any [of ?R ?m] by (simp add: command_fault_def)
    next
      case False
      then have "gives ?m (t0_good APDU_MAX_RSP_SIZE)"
        using assms(3) 1 by (intro gives_Command_plain) (auto simp: t0_iso_read_def)
      then show ?thesis using False by (auto intro: yields_yields_or)
    qed
    have "command_good h sl cmd (if r \<noteq> PROTOCOL_T0_OK then ERR_TRANS else OK, t0_stored None rsp, sl)"
      if "\<not> t0_iso_read h sl cmd \<longrightarrow> t0_good APDU_MAX_RSP_SIZE (r, rsp)" for r rsp
      using that assms(2) by (cases rsp) (auto simp: t0_good_def command_good_def slot_ok_def)
    then show ?thesis
      using 1 by (auto simp: CT_Slot_Command_def ct_slot_types intro!: yields_or_bind [OF m] yields_or_return split: prod.splits)
  next
    case 2
    have R: "?R p = empty_wtx (host_os h) (host_t1 h) p" for p using 2 by (simp add: command_fault_def t0_iso_read_def ct_slot_types)
    have t1: "gives_or ?R (Protocol_T1_Command (host_fuel h) (host_os h) (host_t1 h) t1 cmd) (\<lambda>(ret, rsp, t1'). t1_same t1 t1' \<and>
        (if ret = PROTOCOL_T1_OK then rsp = T1_Null \<or> (\<exists>a. rsp = T1_Rsp a \<and> apdu_rsp_wf a) else rsp = T1_Unset))"
      unfolding R [abs_def] using assms(1,3) 2 by (intro gives_T1_Command) (auto simp: host_ok_def)
    have "async_ready (sl\<lparr>slot_protocol := T1_Handler t1', slot_icc := Async_Card (the (t1_icc t1'))\<rparr>)" if "t1_same t1 t1'" for t1'
    proof -
      have "t1_icc t1' = Some icc" using that 2(3) by (metis Protocol_T1.select_convs(1) Protocol_T1.surjective Protocol_T1.update_convs(8) t1_same_def)
      then show ?thesis using assms(2) icc 2 t1_same_ready [OF that 2(4)] by (auto simp: async_ready_def)
    qed
    then show ?thesis
      unfolding CT_Slot_Command_def using 2
      by (auto simp: ct_slot_types command_good_def slot_ok_def intro!: yields_or_bind [OF t1] yields_or_return split: prod.splits if_splits)
  qed
qed

lemma command_free: "slot_free sl \<Longrightarrow> gives_or R (CT_Slot_Command h sl cmd None) (command_good h sl cmd)"
  by (auto simp: CT_Slot_Command_def slot_free_def ct_slot_types command_good_def slot_ok_def APDU_Rsp_New_def apdu_sizes apdu_rsp_wf_def
      intro!: yields_or_return)

lemma gives_CT_Slot_Command:
  "host_ok h \<Longrightarrow> slot_ok sl \<Longrightarrow> apdu_cmd_wf cmd \<Longrightarrow>
   gives_or (command_fault h sl cmd) (CT_Slot_Command h sl cmd None) (command_good h sl cmd)"
  unfolding slot_ok_def by (elim disjE command_free) (rule command_sync command_async; assumption)+

text \<open>A host with the scripted line, and a slot with a memory card.\<close>

definition sample_host :: "script host" where
  "sample_host =
     \<lparr>host_os = script_os, host_fl = id, host_fll = id, host_iso7816 = False, host_win32_com = False, host_fuel = 9, host_atr = blank_ATR,
      host_t0 = replicate 258 0, host_t1 = replicate 259 0, host_pps = replicate 6 0, host_probe = replicate 6 0,
      host_sync = replicate 17 0, host_status = 0, host_orig = 0, host_path = [0, 0], host_path_length = 0,
      host_buffer = replicate 35 0, host_length = 0\<rparr>"

definition sample_slot :: CT_Slot where
  "sample_slot =
     \<lparr>slot_ifd = Some IFD_Towitoko_Clear, slot_icc = Sync_Card sample_icc, slot_protocol = Sync_Handler (snd (Protocol_Sync_Init sample_icc)),
      slot_icc_type = CT_SLOT_ICC_SYNC, slot_protocol_type = CT_SLOT_PROTOCOL_SYNC\<rparr>"

lemma sample_host_ok: "host_ok sample_host"
  by (simp add: host_ok_def sample_host_def blank_ATR_def ATR_MAX_PROTOCOLS_def)

lemma sample_slot_ok: "slot_ok sample_slot"
  by (simp add: slot_ok_def sync_ready_def sample_slot_def sample_icc_def Protocol_Sync_Init_def ps_inside_def ICC_Sync_GetLength_def)

text \<open>
  (C18) Commands to the card in a slot, whatever the card and the line do and whatever the
  uninitialised locals hold.  In a slot whose tags agree with its pointers a command makes
  the driver fault only in three places: at a memory card, when it lacks the data its
  function reads or when it selects an application on a card with a directory while the
  uninitialised \<open>path_length\<close> is greater than 2; at a T=0 card with
  \<open>PROTOCOL_T0_ISO\<close>, when it asks for data; at a T=1 card that asks for more time
  without multiplier.  When it returns, the tags and pointers agree for the same kind of card
  and protocol and, except for the data asked from a T=0 card with \<open>PROTOCOL_T0_ISO\<close>,
  every response is well formed and \<open>OK\<close> comes with a response, except from a T=1 card.
\<close>

theorem CT_Slot_Command_safe:
  assumes "host_ok h" "slot_ok sl" "apdu_cmd_wf cmd" "run_state (CT_Slot_Command h sl cmd None) p = (r, p')"
  shows "(r = Faults \<longrightarrow> command_fault h sl cmd p') \<and>
    (\<forall>ret rsp sl'. r = Returns (ret, rsp, sl') \<longrightarrow>
       slot_ok sl' \<and> slot_icc_type sl' = slot_icc_type sl \<and> slot_protocol_type sl' = slot_protocol_type sl \<and>
       (\<not> t0_iso_read h sl cmd \<longrightarrow> (\<forall>a. rsp = Some a \<longrightarrow> apdu_rsp_wf a) \<and>
         (ret = OK \<and> slot_protocol_type sl \<noteq> CT_SLOT_PROTOCOL_T1 \<longrightarrow> rsp \<noteq> None)))"
proof -
  have "(r = Faults \<longrightarrow> command_fault h sl cmd p') \<and> (\<forall>x. r = Returns x \<longrightarrow> command_good h sl cmd x)"
    using yields_orD [OF gives_CT_Slot_Command [OF assms(1-3)] TrueI assms(4)] .
  then have fault: "r = Faults \<Longrightarrow> command_fault h sl cmd p'" and good: "\<And>x. r = Returns x \<Longrightarrow> command_good h sl cmd x" by blast+
  show ?thesis
  proof (intro conjI allI impI)
    fix ret rsp sl'
    assume "r = Returns (ret, rsp, sl')"
    from good [OF this] show "slot_ok sl'" "slot_icc_type sl' = slot_icc_type sl" "slot_protocol_type sl' = slot_protocol_type sl"
      "\<not> t0_iso_read h sl cmd \<Longrightarrow> rsp = Some a \<Longrightarrow> apdu_rsp_wf a"
      "\<not> t0_iso_read h sl cmd \<Longrightarrow> ret = OK \<and> slot_protocol_type sl \<noteq> CT_SLOT_PROTOCOL_T1 \<Longrightarrow> rsp \<noteq> None" for a
      by (simp_all add: command_good_def)
  qed (rule fault)
qed

text \<open>The file of a memory card is selected, with 77 in the uninitialised \<open>path_length\<close>.\<close>

lemma sample_select_wf: "apdu_cmd_wf sample_select_mf" "cmd_complete sample_select_mf" "\<not> path_overflow atr n sample_select_mf"
  by (simp_all add: cmd_complete_def sample_select_mf_def apdu_cmd_wf_def apdu_sizes cmd_bytes_def APDU_Cmd_Data_def APDU_Cmd_Case_def
      bytes_at_def APDU_Cmd_Ins_def APDU_Cmd_P1_def path_overflow_def)

lemma CT_Slot_Command_safe_witness:
  "fst (run_state (CT_Slot_Command (sample_host\<lparr>host_path_length := 77\<rparr>) sample_slot sample_select_mf None)
     (script_port [] (Some default_properties))) \<noteq> Faults"
proof -
  have "host_ok (sample_host\<lparr>host_path_length := 77\<rparr>)" using sample_host_ok by (simp add: host_ok_def)
  moreover have "\<not> command_fault (sample_host\<lparr>host_path_length := 77\<rparr>) sample_slot sample_select_mf q" for q
    using sample_select_wf(2,3) by (simp add: command_fault_def t0_iso_read_def sample_slot_def ct_slot_types)
  ultimately show ?thesis
    using CT_Slot_Command_safe [OF _ sample_slot_ok sample_select_wf(1) prod.collapse [symmetric],
      of "sample_host\<lparr>host_path_length := 77\<rparr>" "script_port [] (Some default_properties)", THEN conjunct1] by auto
qed

text \<open>
  (C19) The life of a card in a slot.  Probing an empty slot, when the driver returns from
  it, leaves the slot empty or with a card and a protocol of which the tags tell the truth,
  empty whenever it does not return \<open>OK\<close>; releasing and closing a slot always return,
  and leave it empty.
\<close>

theorem CT_Slot_typed:
  assumes "host_ok h"
  shows "(slot_free sl \<and> run_state (CT_Slot_Probe h sl userdata len) p = (Returns (ret, sl'), p') \<longrightarrow>
      slot_ok sl' \<and> slot_ifd sl' = slot_ifd sl \<and> (ret \<noteq> OK \<longrightarrow> slot_free sl')) \<and>
    (slot_ok sl \<longrightarrow> (\<exists>ret1 sl1 p1. run_state (CT_Slot_Release h sl) p = (Returns (ret1, sl1), p1) \<and> slot_free sl1 \<and> slot_ifd sl1 = slot_ifd sl)) \<and>
    (slot_ok sl \<longrightarrow> (\<exists>ret2 p2. run_state (CT_Slot_Close h sl) p = (Returns (ret2, CT_Slot_Clear), p2)))"
  using CT_Slot_Probe_ok [OF assms] returnsD [OF CT_Slot_Release_ok, of sl "\<lambda>_. True" p h]
    returnsD [OF CT_Slot_Close_ok, of sl "\<lambda>_. True" p h] slot_released_free [of sl]
  by (auto split: prod.splits)

lemma CT_Slot_typed_witness:
  "\<exists>ret sl p. run_state (CT_Slot_Release sample_host sample_slot) (script_port [] (Some default_properties)) = (Returns (ret, sl), p) \<and> slot_free sl"
  using CT_Slot_typed [OF sample_host_ok, of sample_slot None 0 "script_port [] (Some default_properties)"] sample_slot_ok by blast

section \<open>Detection of a card\<close>

text \<open>
  What asking the device once a second yields: the reference for the loop of
  \<open>CT_Slot_Check\<close>, as a step relation.
\<close>

inductive polls :: "'d os \<Rightarrow> IFD \<Rightarrow> 'd port \<Rightarrow> byte list \<Rightarrow> 'd port \<Rightarrow> bool" for os :: "'d os" and ifd :: IFD where
  polls_Nil: "polls os ifd p [] p"
| polls_Cons: "run_state (syscall (os_nanosleep os 1000)) p = ((), p1) \<Longrightarrow> run_state (IFD_Towitoko_GetStatus os ifd) p1 = (Inr s, p2) \<Longrightarrow>
    polls os ifd p2 sts p' \<Longrightarrow> polls os ifd p (s # sts) p'"

inductive_simps polls_simps: "polls os ifd p [] p'" "polls os ifd p (s # sts) p'"

definition poll_result :: "byte list \<Rightarrow> nat \<Rightarrow> bool \<times> bool \<Rightarrow> bool" where
  "poll_result sts timeout = (\<lambda>(present, change).
     length sts \<le> timeout + 1 \<and> present = IFD_TOWITOKO_CARD (last sts) \<and> change = (\<exists>s \<in> set sts. IFD_TOWITOKO_CHANGE s) \<and>
     (\<forall>s \<in> set (butlast sts). \<not> IFD_TOWITOKO_CARD s) \<and> (present \<or> length sts = timeout + 1))"

lemma slot_poll_polls:
  assumes "run_state (slot_poll os ifd timeout status change) p = (Inr (present, ch), p')"
  shows "\<exists>sts. polls os ifd p sts p' \<and> ch = (change \<or> (\<exists>s \<in> set sts. IFD_TOWITOKO_CHANGE s)) \<and> length sts \<le> timeout \<and>
    present = IFD_TOWITOKO_CARD (last (status # sts)) \<and> (\<forall>s \<in> set (butlast (status # sts)). \<not> IFD_TOWITOKO_CARD s) \<and>
    (present \<or> length sts = timeout)"
  using assms
proof (induction timeout arbitrary: status change p)
  case 0
  then show ?case by (auto intro!: exI [of _ "[]"] polls_Nil)
next
  case (Suc timeout)
  show ?case
  proof (cases "IFD_TOWITOKO_CARD status")
    case True
    then show ?thesis using Suc.prems by (auto intro!: exI [of _ "[]"] polls_Nil)
  next
    case False
    then obtain p1 s p2 where 1: "run_state (syscall (os_nanosleep os 1000)) p = ((), p1)" "run_state (IFD_Towitoko_GetStatus os ifd) p1 = (Inr s, p2)"
      "run_state (slot_poll os ifd timeout s (change \<or> IFD_TOWITOKO_CHANGE s)) p2 = (Inr (present, ch), p')"
      using Suc.prems by (auto split: prod.splits sum.splits)
    from Suc.IH [OF 1(3)] obtain sts where "polls os ifd p2 sts p'" "ch = ((change \<or> IFD_TOWITOKO_CHANGE s) \<or> (\<exists>s \<in> set sts. IFD_TOWITOKO_CHANGE s))"
      "length sts \<le> timeout" "present = IFD_TOWITOKO_CARD (last (s # sts))" "\<forall>s \<in> set (butlast (s # sts)). \<not> IFD_TOWITOKO_CARD s"
      "present \<or> length sts = timeout"
      by blast
    then show ?thesis using False polls_Cons [OF 1(1,2)] by (intro exI [of _ "s # sts"]) auto
  qed
qed

text \<open>
  (C30) The check for a card always returns, after at most one status request more than the
  seconds it was given.  A card is reported exactly when the last status shows one, no
  earlier status did, and without a card the whole time was waited; a change is reported
  exactly when one of the statuses shows it.
\<close>

theorem CT_Slot_Check_polls:
  assumes "slot_ifd sl = Some ifd" "run_state (CT_Slot_Check h sl timeout) p = (r, p')"
  shows "\<exists>x. r = Returns x \<and> (case x of
      Inl e \<Rightarrow> e = ERR_TRANS
    | Inr res \<Rightarrow> \<exists>s p1 sts. run_state (IFD_Towitoko_GetStatus (host_os h) ifd) p = (Inr s, p1) \<and> polls (host_os h) ifd p1 sts p' \<and>
        poll_result (s # sts) timeout res)"
proof -
  have err: "run_state (slot_poll os i n st ch) q = (Inl e, q') \<Longrightarrow> e = ERR_TRANS" for os :: "'a os" and i n st ch q q' e
    by (induction n arbitrary: st ch q) (auto split: if_splits prod.splits sum.splits)
  show ?thesis
  proof (cases "fst (run_state (IFD_Towitoko_GetStatus (host_os h) ifd) p)")
    case (Inl e)
    then show ?thesis using assms by (auto simp: CT_Slot_Check_def split: prod.splits)
  next
    case (Inr s)
    then obtain p1 where p1: "run_state (IFD_Towitoko_GetStatus (host_os h) ifd) p = (Inr s, p1)" by (metis prod.collapse)
    obtain x where x: "r = Returns x" "run_state (slot_poll (host_os h) ifd timeout s (IFD_TOWITOKO_CHANGE s)) p1 = (x, p')"
      using assms p1 by (auto simp: CT_Slot_Check_def split: prod.splits)
    show ?thesis
    proof (cases x)
      case (Inr res)
      obtain present ch where res: "res = (present, ch)" by force
      from slot_poll_polls [OF x(2) [unfolded Inr res]] obtain sts where sts: "polls (host_os h) ifd p1 sts p'"
        "ch = (IFD_TOWITOKO_CHANGE s \<or> (\<exists>s \<in> set sts. IFD_TOWITOKO_CHANGE s))" "length sts \<le> timeout"
        "present = IFD_TOWITOKO_CARD (last (s # sts))" "\<forall>s \<in> set (butlast (s # sts)). \<not> IFD_TOWITOKO_CARD s" "present \<or> length sts = timeout"
        by blast
      then have "poll_result (s # sts) timeout res" unfolding poll_result_def res prod.case by simp
      then show ?thesis using x(1) Inr p1 sts(1) by auto
    qed (use x err in auto)
  qed
qed

lemma slot_poll_card: "IFD_TOWITOKO_CARD status \<Longrightarrow> slot_poll os ifd n status change = State_Monad.return (Inr (True, change))"
  by (cases n) simp_all

lemma CT_Slot_Check_polls_witness:
  "\<exists>s sts p'. run_state (CT_Slot_Check sample_host sample_slot 5) (script_port [[0x40, 0x00]] (Some default_properties)) =
      (Returns (Inr (True, False)), p') \<and> poll_result (s # sts) 5 (True, False)"
proof -
  have "\<exists>p'. run_state (CT_Slot_Check sample_host sample_slot 5) (script_port [[0x40, 0x00]] (Some default_properties)) =
      (Returns (Inr (True, False)), p')"
    by (simp add: CT_Slot_Check_def sample_host_def sample_slot_def IFD_Towitoko_GetStatus_def ifd_eval script_port_def IFD_Towitoko_Clear_def
        slot_poll_card IFD_TOWITOKO_CARD_def IFD_TOWITOKO_CHANGE_def)
  then obtain p' where r: "run_state (CT_Slot_Check sample_host sample_slot 5) (script_port [[0x40, 0x00]] (Some default_properties)) =
      (Returns (Inr (True, False)), p')" by blast
  have "slot_ifd sample_slot = Some IFD_Towitoko_Clear" by (simp add: sample_slot_def)
  from CT_Slot_Check_polls [OF this r] r show ?thesis by auto
qed

end
