(* ===== verification/CardTerminal.thy ===== *)
theory CardTerminal
  imports CtSlot
begin

text \<open>
  Card terminals, \<^verbatim>\<open>src/src/ct-api/cardterminal.c\<close>, with the constants of
  \<^verbatim>\<open>ctbcs.h\<close>: a reader with one or two slots behind one serial port, and the CT-BCS
  commands to the reader.  The port of a terminal is the port of the state.
\<close>

section \<open>Constants\<close>

definition CTBCS_CLA :: byte where "CTBCS_CLA = 0x20"
definition CTBCS_INS_RESET :: byte where "CTBCS_INS_RESET = 0x11"
definition CTBCS_INS_REQUEST :: byte where "CTBCS_INS_REQUEST = 0x12"
definition CTBCS_INS_STATUS :: byte where "CTBCS_INS_STATUS = 0x13"
definition CTBCS_INS_EJECT :: byte where "CTBCS_INS_EJECT = 0x15"
definition CTBCS_P1_CT_KERNEL :: byte where "CTBCS_P1_CT_KERNEL = 0x00"
definition CTBCS_P1_INTERFACE1 :: byte where "CTBCS_P1_INTERFACE1 = 0x01"
definition CTBCS_P1_INTERFACE2 :: byte where "CTBCS_P1_INTERFACE2 = 0x02"
definition CTBCS_P2_RESET_NO_RESP :: byte where "CTBCS_P2_RESET_NO_RESP = 0x00"
definition CTBCS_P2_RESET_GET_ATR :: byte where "CTBCS_P2_RESET_GET_ATR = 0x01"
definition CTBCS_P2_RESET_GET_HIST :: byte where "CTBCS_P2_RESET_GET_HIST = 0x02"
definition CTBCS_P2_REQUEST_NO_RESP :: byte where "CTBCS_P2_REQUEST_NO_RESP = 0x00"
definition CTBCS_P2_REQUEST_GET_ATR :: byte where "CTBCS_P2_REQUEST_GET_ATR = 0x01"
definition CTBCS_P2_REQUEST_GET_HIST :: byte where "CTBCS_P2_REQUEST_GET_HIST = 0x02"
definition CTBCS_P2_STATUS_MANUFACTURER :: byte where "CTBCS_P2_STATUS_MANUFACTURER = 0x46"
definition CTBCS_P2_STATUS_ICC :: byte where "CTBCS_P2_STATUS_ICC = 0x80"

text \<open>The status bytes, each pair of a \<open>SW1\<close> and a \<open>SW2\<close> of the header.\<close>

definition CTBCS_SW_OK :: "byte list" where "CTBCS_SW_OK = [0x90, 0x00]"
definition CTBCS_SW_WRONG_PARAM :: "byte list" where "CTBCS_SW_WRONG_PARAM = [0x6A, 0x00]"
definition CTBCS_SW_WRONG_INS :: "byte list" where "CTBCS_SW_WRONG_INS = [0x6D, 0x00]"
definition CTBCS_SW_WRONG_CLA :: "byte list" where "CTBCS_SW_WRONG_CLA = [0x6E, 0x00]"
definition CTBCS_SW_RESET_CT_OK :: "byte list" where "CTBCS_SW_RESET_CT_OK = [0x90, 0x00]"
definition CTBCS_SW_RESET_SYNC_OK :: "byte list" where "CTBCS_SW_RESET_SYNC_OK = [0x90, 0x00]"
definition CTBCS_SW_RESET_ASYNC_OK :: "byte list" where "CTBCS_SW_RESET_ASYNC_OK = [0x90, 0x01]"
definition CTBCS_SW_RESET_ERROR :: "byte list" where "CTBCS_SW_RESET_ERROR = [0x64, 0x00]"
definition CTBCS_SW_REQUEST_SYNC_OK :: "byte list" where "CTBCS_SW_REQUEST_SYNC_OK = [0x90, 0x00]"
definition CTBCS_SW_REQUEST_ASYNC_OK :: "byte list" where "CTBCS_SW_REQUEST_ASYNC_OK = [0x90, 0x01]"
definition CTBCS_SW_REQUEST_NO_CARD :: "byte list" where "CTBCS_SW_REQUEST_NO_CARD = [0x62, 0x00]"
definition CTBCS_SW_REQUEST_CARD_PRESENT :: "byte list" where "CTBCS_SW_REQUEST_CARD_PRESENT = [0x62, 0x01]"
definition CTBCS_SW_REQUEST_ERROR :: "byte list" where "CTBCS_SW_REQUEST_ERROR = [0x64, 0x00]"
definition CTBCS_SW_EJECT_OK :: "byte list" where "CTBCS_SW_EJECT_OK = [0x90, 0x00]"
definition CTBCS_SW_EJECT_REMOVED :: "byte list" where "CTBCS_SW_EJECT_REMOVED = [0x90, 0x01]"
definition CTBCS_SW_EJECT_NOT_REMOVED :: "byte list" where "CTBCS_SW_EJECT_NOT_REMOVED = [0x62, 0x00]"
definition CTBCS_DATA_STATUS_NOCARD :: byte where "CTBCS_DATA_STATUS_NOCARD = 0x00"
definition CTBCS_DATA_STATUS_CARD_CONNECT :: byte where "CTBCS_DATA_STATUS_CARD_CONNECT = 0x05"

definition CARDTERMINAL_MAX_SLOTS :: nat where "CARDTERMINAL_MAX_SLOTS = 2"
definition CARDTERMINAL_MANUFACTURER :: string where "CARDTERMINAL_MANUFACTURER = ''DETWK''"
definition VERSION :: string where "VERSION = ''2.0.8''"

lemmas ctbcs_ins = CTBCS_INS_RESET_def CTBCS_INS_REQUEST_def CTBCS_INS_STATUS_def CTBCS_INS_EJECT_def
lemmas ctbcs_p1 = CTBCS_P1_CT_KERNEL_def CTBCS_P1_INTERFACE1_def CTBCS_P1_INTERFACE2_def
lemmas ctbcs_p2 = CTBCS_P2_RESET_NO_RESP_def CTBCS_P2_RESET_GET_ATR_def CTBCS_P2_RESET_GET_HIST_def
  CTBCS_P2_REQUEST_NO_RESP_def CTBCS_P2_REQUEST_GET_ATR_def CTBCS_P2_REQUEST_GET_HIST_def
  CTBCS_P2_STATUS_MANUFACTURER_def CTBCS_P2_STATUS_ICC_def
lemmas ctbcs_sw = CTBCS_SW_OK_def CTBCS_SW_WRONG_PARAM_def CTBCS_SW_WRONG_INS_def CTBCS_SW_WRONG_CLA_def CTBCS_SW_RESET_CT_OK_def
  CTBCS_SW_RESET_SYNC_OK_def CTBCS_SW_RESET_ASYNC_OK_def CTBCS_SW_RESET_ERROR_def CTBCS_SW_REQUEST_SYNC_OK_def
  CTBCS_SW_REQUEST_ASYNC_OK_def CTBCS_SW_REQUEST_NO_CARD_def CTBCS_SW_REQUEST_CARD_PRESENT_def CTBCS_SW_REQUEST_ERROR_def
  CTBCS_SW_EJECT_OK_def CTBCS_SW_EJECT_REMOVED_def CTBCS_SW_EJECT_NOT_REMOVED_def

section \<open>The terminal\<close>

text \<open>\<open>ct_io\<close> says whether the pointer to the port is set, \<open>None\<close> in the array is a \<open>NULL\<close> pointer.\<close>

record CardTerminal =
  ct_io :: bool
  ct_slots :: "CT_Slot option list"
  ct_num_slots :: nat

definition CardTerminal_Clear :: CardTerminal where
  "CardTerminal_Clear = \<lparr>ct_io = False, ct_slots = replicate CARDTERMINAL_MAX_SLOTS None, ct_num_slots = 0\<rparr>"

definition CardTerminal_New :: CardTerminal where
  "CardTerminal_New = CardTerminal_Clear"

text \<open>
  The use of a slot through the array: an index outside of the array and a \<open>NULL\<close>
  pointer are faults.
\<close>

definition on_slot :: "CardTerminal \<Rightarrow> nat \<Rightarrow> (CT_Slot \<Rightarrow> ('s, 'a outcome) state) \<Rightarrow> ('s, 'a outcome) state" where
  "on_slot ct sn f =
     (if sn < length (ct_slots ct) then (case ct_slots ct ! sn of None \<Rightarrow> out_fault | Some sl \<Rightarrow> f sl) else out_fault)"

definition set_slot :: "CardTerminal \<Rightarrow> nat \<Rightarrow> CT_Slot \<Rightarrow> CardTerminal" where
  "set_slot ct sn sl = ct\<lparr>ct_slots := (ct_slots ct)[sn := Some sl]\<rparr>"

text \<open>
  The loop that creates the slots: the result is the code of the last \<open>CT_Slot_Init\<close>
  and the index of the last slot.
\<close>

function init_slots :: "'d host \<Rightarrow> CardTerminal \<Rightarrow> ('d, (ct_ret \<times> nat \<times> CardTerminal) outcome) io" where
  "init_slots h ct =
     (let i = ct_num_slots ct
      in if i \<ge> CARDTERMINAL_MAX_SLOTS then out_fault
         else out_bind (out_lift (CT_Slot_Init h CT_Slot_New (of_nat i))) (\<lambda>(ret, sl).
           let ct' = set_slot (ct\<lparr>ct_num_slots := i + 1\<rparr>) i sl
           in if ret \<noteq> OK then out_return (ret, i, ct')
              else (case CT_Slot_IsLast sl of
                  Returns True \<Rightarrow> out_return (OK, i, ct')
                | Returns False \<Rightarrow> init_slots h ct'
                | _ \<Rightarrow> out_fault)))"
  by pat_completeness auto

termination
  by (relation "measure (\<lambda>(h, ct). CARDTERMINAL_MAX_SLOTS - ct_num_slots ct)") (auto simp: set_slot_def)

declare init_slots.simps [simp del]

text \<open>The loop that gives the slots back after an error, from the last one down.\<close>

fun delete_slots :: "nat \<Rightarrow> nat \<Rightarrow> CT_Slot option list \<Rightarrow> CT_Slot option list" where
  "delete_slots 0 i slots = slots"
| "delete_slots (Suc n) i slots = delete_slots n (i - 1) (slots[i := None])"

text \<open>\<open>port_nr\<close> is an \<open>unsigned short\<close>; its upper bit selects the USB serial ports.\<close>

definition CardTerminal_Init :: "'d host \<Rightarrow> CardTerminal \<Rightarrow> 16 word \<Rightarrow> ('d, (ct_ret \<times> CardTerminal) outcome) io" where
  "CardTerminal_Init h ct port_nr =
     (let usb = (port_nr AND 0x8000 = 0x8000);
          port = (if usb then port_nr AND 0x7FFF else port_nr);
          nr = (if host_win32_com h then unat port else unat port + 1)
      in out_bind (out_lift (modify_io (\<lambda>_. IO_Serial_New))) (\<lambda>_.
         out_bind (out_lift (IO_Serial_Init (host_os h) nr usb True)) (\<lambda>ok.
           if \<not> ok then out_return (ERR_TRANS, ct\<lparr>ct_io := False\<rparr>)
           else out_bind (init_slots h (ct\<lparr>ct_io := True, ct_num_slots := 0\<rparr>)) (\<lambda>(ret, i, ct').
             if ret \<noteq> OK then
               out_bind (out_lift (IO_Serial_Close (host_os h))) (\<lambda>_.
                 out_return (ret, \<lparr>ct_io = False, ct_slots = delete_slots (ct_num_slots ct') i (ct_slots ct'), ct_num_slots = 0\<rparr>))
             else out_return (OK, ct')))))"

fun close_slots :: "'d host \<Rightarrow> CT_Slot option list \<Rightarrow> ct_ret \<Rightarrow> ('d, ct_ret outcome) io" where
  "close_slots h [] ret = out_return ret"
| "close_slots h (None # slots) ret = close_slots h slots ret"
| "close_slots h (Some sl # slots) ret =
     out_bind (CT_Slot_Close h sl) (\<lambda>(aux, _). close_slots h slots (if aux \<noteq> OK then aux else ret))"

definition CardTerminal_Close :: "'d host \<Rightarrow> CardTerminal \<Rightarrow> ('d, (ct_ret \<times> CardTerminal) outcome) io" where
  "CardTerminal_Close h ct =
     out_bind (close_slots h (take (ct_num_slots ct) (ct_slots ct)) OK) (\<lambda>ret.
     out_bind (if ct_io ct then out_lift (do { ok \<leftarrow> IO_Serial_Close (host_os h); State_Monad.return (if \<not> ok then ERR_TRANS else ret) })
               else out_return ret) (\<lambda>ret.
       out_return (ret, CardTerminal_Clear)))"

definition CardTerminal_GetSlot :: "CardTerminal \<Rightarrow> nat \<Rightarrow> CT_Slot option" where
  "CardTerminal_GetSlot ct number = (if number < ct_num_slots ct then ct_slots ct ! number else None)"

section \<open>Answers\<close>

type_synonym ct_result = "ct_ret \<times> APDU_Rsp option \<times> CardTerminal"

definition ct_reply :: "ct_ret \<Rightarrow> byte list \<Rightarrow> CardTerminal \<Rightarrow> ('s, ct_result outcome) state" where
  "ct_reply ret buffer ct = out_return (ret, APDU_Rsp_New buffer (length buffer), ct)"

text \<open>
  The answer to reset and the historical bytes are copied into a local array of 35 bytes.
  The results are the array and the length; a card without historical bytes leaves the
  length unset.
\<close>

definition fill_atr :: "'d host \<Rightarrow> slot_atr \<Rightarrow> (byte list \<times> nat) outcome" where
  "fill_atr h atr =
     (let copy = (\<lambda>bs. case memcpy_at (host_buffer h) 0 bs of None \<Rightarrow> Faults | Some b \<Rightarrow> Returns (b, length bs))
      in case atr of
           No_Atr \<Rightarrow> Returns (host_buffer h, 0)
         | Async_Atr a \<Rightarrow> copy (ATR_GetRaw a)
         | Sync_Atr a \<Rightarrow> copy (ATR_Sync_GetRaw a))"

definition fill_hist :: "'d host \<Rightarrow> slot_atr \<Rightarrow> (byte list \<times> nat) outcome" where
  "fill_hist h atr =
     (let copy = (\<lambda>bs. case memcpy_at (host_buffer h) 0 bs of None \<Rightarrow> Faults | Some b \<Rightarrow> Returns (b, length bs))
      in case atr of
           No_Atr \<Rightarrow> Returns (host_buffer h, 0)
         | Async_Atr a \<Rightarrow> (case ATR_GetHistoricalBytes a of Inl _ \<Rightarrow> Returns (host_buffer h, host_length h) | Inr bs \<Rightarrow> copy bs)
         | Sync_Atr a \<Rightarrow> copy (ATR_Sync_GetHistoricalBytes a))"

text \<open>The status bytes are put behind the data; \<open>grow\<close> is what is added to the length.\<close>

definition put_status :: "byte list \<Rightarrow> nat \<Rightarrow> (byte list \<times> nat) outcome \<Rightarrow> (byte list \<times> nat) outcome" where
  "put_status sw grow filled =
     (case filled of
        Returns (buffer, len) \<Rightarrow> (case memcpy_at buffer len sw of None \<Rightarrow> Faults | Some b \<Rightarrow> Returns (b, len + grow))
      | _ \<Rightarrow> filled)"

definition with_atr :: "CT_Slot \<Rightarrow> (slot_atr \<Rightarrow> 'a outcome) \<Rightarrow> 'a outcome" where
  "with_atr sl f = (case CT_Slot_GetAtr sl of Returns atr \<Rightarrow> f atr | _ \<Rightarrow> Faults)"

definition reset_answer :: "'d host \<Rightarrow> CT_Slot \<Rightarrow> byte \<Rightarrow> (byte list \<times> nat) outcome" where
  "reset_answer h sl p2 =
     (let async = (CT_Slot_GetICCType sl = CT_SLOT_ICC_ASYNC);
          sw = (if async then CTBCS_SW_RESET_ASYNC_OK else CTBCS_SW_RESET_SYNC_OK)
      in if p2 = CTBCS_P2_RESET_NO_RESP then Returns (sw, 2)
         else if p2 = CTBCS_P2_RESET_GET_ATR then with_atr sl (\<lambda>atr. put_status sw 2 (fill_atr h atr))
         else if p2 = CTBCS_P2_RESET_GET_HIST then with_atr sl (\<lambda>atr. put_status sw 2 (fill_hist h atr))
         else Returns (CTBCS_SW_WRONG_PARAM, 2))"

text \<open>The length of the historical bytes of a synchronous card is not increased by the status.\<close>

definition request_answer :: "'d host \<Rightarrow> CT_Slot \<Rightarrow> byte \<Rightarrow> (byte list \<times> nat) outcome" where
  "request_answer h sl p2 =
     (let async = (CT_Slot_GetICCType sl = CT_SLOT_ICC_ASYNC);
          sw = (if async then CTBCS_SW_REQUEST_ASYNC_OK else CTBCS_SW_REQUEST_SYNC_OK)
      in if p2 = CTBCS_P2_REQUEST_NO_RESP then Returns (sw, 2)
         else if p2 = CTBCS_P2_REQUEST_GET_ATR then with_atr sl (\<lambda>atr. put_status sw 2 (fill_atr h atr))
         else if p2 = CTBCS_P2_REQUEST_GET_HIST then with_atr sl (\<lambda>atr. put_status sw (if async then 2 else 0) (fill_hist h atr))
         else Returns (CTBCS_SW_WRONG_PARAM, 2))"

section \<open>CT-BCS commands\<close>

text \<open>Probing with the data of the command, when there is more than a byte of it.\<close>

definition probe_command :: "'d host \<Rightarrow> CT_Slot \<Rightarrow> APDU_Cmd \<Rightarrow> ('d, (ct_ret \<times> CT_Slot) outcome) io" where
  "probe_command h sl cmd =
     (if APDU_Cmd_Lc cmd > 1 then CT_Slot_Probe h sl (APDU_Cmd_Data cmd) (APDU_Cmd_Lc cmd) else CT_Slot_Probe h sl None 0)"

text \<open>The loop that resets the slots of the terminal, from slot \<open>sn\<close> on.\<close>

function reset_slots :: "'d host \<Rightarrow> CardTerminal \<Rightarrow> nat \<Rightarrow> ('d, ct_result outcome) io" where
  "reset_slots h ct sn =
     (if sn < ct_num_slots ct then
        on_slot ct sn (\<lambda>sl.
          out_bind (CT_Slot_Close h sl) (\<lambda>(ret, sl1).
            if ret \<noteq> OK then ct_reply ret CTBCS_SW_RESET_ERROR (set_slot ct sn sl1)
            else out_bind (out_lift (CT_Slot_Init h sl1 (of_nat sn))) (\<lambda>(ret, sl2).
              if ret \<noteq> OK then ct_reply ret CTBCS_SW_RESET_ERROR (set_slot ct sn sl2)
              else reset_slots h (set_slot ct sn sl2) (sn + 1))))
      else ct_reply OK CTBCS_SW_RESET_CT_OK ct)"
  by pat_completeness auto

termination
  by (relation "measure (\<lambda>(h, ct, sn). ct_num_slots ct - sn)") (auto simp: set_slot_def)

declare reset_slots.simps [simp del]

definition slot_number :: "byte \<Rightarrow> nat" where
  "slot_number p1 = (if p1 = CTBCS_P1_INTERFACE1 then 0 else 1)"

definition is_interface :: "byte \<Rightarrow> bool" where
  "is_interface p1 \<longleftrightarrow> p1 = CTBCS_P1_INTERFACE1 \<or> p1 = CTBCS_P1_INTERFACE2"

definition answer_with :: "(byte list \<times> nat) outcome \<Rightarrow> CardTerminal \<Rightarrow> ('s, ct_result outcome) state" where
  "answer_with answer ct =
     (case answer of
        Returns (buffer, len) \<Rightarrow> out_return (OK, APDU_Rsp_New buffer len, ct)
      | _ \<Rightarrow> out_fault)"

definition CardTerminal_ResetCT :: "'d host \<Rightarrow> CardTerminal \<Rightarrow> APDU_Cmd \<Rightarrow> ('d, ct_result outcome) io" where
  "CardTerminal_ResetCT h ct cmd =
     (let p1 = APDU_Cmd_P1 cmd; p2 = APDU_Cmd_P2 cmd; sn = slot_number p1
      in if p1 = CTBCS_P1_CT_KERNEL then
           if p2 \<noteq> CTBCS_P2_RESET_NO_RESP \<and> p2 \<noteq> CTBCS_P2_RESET_GET_ATR \<and> p2 \<noteq> CTBCS_P2_RESET_GET_HIST
           then ct_reply OK CTBCS_SW_WRONG_PARAM ct
           else reset_slots h ct 0
         else if is_interface p1 then
           if \<not> sn < ct_num_slots ct then ct_reply ERR_INVALID CTBCS_SW_WRONG_PARAM ct
           else on_slot ct sn (\<lambda>sl.
             out_bind (CT_Slot_Release h sl) (\<lambda>(ret, sl1).
               if ret \<noteq> OK then ct_reply ret CTBCS_SW_RESET_ERROR (set_slot ct sn sl1)
               else out_bind (CT_Slot_Check h sl1 0) (\<lambda>c. case c of
                 Inl e \<Rightarrow> ct_reply e CTBCS_SW_RESET_ERROR (set_slot ct sn sl1)
               | Inr (present, change) \<Rightarrow>
                   if \<not> present then ct_reply OK CTBCS_SW_RESET_ERROR (set_slot ct sn sl1)
                   else out_bind (probe_command h sl1 cmd) (\<lambda>(ret, sl2).
                     if ret \<noteq> OK \<or> CT_Slot_GetICCType sl2 = CT_SLOT_NULL
                     then ct_reply ret CTBCS_SW_RESET_ERROR (set_slot ct sn sl2)
                     else answer_with (reset_answer h sl2 p2) (set_slot ct sn sl2)))))
         else ct_reply OK CTBCS_SW_WRONG_PARAM ct)"

text \<open>The time to wait for a card: the data of the command, when it is one byte.\<close>

definition command_timeout :: "APDU_Cmd \<Rightarrow> nat outcome" where
  "command_timeout cmd =
     (if APDU_Cmd_Lc cmd = 1
      then (case APDU_Cmd_Data cmd of Some (b # _) \<Rightarrow> Returns (unat b) | _ \<Rightarrow> Faults) else Returns 0)"

definition CardTerminal_RequestICC :: "'d host \<Rightarrow> CardTerminal \<Rightarrow> APDU_Cmd \<Rightarrow> ('d, ct_result outcome) io" where
  "CardTerminal_RequestICC h ct cmd =
     (let p1 = APDU_Cmd_P1 cmd; p2 = APDU_Cmd_P2 cmd; sn = slot_number p1
      in if is_interface p1 then
           on_slot ct sn (\<lambda>sl.
             if CT_Slot_GetICCType sl \<noteq> CT_SLOT_NULL then ct_reply OK CTBCS_SW_REQUEST_CARD_PRESENT ct
             else out_bind (State_Monad.return (command_timeout cmd)) (\<lambda>timeout.
               out_bind (CT_Slot_Check h sl timeout) (\<lambda>c. case c of
                 Inl e \<Rightarrow> ct_reply e CTBCS_SW_REQUEST_ERROR ct
               | Inr (present, change) \<Rightarrow>
                   if \<not> present then ct_reply OK CTBCS_SW_REQUEST_NO_CARD ct
                   else out_bind (probe_command h sl cmd) (\<lambda>(ret, sl1).
                     if ret \<noteq> OK \<or> CT_Slot_GetICCType sl1 = CT_SLOT_NULL
                     then ct_reply ret CTBCS_SW_REQUEST_ERROR (set_slot ct sn sl1)
                     else answer_with (request_answer h sl1 p2) (set_slot ct sn sl1)))))
         else ct_reply OK CTBCS_SW_WRONG_PARAM ct)"

text \<open>
  The status of the slots from slot \<open>i\<close> on; \<open>buffer\<close> holds the status bytes of the
  slots before it.  A card that was removed or changed is released.
\<close>

function status_slots :: "'d host \<Rightarrow> CardTerminal \<Rightarrow> nat \<Rightarrow> byte list \<Rightarrow> ('d, ct_result outcome) io" where
  "status_slots h ct i buffer =
     (if i < ct_num_slots ct then
        on_slot ct i (\<lambda>sl.
          out_bind (CT_Slot_Check h sl 0) (\<lambda>c. case c of
            Inl e \<Rightarrow> out_return (e, None, ct)
          | Inr (present, change) \<Rightarrow>
              let status = (if present then CTBCS_DATA_STATUS_CARD_CONNECT else CTBCS_DATA_STATUS_NOCARD)
              in if CT_Slot_GetICCType sl \<noteq> CT_SLOT_NULL \<and> (\<not> present \<or> change) then
                   out_bind (CT_Slot_Release h sl) (\<lambda>(ret, sl1).
                     if ret \<noteq> OK then out_return (ret, None, set_slot ct i sl1)
                     else status_slots h (set_slot ct i sl1) (i + 1) (buffer @ [status]))
                 else status_slots h ct (i + 1) (buffer @ [status])))
      else ct_reply OK (buffer @ CTBCS_SW_OK) ct)"
  by pat_completeness auto

termination
  by (relation "measure (\<lambda>(h, ct, i, buffer). ct_num_slots ct - i)") (auto simp: set_slot_def)

declare status_slots.simps [simp del]

text \<open>
  A wrong functional unit is noticed, but its status is overwritten by every branch that
  follows.  Without a first slot five bytes of the answer are those of the uninitialised
  array.
\<close>

definition CardTerminal_GetStatus :: "'d host \<Rightarrow> CardTerminal \<Rightarrow> APDU_Cmd \<Rightarrow> ('d, ct_result outcome) io" where
  "CardTerminal_GetStatus h ct cmd =
     (let p2 = APDU_Cmd_P2 cmd
      in if p2 = CTBCS_P2_STATUS_MANUFACTURER then
           (case (case ct_slots ct ! 0 of None \<Rightarrow> Returns (take 5 (drop 5 (host_buffer h))) | Some sl \<Rightarrow> CT_Slot_GetType sl 5) of
              Returns ty \<Rightarrow>
                ct_reply OK (map of_char CARDTERMINAL_MANUFACTURER @ ty @ map of_char (take 5 VERSION) @ CTBCS_SW_OK) ct
            | _ \<Rightarrow> out_fault)
         else if p2 = CTBCS_P2_STATUS_ICC then status_slots h ct 0 []
         else ct_reply OK CTBCS_SW_WRONG_PARAM ct)"

definition CardTerminal_EjectICC :: "'d host \<Rightarrow> CardTerminal \<Rightarrow> APDU_Cmd \<Rightarrow> ('d, ct_result outcome) io" where
  "CardTerminal_EjectICC h ct cmd =
     (let p1 = APDU_Cmd_P1 cmd; sn = slot_number p1
      in if \<not> is_interface p1 then ct_reply OK CTBCS_SW_WRONG_PARAM ct
         else if \<not> sn < ct_num_slots ct then ct_reply ERR_INVALID CTBCS_SW_WRONG_PARAM ct
         else on_slot ct sn (\<lambda>sl.
           if CT_Slot_GetICCType sl = CT_SLOT_NULL then ct_reply OK CTBCS_SW_EJECT_OK ct
           else out_bind (State_Monad.return (command_timeout cmd)) (\<lambda>timeout.
             out_bind (CT_Slot_Check h sl timeout) (\<lambda>c. case c of
               Inl e \<Rightarrow> out_return (e, None, ct)
             | Inr (present, change) \<Rightarrow>
                 out_bind (CT_Slot_Release h sl) (\<lambda>(ret, sl1).
                   if ret \<noteq> OK then out_return (ret, None, set_slot ct sn sl1)
                   else ct_reply OK
                     (if timeout \<noteq> 0 then if present then CTBCS_SW_EJECT_NOT_REMOVED else CTBCS_SW_EJECT_REMOVED else CTBCS_SW_EJECT_OK)
                     (set_slot ct sn sl1))))))"

definition CardTerminal_Command :: "'d host \<Rightarrow> CardTerminal \<Rightarrow> APDU_Cmd \<Rightarrow> ('d, ct_result outcome) io" where
  "CardTerminal_Command h ct cmd =
     (if APDU_Cmd_Cla cmd \<noteq> CTBCS_CLA then ct_reply OK CTBCS_SW_WRONG_CLA ct
      else
        let ins = APDU_Cmd_Ins cmd
        in if ins = CTBCS_INS_RESET then CardTerminal_ResetCT h ct cmd
           else if ins = CTBCS_INS_REQUEST then CardTerminal_RequestICC h ct cmd
           else if ins = CTBCS_INS_STATUS then CardTerminal_GetStatus h ct cmd
           else if ins = CTBCS_INS_EJECT then CardTerminal_EjectICC h ct cmd
           else ct_reply OK CTBCS_SW_WRONG_INS ct)"

section \<open>The invariant of a terminal\<close>

text \<open>
  The slots that exist fill the array from its start, the tags of each agree with its
  pointers; behind them there are \<open>NULL\<close> pointers.
\<close>

definition ct_ok :: "CardTerminal \<Rightarrow> bool" where
  "ct_ok ct \<longleftrightarrow> length (ct_slots ct) = CARDTERMINAL_MAX_SLOTS \<and> ct_num_slots ct \<le> CARDTERMINAL_MAX_SLOTS \<and>
     (\<forall>i < ct_num_slots ct. \<exists>sl. ct_slots ct ! i = Some sl \<and> slot_ok sl) \<and>
     (\<forall>i < CARDTERMINAL_MAX_SLOTS. ct_num_slots ct \<le> i \<longrightarrow> ct_slots ct ! i = None)"

text \<open>Every slot has its interface device: no reset of the terminal has failed.\<close>

definition ct_live :: "CardTerminal \<Rightarrow> bool" where
  "ct_live ct \<longleftrightarrow> (\<forall>i < ct_num_slots ct. \<forall>sl. ct_slots ct ! i = Some sl \<longrightarrow> slot_ifd sl \<noteq> None)"

text \<open>
  The commands that probe a card: RESET to a slot, and REQUEST to a slot in which no card is
  active.  RESET checks that the terminal has the slot; REQUEST does not.
\<close>

definition ct_probes :: "CardTerminal \<Rightarrow> APDU_Cmd \<Rightarrow> bool" where
  "ct_probes ct cmd \<longleftrightarrow> APDU_Cmd_Cla cmd = CTBCS_CLA \<and> is_interface (APDU_Cmd_P1 cmd) \<and> slot_number (APDU_Cmd_P1 cmd) < ct_num_slots ct \<and>
     (APDU_Cmd_Ins cmd = CTBCS_INS_RESET \<or> APDU_Cmd_Ins cmd = CTBCS_INS_REQUEST \<and>
        map_option CT_Slot_GetICCType (ct_slots ct ! slot_number (APDU_Cmd_P1 cmd)) = Some CT_SLOT_NULL)"

definition ct_no_slot :: "CardTerminal \<Rightarrow> APDU_Cmd \<Rightarrow> bool" where
  "ct_no_slot ct cmd \<longleftrightarrow> APDU_Cmd_Cla cmd = CTBCS_CLA \<and> APDU_Cmd_Ins cmd = CTBCS_INS_REQUEST \<and> is_interface (APDU_Cmd_P1 cmd) \<and>
     ct_num_slots ct \<le> slot_number (APDU_Cmd_P1 cmd)"

lemma set_slot_simps [simp]:
  "ct_num_slots (set_slot ct sn sl) = ct_num_slots ct" "ct_io (set_slot ct sn sl) = ct_io ct"
  "set_slot (set_slot ct sn sl) sn sl' = set_slot ct sn sl'"
  by (simp_all add: set_slot_def)

lemma set_slot_ok: "ct_ok ct \<Longrightarrow> sn < ct_num_slots ct \<Longrightarrow> slot_ok sl \<Longrightarrow> ct_ok (set_slot ct sn sl)"
  by (auto simp: ct_ok_def set_slot_def nth_list_update)

lemma set_slot_live: "ct_live ct \<Longrightarrow> slot_ifd sl \<noteq> None \<Longrightarrow> ct_live (set_slot ct sn sl)"
  by (auto simp: ct_live_def set_slot_def) (metis nth_list_update_eq nth_list_update_neq list_update_beyond not_le option.inject)

subsection \<open>Rules for computations that may fault\<close>

lemma gives_or_then: "gives_or R m T \<Longrightarrow> (\<And>a. T a \<Longrightarrow> gives_or R (f a) Q) \<Longrightarrow> gives_or R (out_bind m f) Q"
  by (rule yields_or_bind, assumption, rule yields_or_pure) (auto elim: yields_or_conseq)

lemma returns_gives_or: "returns (\<lambda>_. True) m (\<lambda>a _. Q a) \<Longrightarrow> gives_or R m Q"
  unfolding returns_unless_def yields_or_def by (erule valid_conseq) auto

lemma gives_or_Release: "slot_ok sl \<Longrightarrow> gives_or R (CT_Slot_Release h sl) (\<lambda>(ret, sl'). sl' = slot_released sl)"
  by (rule returns_gives_or, rule returns_conseq [OF CT_Slot_Release_ok]) auto

lemma gives_or_Close: "slot_ok sl \<Longrightarrow> gives_or R (CT_Slot_Close h sl) (\<lambda>(ret, sl'). sl' = CT_Slot_Clear)"
  by (rule returns_gives_or, rule returns_conseq [OF CT_Slot_Close_ok]) auto

lemma gives_or_Check: "(slot_ifd sl = None \<Longrightarrow> R) \<Longrightarrow> gives_or (\<lambda>_. R) (CT_Slot_Check h sl n) (\<lambda>x. \<forall>e. x = Inl e \<longrightarrow> e = ERR_TRANS)"
proof (cases "slot_ifd sl")
  case (Some ifd)
  have poll: "run_state (slot_poll os i n st ch) q = (Inl e, q') \<Longrightarrow> e = ERR_TRANS" for os :: "'a os" and i n st ch q q' e
    by (induction n arbitrary: st ch q) (auto split: if_splits prod.splits sum.splits)
  show ?thesis
    unfolding yields_or_def by (rule validI) (auto simp: CT_Slot_Check_def Some split: prod.splits sum.splits dest: poll)
qed (auto simp: CT_Slot_Check_def intro!: yields_or_fault)

lemma gives_or_Probe:
  assumes "host_ok h" "slot_free sl"
  shows "gives_or (\<lambda>_. True) (probe_command h sl cmd) (\<lambda>(ret, sl'). slot_ok sl' \<and> slot_ifd sl' = slot_ifd sl)"
  unfolding yields_or_def
  by (rule validI) (auto simp: probe_command_def split: if_splits dest: CT_Slot_Probe_ok [OF assms])

lemma run_Slot_Init:
  "run_state (CT_Slot_Init h sl sn) p = ((ret, sl'), p') \<Longrightarrow>
     (ret = OK \<and> (\<exists>ifd. sl' = sl\<lparr>slot_ifd := Some ifd\<rparr>)) \<or> (ret = ERR_TRANS \<and> sl' = sl\<lparr>slot_ifd := None\<rparr>)"
  by (auto simp: CT_Slot_Init_def split: prod.splits if_splits)

lemma slot_free_ifd [simp]: "slot_free (sl\<lparr>slot_ifd := i\<rparr>) = slot_free sl"
  by (simp add: slot_free_def)

lemma on_slot_ok:
  assumes "ct_ok ct" "sn < ct_num_slots ct" "\<And>sl. ct_slots ct ! sn = Some sl \<Longrightarrow> slot_ok sl \<Longrightarrow> yields_or R P (f sl) Q"
  shows "yields_or R P (on_slot ct sn f) Q"
proof -
  have "sn < length (ct_slots ct)" using assms(1,2) by (simp add: ct_ok_def)
  moreover obtain sl where "ct_slots ct ! sn = Some sl" "slot_ok sl" using assms(1,2) by (auto simp: ct_ok_def)
  ultimately show ?thesis using assms(3) by (simp add: on_slot_def)
qed

subsection \<open>The commands keep it\<close>

text \<open>
  What a command leaves: \<open>resets\<close> says that it resets the terminal and may, when it
  fails, leave a slot without its device.
\<close>

definition ct_good :: "bool \<Rightarrow> CardTerminal \<Rightarrow> ct_result \<Rightarrow> bool" where
  "ct_good resets ct = (\<lambda>(ret, rsp, ct'). ct_ok ct' \<and> ct_num_slots ct' = ct_num_slots ct \<and> ct_io ct' = ct_io ct \<and>
     (ct_live ct \<and> (resets \<longrightarrow> ret = OK) \<longrightarrow> ct_live ct') \<and>
     (\<forall>r. rsp = Some r \<longrightarrow> apdu_rsp_wf r) \<and> (ret = OK \<longrightarrow> rsp \<noteq> None))"

lemma ct_reply_good:
  assumes "ct_ok ct'" "ct_num_slots ct' = ct_num_slots ct" "ct_io ct' = ct_io ct" "ct_live ct \<and> (resets \<longrightarrow> ret = OK) \<longrightarrow> ct_live ct'"
    "2 \<le> length buffer"
  shows "gives_or R (ct_reply ret buffer ct') (ct_good resets ct)"
  unfolding ct_reply_def
  by (rule yields_or_return) (use assms in \<open>auto simp: ct_good_def APDU_Rsp_New_def apdu_rsp_wf_def apdu_sizes\<close>)

lemma length_sw [simp]:
  "length CTBCS_SW_OK = 2" "length CTBCS_SW_WRONG_PARAM = 2" "length CTBCS_SW_WRONG_INS = 2" "length CTBCS_SW_WRONG_CLA = 2"
  "length CTBCS_SW_RESET_CT_OK = 2" "length CTBCS_SW_RESET_SYNC_OK = 2" "length CTBCS_SW_RESET_ASYNC_OK = 2" "length CTBCS_SW_RESET_ERROR = 2"
  "length CTBCS_SW_REQUEST_SYNC_OK = 2" "length CTBCS_SW_REQUEST_ASYNC_OK = 2" "length CTBCS_SW_REQUEST_NO_CARD = 2"
  "length CTBCS_SW_REQUEST_CARD_PRESENT = 2" "length CTBCS_SW_REQUEST_ERROR = 2" "length CTBCS_SW_EJECT_OK = 2"
  "length CTBCS_SW_EJECT_REMOVED = 2" "length CTBCS_SW_EJECT_NOT_REMOVED = 2"
  by (simp_all add: ctbcs_sw)

text \<open>The answers carry at least the status bytes.\<close>

lemma put_status_length:
  "put_status sw grow filled = Returns (b, n) \<Longrightarrow> length sw = 2 \<Longrightarrow>
   \<exists>buffer len. filled = Returns (buffer, len) \<and> n = len + grow \<and> len + 2 \<le> length b"
  by (auto simp: put_status_def memcpy_at_def split: outcome.splits option.splits if_splits)

lemma hist_length:
  "sync_ready sl \<Longrightarrow> CT_Slot_GetAtr sl = Returns atr \<Longrightarrow> fill_hist h atr = Returns (buffer, len) \<Longrightarrow> len = 2"
  by (auto simp: sync_ready_def CT_Slot_GetAtr_def ct_slot_types fill_hist_def ICC_Sync_GetAtr_def ATR_Sync_GetHistoricalBytes_def Let_def
      split: slot_card.splits slot_handler.splits option.splits)

lemma answer_length:
  assumes "slot_ok sl" "CT_Slot_GetICCType sl \<noteq> CT_SLOT_NULL"
  shows "reset_answer h sl p2 = Returns (b, n) \<Longrightarrow> 2 \<le> n \<and> n \<le> length b"
    "request_answer h sl p2 = Returns (b, n) \<Longrightarrow> 2 \<le> n \<and> n \<le> length b"
proof -
  have sync: "sync_ready sl" if "CT_Slot_GetICCType sl \<noteq> CT_SLOT_ICC_ASYNC"
    using assms that by (auto simp: slot_ok_def slot_free_def async_ready_def CT_Slot_GetICCType_def split: slot_card.splits)
  show "reset_answer h sl p2 = Returns (b, n) \<Longrightarrow> 2 \<le> n \<and> n \<le> length b"
    by (auto simp: reset_answer_def with_atr_def Let_def split: if_splits outcome.splits dest!: put_status_length)
  show "request_answer h sl p2 = Returns (b, n) \<Longrightarrow> 2 \<le> n \<and> n \<le> length b"
    using sync
    by (auto simp: request_answer_def with_atr_def Let_def split: if_splits outcome.splits dest!: put_status_length dest: hist_length)
qed

lemma gives_or_answer:
  assumes "ct_ok ct'" "ct_num_slots ct' = ct_num_slots ct" "ct_io ct' = ct_io ct" "ct_live ct \<longrightarrow> ct_live ct'"
    "\<And>b n. answer = Returns (b, n) \<Longrightarrow> 2 \<le> n \<and> n \<le> length b"
  shows "gives_or (\<lambda>_. True) (answer_with answer ct') (ct_good resets ct)"
proof (cases answer)
  case (Returns x)
  then obtain b n where "answer = Returns (b, n)" by (cases x) auto
  with assms show ?thesis
    by (auto simp: answer_with_def ct_good_def APDU_Rsp_New_def apdu_rsp_wf_def apdu_sizes intro!: yields_or_return)
qed (auto simp: answer_with_def intro!: yields_or_fault)

lemma live_slot: "ct_live ct \<Longrightarrow> sn < ct_num_slots ct \<Longrightarrow> ct_slots ct ! sn = Some sl \<Longrightarrow> slot_ifd sl \<noteq> None"
  by (auto simp: ct_live_def)

text \<open>A slot is probed and the answer is given: the end of RESET and of REQUEST.\<close>

lemma gives_or_probe_answer:
  assumes "host_ok h" "ct_ok ct" "sn < ct_num_slots ct" "slot_free sl" "ct_live ct \<Longrightarrow> slot_ifd sl \<noteq> None"
    "\<And>sl2 b n. slot_ok sl2 \<Longrightarrow> CT_Slot_GetICCType sl2 \<noteq> CT_SLOT_NULL \<Longrightarrow> answer sl2 = Returns (b, n) \<Longrightarrow> 2 \<le> n \<and> n \<le> length b"
    "length sw = 2"
  shows "gives_or (\<lambda>_. True) (out_bind (probe_command h sl cmd) (\<lambda>(ret, sl2).
      if ret \<noteq> OK \<or> CT_Slot_GetICCType sl2 = CT_SLOT_NULL then ct_reply ret sw (set_slot ct sn sl2)
      else answer_with (answer sl2) (set_slot ct sn sl2))) (ct_good False ct)"
proof (rule gives_or_then [OF gives_or_Probe [OF assms(1,4)]], clarify)
  fix ret sl2
  assume "slot_ok sl2" "slot_ifd sl2 = slot_ifd sl"
  then have "ct_ok (set_slot ct sn sl2)" "ct_live ct \<longrightarrow> ct_live (set_slot ct sn sl2)"
    using assms(2,3,5) by (auto intro: set_slot_ok set_slot_live)
  then show "gives_or (\<lambda>_. True) (if ret \<noteq> OK \<or> CT_Slot_GetICCType sl2 = CT_SLOT_NULL then ct_reply ret sw (set_slot ct sn sl2)
      else answer_with (answer sl2) (set_slot ct sn sl2)) (ct_good False ct)"
    using assms(6) [OF \<open>slot_ok sl2\<close>] assms(7) by (auto intro!: ct_reply_good gives_or_answer)
qed

lemma good_trans:
  "ct_num_slots ct1 = ct_num_slots ct \<Longrightarrow> ct_io ct1 = ct_io ct \<Longrightarrow> (ct_live ct \<Longrightarrow> ct_live ct1) \<Longrightarrow> ct_good b ct1 x \<Longrightarrow> ct_good b ct x"
  by (auto simp: ct_good_def)

text \<open>A reset of the terminal does not fault, and when it succeeds every slot has its device again.\<close>

lemma gives_reset_slots:
  assumes "ct_ok ct" "\<forall>i < sn. \<forall>sl. ct_slots ct ! i = Some sl \<longrightarrow> slot_ifd sl \<noteq> None"
  shows "gives_or R (reset_slots h ct sn) (\<lambda>(ret, rsp, ct'). ct_ok ct' \<and> ct_num_slots ct' = ct_num_slots ct \<and> ct_io ct' = ct_io ct \<and>
     (ret = OK \<longrightarrow> ct_live ct') \<and> (\<exists>r. rsp = Some r \<and> apdu_rsp_wf r))" (is "gives_or R _ (?Q ct)")
  using assms
proof (induction "ct_num_slots ct - sn" arbitrary: ct sn rule: less_induct)
  case less
  have reply: "gives_or R (ct_reply ret sw ct') (?Q ct)"
    if "ct_ok ct'" "ct_num_slots ct' = ct_num_slots ct" "ct_io ct' = ct_io ct" "ret = OK \<longrightarrow> ct_live ct'" "length sw = 2" for ret sw ct'
    unfolding ct_reply_def
    by (rule yields_or_return) (use that in \<open>auto simp: APDU_Rsp_New_def apdu_rsp_wf_def apdu_sizes\<close>)
  show ?case
  proof (cases "sn < ct_num_slots ct")
    case True
    have init: "gives_or R (out_lift (CT_Slot_Init h CT_Slot_Clear (of_nat sn))) (\<lambda>(ret, sl2). slot_free sl2 \<and> (ret = OK \<longrightarrow> slot_ifd sl2 \<noteq> None))"
      unfolding yields_or_def by (rule validI) (auto split: prod.splits dest!: run_Slot_Init)
    have step: "gives_or R (if ret \<noteq> OK then ct_reply ret CTBCS_SW_RESET_ERROR (set_slot ct sn sl2) else reset_slots h (set_slot ct sn sl2) (sn + 1)) (?Q ct)"
      if sl2: "slot_free sl2" "ret = OK \<longrightarrow> slot_ifd sl2 \<noteq> None" for ret sl2
    proof (cases "ret = OK")
      case True
      have "\<forall>i < sn + 1. \<forall>sl. ct_slots (set_slot ct sn sl2) ! i = Some sl \<longrightarrow> slot_ifd sl \<noteq> None"
        using less.prems(2) \<open>sn < ct_num_slots ct\<close> less.prems(1) sl2 True by (auto simp: set_slot_def nth_list_update less_Suc_eq ct_ok_def)
      moreover have "ct_ok (set_slot ct sn sl2)" using less.prems(1) \<open>sn < ct_num_slots ct\<close> sl2 by (intro set_slot_ok) auto
      ultimately show ?thesis using less.hyps [of "set_slot ct sn sl2" "sn + 1"] True \<open>sn < ct_num_slots ct\<close> by simp
    next
      case False
      then show ?thesis using less.prems(1) \<open>sn < ct_num_slots ct\<close> sl2 by (auto intro!: reply set_slot_ok)
    qed
    show ?thesis
      unfolding reset_slots.simps [of h ct sn] if_P [OF True]
      by (rule on_slot_ok [OF less.prems(1) True], rule gives_or_then [OF gives_or_Close], assumption, clarify)
         (intro yields_or_if reply set_slot_ok less.prems(1) True gives_or_then [OF init]; use step in auto)
  next
    case False
    have "ct_live ct" using less.prems(2) False by (meson ct_live_def less_le_trans not_less)
    then show ?thesis unfolding reset_slots.simps [of h ct sn] if_not_P [OF False] using less.prems(1) by (auto intro!: reply)
  qed
qed

lemma released_ok:
  assumes "ct_ok ct" "sn < ct_num_slots ct" "ct_slots ct ! sn = Some sl"
  shows "ct_ok (set_slot ct sn (slot_released sl))" "ct_live ct \<Longrightarrow> ct_live (set_slot ct sn (slot_released sl))"
  using assms set_slot_live [of ct "slot_released sl" sn] live_slot [of ct sn sl] by (auto intro: set_slot_ok)

lemma release_then:
  assumes "slot_ok sl" "\<And>ret. gives_or R (f (ret, slot_released sl)) Q"
  shows "gives_or R (out_bind (CT_Slot_Release h sl) f) Q"
  by (rule gives_or_then [OF gives_or_Release [OF assms(1)]]) (use assms(2) in auto)

lemma error_good:
  "ct_ok ct' \<Longrightarrow> ct_num_slots ct' = ct_num_slots ct \<Longrightarrow> ct_io ct' = ct_io ct \<Longrightarrow> (ct_live ct \<Longrightarrow> ct_live ct') \<Longrightarrow> ret \<noteq> OK \<Longrightarrow>
   gives_or R (out_return (ret, None, ct')) (ct_good False ct)"
  by (rule yields_or_return) (auto simp: ct_good_def)

lemma gives_status_slots:
  assumes "ct_ok ct" "\<not> ct_live ct \<Longrightarrow> R"
  shows "gives_or (\<lambda>_. R) (status_slots h ct i buffer) (ct_good False ct)"
  using assms
proof (induction "ct_num_slots ct - i" arbitrary: ct i buffer rule: less_induct)
  case less
  show ?case
  proof (cases "i < ct_num_slots ct")
    case True
    have next_slot: "gives_or (\<lambda>_. R) (status_slots h ct' (i + 1) b) (ct_good False ct)"
      if "ct_ok ct'" "ct_num_slots ct' = ct_num_slots ct" "ct_io ct' = ct_io ct" "ct_live ct \<Longrightarrow> ct_live ct'" for ct' b
      by (rule yields_or_conseq [OF less.hyps]) (use that True less.prems(2) in \<open>auto elim: good_trans [rotated -1]\<close>)
    have release: "gives_or (\<lambda>_. R) (out_bind (CT_Slot_Release h sl) (\<lambda>(ret, sl1).
        if ret \<noteq> OK then out_return (ret, None, set_slot ct i sl1) else status_slots h (set_slot ct i sl1) (i + 1) b)) (ct_good False ct)"
      if "ct_slots ct ! i = Some sl" "slot_ok sl" for sl b
      unfolding prod.case using released_ok [OF less.prems(1) True that(1)]
      by (intro release_then [OF that(2)]) (simp only: prod.case, intro yields_or_if error_good next_slot; simp)
    show ?thesis
      unfolding status_slots.simps [of h ct i] if_P [OF True] Let_def
    proof (rule on_slot_ok [OF less.prems(1) True], rule gives_or_then [OF gives_or_Check], goal_cases)
      case (1 sl)
      then show ?case using less.prems(2) live_slot [OF _ True] by blast
    next
      case (2 sl c)
      show ?case
      proof (cases c)
        case (Inl e)
        then show ?thesis using 2(3) less.prems(1) by (auto intro!: error_good)
      next
        case (Inr x)
        then show ?thesis
          unfolding Inr sum.case by (cases x) (simp only: prod.case, intro yields_or_if release [OF 2(1,2)] next_slot less.prems(1) refl)
      qed
    qed
  next
    case False
    then show ?thesis
      unfolding status_slots.simps [of h ct i] if_not_P [OF False] using less.prems(1) by (auto intro!: ct_reply_good)
  qed
qed

lemma command_timeout_total: "apdu_cmd_wf cmd \<Longrightarrow> \<exists>n. command_timeout cmd = Returns n"
  using cmd_bytes_Lc [of cmd 1]
  by (fastforce simp: command_timeout_def cmd_bytes_def bytes_at_def split: option.splits list.splits if_splits bind_splits)

lemma gives_Eject:
  assumes "ct_ok ct" "\<not> ct_live ct \<Longrightarrow> R" "apdu_cmd_wf cmd"
  shows "gives_or (\<lambda>_. R) (CardTerminal_EjectICC h ct cmd) (ct_good False ct)"
proof -
  let ?sn = "slot_number (APDU_Cmd_P1 cmd)"
  obtain n where n: "command_timeout cmd = Returns n" using command_timeout_total [OF assms(3)] by blast
  have release: "gives_or (\<lambda>_. R) (out_bind (CT_Slot_Release h sl) (\<lambda>(ret, sl1).
      if ret \<noteq> OK then out_return (ret, None, set_slot ct ?sn sl1) else ct_reply OK sw (set_slot ct ?sn sl1))) (ct_good False ct)"
    if "?sn < ct_num_slots ct" "ct_slots ct ! ?sn = Some sl" "slot_ok sl" "length sw = 2" for sl sw
    using released_ok [OF assms(1) that(1,2)] that(4)
    by (intro release_then [OF that(3)]) (simp only: prod.case, intro yields_or_if error_good ct_reply_good; simp)
  have check: "gives_or (\<lambda>_. R) (out_bind (State_Monad.return (command_timeout cmd)) (\<lambda>timeout. out_bind (CT_Slot_Check h sl timeout) (\<lambda>c. case c of
      Inl e \<Rightarrow> out_return (e, None, ct)
    | Inr (present, change) \<Rightarrow> out_bind (CT_Slot_Release h sl) (\<lambda>(ret, sl1).
        if ret \<noteq> OK then out_return (ret, None, set_slot ct ?sn sl1) else ct_reply OK
          (if timeout \<noteq> 0 then if present then CTBCS_SW_EJECT_NOT_REMOVED else CTBCS_SW_EJECT_REMOVED else CTBCS_SW_EJECT_OK)
          (set_slot ct ?sn sl1))))) (ct_good False ct)"
    if sl: "?sn < ct_num_slots ct" "ct_slots ct ! ?sn = Some sl" "slot_ok sl" for sl
    unfolding n out_return_def [symmetric]
  proof (rule gives_or_then [where T = "\<lambda>_. True"], rule yields_or_return, rule TrueI, rule gives_or_then [OF gives_or_Check], goal_cases)
    case (2 m c)
    then show ?case
    proof (cases c)
      case (Inr x)
      then show ?thesis unfolding Inr sum.case by (cases x) (simp only: prod.case, rule release [OF sl], simp)
    qed (use assms(1) in \<open>auto intro!: error_good\<close>)
  qed (use assms(2) live_slot [OF _ sl(1,2)] in blast)
  show ?thesis
    unfolding CardTerminal_EjectICC_def Let_def
    using assms(1) by (intro yields_or_if ct_reply_good on_slot_ok [OF assms(1)] check) auto
qed

lemma gives_GetStatus:
  assumes "ct_ok ct" "\<not> ct_live ct \<Longrightarrow> R"
  shows "gives_or (\<lambda>_. R) (CardTerminal_GetStatus h ct cmd) (ct_good False ct)"
proof -
  have manufacturer: "gives_or (\<lambda>_. R) (case (case ct_slots ct ! 0 of None \<Rightarrow> Returns (take 5 (drop 5 (host_buffer h))) | Some sl \<Rightarrow> CT_Slot_GetType sl 5) of
      Returns ty \<Rightarrow> ct_reply OK (map of_char CARDTERMINAL_MANUFACTURER @ ty @ map of_char (take 5 VERSION) @ CTBCS_SW_OK) ct
    | _ \<Rightarrow> out_fault) (ct_good False ct)"
  proof (cases "ct_slots ct ! 0")
    case (Some sl)
    have "0 < ct_num_slots ct" using assms(1) Some by (intro gr0I) (auto simp: ct_ok_def CARDTERMINAL_MAX_SLOTS_def)
    then have "slot_ifd sl = None \<Longrightarrow> R" using assms(2) live_slot [of ct 0 sl] Some by blast
    then show ?thesis
      using assms(1) Some by (auto simp: CT_Slot_GetType_def split: option.splits intro!: ct_reply_good yields_or_fault)
  qed (use assms(1) in \<open>auto intro!: ct_reply_good\<close>)
  show ?thesis
    unfolding CardTerminal_GetStatus_def Let_def
    by (intro yields_or_if manufacturer gives_status_slots [OF assms] ct_reply_good) (use assms(1) in auto)
qed

lemma gives_ResetCT:
  assumes "host_ok h" "ct_ok ct"
  shows "gives_or (\<lambda>_. is_interface (APDU_Cmd_P1 cmd) \<and> slot_number (APDU_Cmd_P1 cmd) < ct_num_slots ct) (CardTerminal_ResetCT h ct cmd) (ct_good (APDU_Cmd_P1 cmd = CTBCS_P1_CT_KERNEL) ct)"
proof -
  let ?p1 = "APDU_Cmd_P1 cmd" and ?p2 = "APDU_Cmd_P2 cmd"
  let ?sn = "slot_number ?p1"
  let ?R = "is_interface ?p1 \<and> ?sn < ct_num_slots ct"
  have kernel: "gives_or (\<lambda>_. ?R) (reset_slots h ct 0) (ct_good True ct)"
    by (rule yields_or_conseq [OF gives_reset_slots [OF assms(2)]]) (auto simp: ct_good_def)
  have icc: "gives_or (\<lambda>_. True) (out_bind (CT_Slot_Release h sl) (\<lambda>(ret, sl1).
      if ret \<noteq> OK then ct_reply ret CTBCS_SW_RESET_ERROR (set_slot ct ?sn sl1)
      else out_bind (CT_Slot_Check h sl1 0) (\<lambda>c. case c of
        Inl e \<Rightarrow> ct_reply e CTBCS_SW_RESET_ERROR (set_slot ct ?sn sl1)
      | Inr (present, change) \<Rightarrow>
          if \<not> present then ct_reply OK CTBCS_SW_RESET_ERROR (set_slot ct ?sn sl1)
          else out_bind (probe_command h sl1 cmd) (\<lambda>(ret, sl2).
            if ret \<noteq> OK \<or> CT_Slot_GetICCType sl2 = CT_SLOT_NULL then ct_reply ret CTBCS_SW_RESET_ERROR (set_slot ct ?sn sl2)
            else answer_with (reset_answer h sl2 ?p2) (set_slot ct ?sn sl2))))) (ct_good False ct)"
    if sl: "?sn < ct_num_slots ct" "ct_slots ct ! ?sn = Some sl" "slot_ok sl" for sl
  proof (rule release_then [OF sl(3)], unfold prod.case, rule yields_or_if, goal_cases)
    case (2 ret)
    note rel = released_ok [OF assms(2) sl(1,2)]
    have probe: "gives_or (\<lambda>_. True) (out_bind (probe_command h (slot_released sl) cmd) (\<lambda>(ret, sl2).
        if ret \<noteq> OK \<or> CT_Slot_GetICCType sl2 = CT_SLOT_NULL then ct_reply ret CTBCS_SW_RESET_ERROR (set_slot ct ?sn sl2)
        else answer_with (reset_answer h sl2 ?p2) (set_slot ct ?sn sl2))) (ct_good False ct)"
      by (rule gives_or_probe_answer [OF assms(1,2) sl(1) _ _ answer_length(1)]) (use live_slot [OF _ sl(1,2)] in auto)
    show ?case
    proof (rule gives_or_then [OF gives_or_Check], rule TrueI)
      fix c :: "ct_ret + bool \<times> bool"
      show "gives_or (\<lambda>_. True) (case c of Inl e \<Rightarrow> ct_reply e CTBCS_SW_RESET_ERROR (set_slot ct ?sn (slot_released sl))
        | Inr (present, change) \<Rightarrow>
            if \<not> present then ct_reply OK CTBCS_SW_RESET_ERROR (set_slot ct ?sn (slot_released sl))
            else out_bind (probe_command h (slot_released sl) cmd) (\<lambda>(ret, sl2).
              if ret \<noteq> OK \<or> CT_Slot_GetICCType sl2 = CT_SLOT_NULL then ct_reply ret CTBCS_SW_RESET_ERROR (set_slot ct ?sn sl2)
              else answer_with (reset_answer h sl2 ?p2) (set_slot ct ?sn sl2))) (ct_good False ct)"
        using rel probe by (auto split: sum.split prod.split intro!: ct_reply_good)
    qed
  qed (use released_ok [OF assms(2) sl(1,2)] in \<open>auto intro!: ct_reply_good\<close>)
  show ?thesis
  proof (cases "?p1 = CTBCS_P1_CT_KERNEL")
    case True
    then show ?thesis
      unfolding CardTerminal_ResetCT_def Let_def using assms(2) kernel by (auto intro!: yields_or_if ct_reply_good)
  next
    case False
    have "gives_or (\<lambda>_. ?R) (CardTerminal_ResetCT h ct cmd) (ct_good False ct)"
    proof (cases ?R)
      case True
      then show ?thesis
        unfolding CardTerminal_ResetCT_def Let_def using False assms(2) icc
        by (auto intro!: yields_or_if ct_reply_good on_slot_ok [OF assms(2)])
    qed (use False assms(2) in \<open>auto simp: CardTerminal_ResetCT_def Let_def intro!: ct_reply_good\<close>)
    then show ?thesis using False by simp
  qed
qed

lemma gives_RequestICC:
  assumes "host_ok h" "ct_ok ct"
  shows "gives_or (\<lambda>_. is_interface (APDU_Cmd_P1 cmd) \<and> (ct_num_slots ct \<le> slot_number (APDU_Cmd_P1 cmd) \<or>
      map_option CT_Slot_GetICCType (ct_slots ct ! slot_number (APDU_Cmd_P1 cmd)) = Some CT_SLOT_NULL))
    (CardTerminal_RequestICC h ct cmd) (ct_good False ct)" (is "gives_or (\<lambda>_. _ \<and> ?R) _ _")
proof (cases "is_interface (APDU_Cmd_P1 cmd)")
  case True
  let ?sn = "slot_number (APDU_Cmd_P1 cmd)" and ?p2 = "APDU_Cmd_P2 cmd"
  have in_array: "?sn < length (ct_slots ct)" using assms(2) by (simp add: ct_ok_def slot_number_def CARDTERMINAL_MAX_SLOTS_def)
  have probe: "gives_or (\<lambda>_. True) (out_bind (probe_command h sl cmd) (\<lambda>(ret, sl1).
        if ret \<noteq> OK \<or> CT_Slot_GetICCType sl1 = CT_SLOT_NULL then ct_reply ret CTBCS_SW_REQUEST_ERROR (set_slot ct ?sn sl1)
        else answer_with (request_answer h sl1 ?p2) (set_slot ct ?sn sl1))) (ct_good False ct)"
    if sl: "ct_slots ct ! ?sn = Some sl" "CT_Slot_GetICCType sl = CT_SLOT_NULL" for sl
  proof -
    have sn: "?sn < ct_num_slots ct" using assms(2) sl(1) in_array by (metis ct_ok_def not_le option.distinct(1))
    have "slot_ok sl" using assms(2) sl(1) sn by (auto simp: ct_ok_def)
    then have "slot_free sl" using sl(2) by (rule slot_ok_null)
    then show ?thesis
      by (intro gives_or_probe_answer [OF assms sn _ _ answer_length(2)]) (use live_slot [OF _ sn sl(1)] in auto)
  qed
  have slot: "gives_or (\<lambda>_. ?R) (if CT_Slot_GetICCType sl \<noteq> CT_SLOT_NULL then ct_reply OK CTBCS_SW_REQUEST_CARD_PRESENT ct
      else out_bind (State_Monad.return (command_timeout cmd)) (\<lambda>timeout.
        out_bind (CT_Slot_Check h sl timeout) (\<lambda>c. case c of
          Inl e \<Rightarrow> ct_reply e CTBCS_SW_REQUEST_ERROR ct
        | Inr (present, change) \<Rightarrow>
            if \<not> present then ct_reply OK CTBCS_SW_REQUEST_NO_CARD ct
            else out_bind (probe_command h sl cmd) (\<lambda>(ret, sl1).
              if ret \<noteq> OK \<or> CT_Slot_GetICCType sl1 = CT_SLOT_NULL then ct_reply ret CTBCS_SW_REQUEST_ERROR (set_slot ct ?sn sl1)
              else answer_with (request_answer h sl1 ?p2) (set_slot ct ?sn sl1))))) (ct_good False ct)"
    if "ct_slots ct ! ?sn = Some sl" for sl
  proof (rule yields_or_if, goal_cases)
    case 2
    have any: "gives_or (\<lambda>_. True) (State_Monad.return (command_timeout cmd)) (\<lambda>_. True)" by (simp add: yields_or_def valid_def)
    have "gives_or (\<lambda>_. True) (case c of Inl e \<Rightarrow> ct_reply e CTBCS_SW_REQUEST_ERROR ct
        | Inr (present, change) \<Rightarrow>
            if \<not> present then ct_reply OK CTBCS_SW_REQUEST_NO_CARD ct
            else out_bind (probe_command h sl cmd) (\<lambda>(ret, sl1).
              if ret \<noteq> OK \<or> CT_Slot_GetICCType sl1 = CT_SLOT_NULL then ct_reply ret CTBCS_SW_REQUEST_ERROR (set_slot ct ?sn sl1)
              else answer_with (request_answer h sl1 ?p2) (set_slot ct ?sn sl1))) (ct_good False ct)" for c :: "ct_ret + bool \<times> bool"
      using probe [OF that] 2 assms(2) by (auto split: sum.split prod.split intro!: ct_reply_good)
    then show ?case using 2 that by (simp, intro gives_or_then [OF any] gives_or_then [OF gives_or_Check] TrueI)
  qed (use assms(2) in \<open>auto intro!: ct_reply_good\<close>)
  have none: "?R" if "ct_slots ct ! ?sn = None" using assms(2) that by (cases "?sn < ct_num_slots ct") (auto simp: ct_ok_def)
  show ?thesis
    unfolding CardTerminal_RequestICC_def Let_def on_slot_def using True in_array slot none
    by (auto intro!: yields_or_fault split: option.split)
qed (use assms(2) in \<open>auto simp: CardTerminal_RequestICC_def Let_def intro!: ct_reply_good\<close>)

lemma gives_CardTerminal_Command:
  assumes "host_ok h" "ct_ok ct" "apdu_cmd_wf cmd"
  shows "gives_or (\<lambda>_. \<not> ct_live ct \<or> ct_probes ct cmd \<or> ct_no_slot ct cmd) (CardTerminal_Command h ct cmd)
    (ct_good (APDU_Cmd_Ins cmd = CTBCS_INS_RESET \<and> APDU_Cmd_P1 cmd = CTBCS_P1_CT_KERNEL) ct)"
proof -
  let ?R = "\<not> ct_live ct \<or> ct_probes ct cmd \<or> ct_no_slot ct cmd"
  let ?b = "APDU_Cmd_Ins cmd = CTBCS_INS_RESET \<and> APDU_Cmd_P1 cmd = CTBCS_P1_CT_KERNEL"
  have weak: "gives_or (\<lambda>_. R') m (ct_good b ct)" if "gives_or (\<lambda>_. R) m (ct_good b' ct)" "R \<Longrightarrow> R'" "b' \<Longrightarrow> b"
    for R R' b b' and m :: "('a, ct_result outcome) io"
  proof -
    have "ct_good b' ct x \<Longrightarrow> ct_good b ct x" for x using that(3) by (auto simp: ct_good_def)
    then show ?thesis using that(1,2) unfolding yields_or_def by (elim valid_conseq) auto
  qed
  have reply: "gives_or (\<lambda>_. ?R) (ct_reply OK sw ct) (ct_good ?b ct)" if "length sw = 2" for sw
    using assms(2) that by (intro ct_reply_good) auto
  show ?thesis
  proof (cases "APDU_Cmd_Cla cmd = CTBCS_CLA")
    case True
    show ?thesis
      unfolding CardTerminal_Command_def Let_def
      by (intro yields_or_if reply weak [OF gives_ResetCT [OF assms(1,2)]] weak [OF gives_RequestICC [OF assms(1,2)]]
          weak [OF gives_GetStatus [OF assms(2), of ?R]] weak [OF gives_Eject [OF assms(2) _ assms(3), of ?R]])
         (auto simp: True ct_probes_def ct_no_slot_def)
  qed (use reply [of CTBCS_SW_WRONG_CLA] in \<open>simp add: CardTerminal_Command_def\<close>)
qed

lemma no_slot_faults: "ct_ok ct \<Longrightarrow> ct_no_slot ct cmd \<Longrightarrow> run_state (CardTerminal_Command h ct cmd) p = (Faults, p)"
  by (auto simp: ct_ok_def ct_no_slot_def CardTerminal_Command_def CardTerminal_RequestICC_def on_slot_def slot_number_def ctbcs_ins
      CARDTERMINAL_MAX_SLOTS_def Let_def split: if_splits)

text \<open>
  (C20) A CT-BCS command to a terminal in a consistent state, whatever the reader and the
  cards do.  When it returns the terminal is consistent again with the same number of slots,
  \<open>OK\<close> comes with a response, and every response is well formed; the slots keep their
  devices, except after a reset of the whole terminal that failed.  While every slot has its
  device the program can fault only in a RESET or REQUEST that probes the card of a slot, and
  in a REQUEST to the second interface of a terminal with one slot; the latter always faults,
  before anything is sent to the reader.
\<close>

theorem CardTerminal_Command_consistent:
  assumes "host_ok h" "ct_ok ct" "apdu_cmd_wf cmd" "run_state (CardTerminal_Command h ct cmd) p = (r, p')"
  shows "(r = Faults \<longrightarrow> ct_live ct \<longrightarrow> ct_probes ct cmd \<or> ct_no_slot ct cmd) \<and>
    (ct_no_slot ct cmd \<longrightarrow> r = Faults \<and> p' = p) \<and>
    (\<forall>ret rsp ct'. r = Returns (ret, rsp, ct') \<longrightarrow> ct_ok ct' \<and> ct_num_slots ct' = ct_num_slots ct \<and>
       (ret = OK \<longrightarrow> rsp \<noteq> None) \<and> (\<forall>a. rsp = Some a \<longrightarrow> apdu_rsp_wf a) \<and>
       (ct_live ct \<longrightarrow> ct_live ct' \<or>
          ret \<noteq> OK \<and> APDU_Cmd_Ins cmd = CTBCS_INS_RESET \<and> APDU_Cmd_P1 cmd = CTBCS_P1_CT_KERNEL))"
proof -
  have *: "(r = Faults \<longrightarrow> \<not> ct_live ct \<or> ct_probes ct cmd \<or> ct_no_slot ct cmd) \<and>
      (\<forall>x. r = Returns x \<longrightarrow> ct_good (APDU_Cmd_Ins cmd = CTBCS_INS_RESET \<and> APDU_Cmd_P1 cmd = CTBCS_P1_CT_KERNEL) ct x)"
    using yields_orD [OF gives_CardTerminal_Command [OF assms(1-3)] TrueI assms(4)] .
  then have good: "\<And>x. r = Returns x \<Longrightarrow> ct_good (APDU_Cmd_Ins cmd = CTBCS_INS_RESET \<and> APDU_Cmd_P1 cmd = CTBCS_P1_CT_KERNEL) ct x" by blast
  show ?thesis
  proof (intro conjI allI impI)
    fix ret rsp ct'
    assume "r = Returns (ret, rsp, ct')"
    from good [OF this] show "ct_ok ct'" "ct_num_slots ct' = ct_num_slots ct" "ret = OK \<Longrightarrow> rsp \<noteq> None" "rsp = Some a \<Longrightarrow> apdu_rsp_wf a"
      "ct_live ct \<Longrightarrow> ct_live ct' \<or> ret \<noteq> OK \<and> APDU_Cmd_Ins cmd = CTBCS_INS_RESET \<and> APDU_Cmd_P1 cmd = CTBCS_P1_CT_KERNEL" for a
      by (auto simp: ct_good_def)
  next
    assume "ct_no_slot ct cmd"
    from no_slot_faults [OF assms(2) this, of h p] show "r = Faults" "p' = p" using assms(4) by simp_all
  qed (use * in blast)
qed

text \<open>A terminal with a memory card in its only slot, and a request for the status of the slots.\<close>

definition sample_terminal :: CardTerminal where
  "sample_terminal = \<lparr>ct_io = True, ct_slots = [Some sample_slot, None], ct_num_slots = 1\<rparr>"

definition sample_status :: APDU_Cmd where
  "sample_status = \<lparr>command = [0x20, 0x13, 0x00, 0x80, 0x00], cmd_length = 5\<rparr>"

lemma sample_terminal_ok: "ct_ok sample_terminal" "ct_live sample_terminal"
  using sample_slot_ok
  by (auto simp: ct_ok_def ct_live_def sample_terminal_def CARDTERMINAL_MAX_SLOTS_def sample_slot_def less_Suc_eq numeral_2_eq_2)

lemma sample_status_wf: "apdu_cmd_wf sample_status"
  by (simp add: apdu_cmd_wf_def sample_status_def apdu_sizes)

lemma CardTerminal_Command_consistent_witness:
  "fst (run_state (CardTerminal_Command sample_host sample_terminal sample_status) (script_port [[0x40, 0x00]] (Some default_properties))) \<noteq> Faults"
  using CardTerminal_Command_consistent [OF sample_host_ok sample_terminal_ok(1) sample_status_wf prod.collapse [symmetric],
      of "script_port [[0x40, 0x00]] (Some default_properties)", THEN conjunct1] sample_terminal_ok(2)
  by (auto simp: ct_probes_def ct_no_slot_def sample_status_def APDU_Cmd_Ins_def ctbcs_ins)

section \<open>Initialisation and closing\<close>

lemma IFD_Init_slot:
  "run_state (IFD_Towitoko_Init os ifd sn) p = ((IFD_TOWITOKO_OK, ifd'), p') \<Longrightarrow> slot ifd' = sn \<and> (sn = 0 \<or> sn = 1)"
  by (auto simp: IFD_Towitoko_Init_def IFD_Towitoko_GetReaderInfo_def IFD_TOWITOKO_SLOT_A_def IFD_TOWITOKO_SLOT_B_def Let_def
      split: prod.splits if_splits option.splits)

lemma Slot_Init_result:
  assumes "run_state (CT_Slot_Init h CT_Slot_New sn) p = ((ret, sl), p')"
  shows "(ret = OK \<and> (\<exists>ifd. sl = CT_Slot_Clear\<lparr>slot_ifd := Some ifd\<rparr> \<and> slot ifd = sn)) \<or> (ret = ERR_TRANS \<and> sl = CT_Slot_Clear)"
  using assms
  by (auto simp: CT_Slot_Init_def CT_Slot_New_def split: prod.splits if_splits dest: IFD_Init_slot) (simp add: CT_Slot_Clear_def)

text \<open>The slots \<open>init_slots\<close> has created, from the first on.\<close>

definition fresh_slot :: "nat \<Rightarrow> CT_Slot \<Rightarrow> bool" where
  "fresh_slot i sl \<longleftrightarrow> (\<exists>ifd. sl = CT_Slot_Clear\<lparr>slot_ifd := Some ifd\<rparr> \<and> slot ifd = of_nat i)"

lemma fresh_slot_ok: "fresh_slot i sl \<Longrightarrow> slot_ok sl \<and> slot_ifd sl \<noteq> None"
  by (auto simp: fresh_slot_def)

lemma init_slots_cases:
  assumes "ct_num_slots ct = n" "n < CARDTERMINAL_MAX_SLOTS"
  obtains (last) sl p1 where "fresh_slot n sl" "CT_Slot_IsLast sl = Returns True"
      "run_state (init_slots h ct) p = (Returns (OK, n, set_slot (ct\<lparr>ct_num_slots := n + 1\<rparr>) n sl), p1)"
    | (more) sl p1 where "fresh_slot n sl" "CT_Slot_IsLast sl = Returns False"
      "run_state (init_slots h ct) p = run_state (init_slots h (set_slot (ct\<lparr>ct_num_slots := n + 1\<rparr>) n sl)) p1"
    | (error) p1 where "run_state (init_slots h ct) p = (Returns (ERR_TRANS, n, set_slot (ct\<lparr>ct_num_slots := n + 1\<rparr>) n CT_Slot_Clear), p1)"
proof -
  obtain ret sl p1 where run: "run_state (CT_Slot_Init h CT_Slot_New (of_nat n)) p = ((ret, sl), p1)" by (metis surj_pair)
  have unfold: "run_state (init_slots h ct) p = (let ct' = set_slot (ct\<lparr>ct_num_slots := n + 1\<rparr>) n sl in
      if ret \<noteq> OK then (Returns (ret, n, ct'), p1)
      else case CT_Slot_IsLast sl of Returns True \<Rightarrow> (Returns (OK, n, ct'), p1) | Returns False \<Rightarrow> run_state (init_slots h ct') p1
        | _ \<Rightarrow> (Faults, p1))"
    using assms run by (subst init_slots.simps) (simp add: Let_def not_le [symmetric] split: outcome.split bool.split)
  show thesis
    using Slot_Init_result [OF run]
  proof (elim disjE conjE exE)
    fix ifd
    assume "ret = OK" "sl = CT_Slot_Clear\<lparr>slot_ifd := Some ifd\<rparr>" "slot ifd = of_nat n"
    then have f: "fresh_slot n sl" "CT_Slot_IsLast sl = Returns True \<or> CT_Slot_IsLast sl = Returns False" "ret = OK"
      by (auto simp: fresh_slot_def CT_Slot_IsLast_def)
    then show thesis
    proof (elim disjE, goal_cases)
      case 1
      show ?thesis by (rule last [OF f(1) 1(3)]) (simp add: unfold f(3) 1(3) Let_def)
    next
      case 2
      show ?thesis by (rule more [OF f(1) 2(3)]) (simp add: unfold f(3) 2(3) Let_def)
    qed
  next
    assume "ret = ERR_TRANS" "sl = CT_Slot_Clear"
    then show thesis by (intro error) (simp add: unfold Let_def)
  qed
qed

lemma last_slot: "fresh_slot 1 sl \<Longrightarrow> CT_Slot_IsLast sl = Returns True"
  by (auto simp: fresh_slot_def CT_Slot_IsLast_def IFD_Towitoko_GetSlot_def IFD_Towitoko_GetNumSlots_def)

lemma first_slot: "fresh_slot 0 sl \<Longrightarrow> \<exists>ifd. slot_ifd sl = Some ifd \<and> CT_Slot_IsLast sl = Returns (IFD_Towitoko_GetNumSlots ifd = 1)"
  by (auto simp: fresh_slot_def CT_Slot_IsLast_def IFD_Towitoko_GetSlot_def IFD_Towitoko_GetNumSlots_def)

definition init_result :: "ct_ret \<Rightarrow> nat \<Rightarrow> CardTerminal \<Rightarrow> bool" where
  "init_result ret i ct \<longleftrightarrow> ct_num_slots ct = i + 1 \<and> length (ct_slots ct) = 2 \<and> i < 2 \<and> ct_io ct \<and>
     (if ret = OK
      then (\<exists>sl ifd. ct_slots ct ! 0 = Some sl \<and> fresh_slot 0 sl \<and> slot_ifd sl = Some ifd \<and> ct_num_slots ct = IFD_Towitoko_GetNumSlots ifd) \<and>
           (if i = 0 then ct_slots ct ! 1 = None else (\<exists>sl. ct_slots ct ! 1 = Some sl \<and> fresh_slot 1 sl))
      else ret = ERR_TRANS \<and> (i = 0 \<longrightarrow> ct_slots ct ! 1 = None))"

lemma init_slots_result:
  assumes "ct_slots ct = [None, None]" "ct_num_slots ct = 0" "ct_io ct"
  shows "\<exists>ret i ct' p'. run_state (init_slots h ct) p = (Returns (ret, i, ct'), p') \<and> init_result ret i ct'"
proof -
  note simps = assms set_slot_def init_result_def CARDTERMINAL_MAX_SLOTS_def
  have num: "IFD_Towitoko_GetNumSlots ifd = 1 \<or> IFD_Towitoko_GetNumSlots ifd = 2" for ifd by (simp add: IFD_Towitoko_GetNumSlots_def)
  have small: "0 < CARDTERMINAL_MAX_SLOTS" "1 < CARDTERMINAL_MAX_SLOTS" by (simp_all add: CARDTERMINAL_MAX_SLOTS_def)
  show ?thesis
  proof (rule init_slots_cases [OF assms(2) small(1), of h p], goal_cases)
    case (1 sl p1)
    then show ?case using first_slot [OF 1(1)] by (auto simp: simps)
  next
    case (2 sl p1)
    let ?ct = "set_slot (ct\<lparr>ct_num_slots := 0 + 1\<rparr>) 0 sl"
    obtain ifd where ifd: "slot_ifd sl = Some ifd" "IFD_Towitoko_GetNumSlots ifd = 2" using first_slot [OF 2(1)] 2(2) num by auto
    have one: "ct_num_slots ?ct = 1" by simp
    show ?case
      by (rule init_slots_cases [OF one small(2), of h p1]) (use 2(1,3) ifd last_slot in \<open>auto simp: simps\<close>)
  qed (auto simp: simps)
qed

lemma init_result_ok:
  assumes "init_result OK i ct"
  shows "ct_ok ct \<and> ct_live ct"
proof -
  have i: "i = 0 \<or> i = 1" using assms by (auto simp: init_result_def)
  have first: "\<exists>sl. ct_slots ct ! 0 = Some sl \<and> fresh_slot 0 sl" using assms by (auto simp: init_result_def)
  have second: "if i = 0 then ct_slots ct ! 1 = None else \<exists>sl. ct_slots ct ! 1 = Some sl \<and> fresh_slot 1 sl"
    using assms by (auto simp: init_result_def)
  show ?thesis
    using assms i first second fresh_slot_ok
    by (auto simp: ct_ok_def ct_live_def init_result_def CARDTERMINAL_MAX_SLOTS_def less_Suc_eq numeral_2_eq_2)
qed

lemma init_result_undone:
  assumes "init_result ret i ct" "ret \<noteq> OK"
  shows "delete_slots (ct_num_slots ct) i (ct_slots ct) = [None, None]"
proof -
  obtain a b where "ct_slots ct = [a, b]" using assms(1) by (auto simp: init_result_def numeral_2_eq_2 length_Suc_conv)
  moreover have "i = 0 \<or> i = 1" using assms by (auto simp: init_result_def)
  ultimately show ?thesis using assms by (auto simp: init_result_def)
qed

text \<open>
  Opening a terminal always returns.  On success it has as many slots as its reader
  has, each with its device and without a card; otherwise everything is given back and the
  terminal is as it was created.
\<close>

lemma CardTerminal_Init_slots:
  "\<exists>ret ct p'. run_state (CardTerminal_Init h CardTerminal_New port_nr) p = (Returns (ret, ct), p') \<and>
     (if ret = OK
      then ct_ok ct \<and> ct_live ct \<and> ct_io ct \<and> (\<exists>sl ifd. ct_slots ct ! 0 = Some sl \<and> slot_ifd sl = Some ifd \<and> ct_num_slots ct = IFD_Towitoko_GetNumSlots ifd)
      else ret = ERR_TRANS \<and> ct = CardTerminal_Clear)"
proof -
  let ?port = "if port_nr AND 0x8000 = 0x8000 then port_nr AND 0x7FFF else port_nr"
  let ?nr = "if host_win32_com h then unat ?port else unat ?port + 1"
  obtain p1 where p1: "run_state (modify_io (\<lambda>_. IO_Serial_New)) p = ((), p1)" by (cases "run_state (modify_io (\<lambda>_. IO_Serial_New)) p") auto
  obtain ok p2 where p2: "run_state (IO_Serial_Init (host_os h) ?nr (port_nr AND 0x8000 = 0x8000) True) p1 = (ok, p2)" by (metis surj_pair)
  let ?ct = "CardTerminal_New\<lparr>ct_io := True, ct_num_slots := 0\<rparr>"
  have "ct_slots ?ct = [None, None]" by (simp add: CardTerminal_New_def CardTerminal_Clear_def CARDTERMINAL_MAX_SLOTS_def numeral_2_eq_2)
  then obtain ret i ct' p3 where p3: "run_state (init_slots h ?ct) p2 = (Returns (ret, i, ct'), p3)" "init_result ret i ct'"
    using init_slots_result [of ?ct h p2] by auto
  have clear: "CardTerminal_New\<lparr>ct_io := False\<rparr> = CardTerminal_Clear"
    "\<lparr>ct_io = False, ct_slots = [None, None], ct_num_slots = 0\<rparr> = CardTerminal_Clear"
    by (simp_all add: CardTerminal_New_def CardTerminal_Clear_def CARDTERMINAL_MAX_SLOTS_def numeral_2_eq_2)
  show ?thesis
  proof (cases "ok \<and> ret = OK")
    case True
    then have "run_state (CardTerminal_Init h CardTerminal_New port_nr) p = (Returns (OK, ct'), p3)"
      using p1 p2 p3(1) by (simp add: CardTerminal_Init_def Let_def)
    then show ?thesis using p3(2) True init_result_ok [of i ct'] by (auto simp: init_result_def)
  next
    case False
    then have "\<exists>p'. run_state (CardTerminal_Init h CardTerminal_New port_nr) p = (Returns (ERR_TRANS, CardTerminal_Clear), p')"
      using p1 p2 p3 init_result_undone [OF p3(2)] clear by (auto simp: CardTerminal_Init_def Let_def init_result_def split: prod.splits)
    then show ?thesis by auto
  qed
qed

lemma close_slots_returns:
  "\<forall>sl. Some sl \<in> set slots \<longrightarrow> slot_ok sl \<Longrightarrow> returns P (close_slots h slots ret) (\<lambda>_ _. True)"
proof (induction h slots ret arbitrary: P rule: close_slots.induct)
  case (3 h sl slots ret)
  have "returns P (CT_Slot_Close h sl) (\<lambda>_ _. True)"
    by (rule returns_conseq [OF CT_Slot_Close_ok]) (use "3.prems" in auto)
  then show ?case using 3 by (auto intro!: returns_after split: prod.split)
qed (auto intro!: returns_return)

lemma CardTerminal_Close_ok:
  assumes "ct_ok ct"
  shows "\<exists>ret p'. run_state (CardTerminal_Close h ct) p = (Returns (ret, CardTerminal_Clear), p')"
proof -
  have slots: "\<forall>sl. Some sl \<in> set (take (ct_num_slots ct) (ct_slots ct)) \<longrightarrow> slot_ok sl"
    using assms by (auto simp: ct_ok_def set_conv_nth)
  have "returns (\<lambda>_. True) (CardTerminal_Close h ct) (\<lambda>(ret, ct') _. ct' = CardTerminal_Clear)"
    unfolding CardTerminal_Close_def
    by (intro returns_after close_slots_returns [OF slots] returns_if returns_return returns_lift) (auto simp: valid_def split: prod.split)
  from returnsD [OF this, of p] show ?thesis by auto
qed

section \<open>What the host gets to see of a card\<close>

text \<open>
  (C29) The answers to RESET and REQUEST.  For an asynchronous card the whole answer to
  reset comes back with the status 90 01 exactly when it has at most 33 bytes, and overruns
  the local array otherwise; for a memory card the four bytes of the answer come with
  90 00.  The historical bytes of a memory card come with the status after RESET, but
  without it after REQUEST, where the bytes themselves take its place.
\<close>

theorem reset_request_answers:
  assumes "host_ok h" "slot_ok sl" "CT_Slot_GetAtr sl = Returns atr"
  shows "case atr of
      Async_Atr a \<Rightarrow>
        (if length (ATR_GetRaw a) \<le> 33
         then \<exists>b. reset_answer h sl 0x01 = Returns (b, length (ATR_GetRaw a) + 2) \<and> request_answer h sl 0x01 = reset_answer h sl 0x01 \<and>
                take (length (ATR_GetRaw a) + 2) b = ATR_GetRaw a @ [0x90, 0x01]
         else reset_answer h sl 0x01 = Faults \<and> request_answer h sl 0x01 = Faults)
    | Sync_Atr a \<Rightarrow>
        (\<exists>b. reset_answer h sl 0x01 = Returns (b, 6) \<and> take 6 b = ATR_Sync_GetRaw a @ [0x90, 0x00]) \<and>
        (\<exists>b. reset_answer h sl 0x02 = Returns (b, 4) \<and> take 4 b = ATR_Sync_GetHistoricalBytes a @ [0x90, 0x00]) \<and>
        (\<exists>b. request_answer h sl 0x02 = Returns (b, 2) \<and> take 2 b = ATR_Sync_GetHistoricalBytes a)
    | No_Atr \<Rightarrow> slot_free sl"
proof -
  have buffer: "length (host_buffer h) = 35" using assms(1) by (simp add: host_ok_def)
  have kind: "CT_Slot_GetICCType sl = CT_SLOT_ICC_ASYNC \<longleftrightarrow> (\<exists>a. atr = Async_Atr a)" "atr = No_Atr \<Longrightarrow> slot_free sl"
    using assms(2,3)
    by (auto simp: slot_ok_def slot_free_def async_ready_def sync_ready_def CT_Slot_GetICCType_def CT_Slot_GetAtr_def ct_slot_types
        ICC_Async_GetAtr_def ICC_Sync_GetAtr_def split: slot_card.splits slot_handler.splits option.splits)
  note simps = reset_answer_def request_answer_def with_atr_def assms(3) put_status_def fill_atr_def fill_hist_def memcpy_at_def buffer
    ctbcs_p2 ctbcs_sw kind(1) Let_def
  show ?thesis
    using kind(2) by (auto simp: simps ATR_Sync_GetRaw_def ATR_Sync_GetHistoricalBytes_def split: slot_atr.split)
qed

lemma reset_request_answers_witness:
  "\<exists>b. request_answer sample_host sample_slot 0x02 = Returns (b, 2) \<and> take 2 b = ATR_Sync_GetHistoricalBytes ATR_Sync_New"
proof -
  have "CT_Slot_GetAtr sample_slot = Returns (Sync_Atr ATR_Sync_New)"
    by (simp add: CT_Slot_GetAtr_def sample_slot_def ct_slot_types sample_icc_def ICC_Sync_GetAtr_def)
  from reset_request_answers [OF sample_host_ok sample_slot_ok this] show ?thesis by simp
qed

text \<open>A reader with one slot at the scripted line: it answers the parity command and says which reader it is.\<close>

definition reader_port :: "script port" where
  "reader_port = (script_port [[0x01], [IFD_TOWITOKO_CHIPDRIVE_MICRO, 0x05, 0x00]] None)\<lparr>p_io := IO_Serial_New\<rparr>"

lemma reader_line:
  "run_state (IO_Serial_Init script_os 1 False True) reader_port =
     (True, reader_port\<lparr>p_io := IO_Serial_New\<lparr>com := 1, fd := 3, props := Some pnp_properties\<rparr>\<rparr>)"
  by (simp add: IO_Serial_Init_def IO_Serial_InitPnP_def reader_port_def script_port_def IO_Serial_SetProperties_def set_line_def pnp_silent
      pnp_properties_def IO_Serial_SetPropertiesCache_def IO_Serial_New_def IO_Serial_Clear_def del: pnp_read.simps)

lemma reader_slot:
  "\<exists>ct p. run_state (init_slots sample_host \<lparr>ct_io = True, ct_slots = replicate 2 None, ct_num_slots = 0\<rparr>)
     (reader_port\<lparr>p_io := IO_Serial_New\<lparr>com := 1, fd := 3, props := Some pnp_properties\<rparr>\<rparr>) = (Returns (OK, 0, ct), p)"
  by (subst init_slots.simps)
     (simp add: CARDTERMINAL_MAX_SLOTS_def sample_host_def reader_port_def script_port_def pnp_properties_def CT_Slot_Init_def IFD_Towitoko_Init_def
      IFD_TOWITOKO_SLOT_A_def IO_Serial_SetProperties_def set_line_def IO_Serial_SetPropertiesCache_def IFD_Towitoko_SetBaudrate_def
      IFD_Towitoko_SetParity_def IFD_Towitoko_GetReaderInfo_def ifd_eval IFD_TOWITOKO_PARITY_EVEN_def IFD_TOWITOKO_PARITY_ODD_def
      IFD_Towitoko_GetMaxBaudrate_def CT_Slot_IsLast_def IFD_TOWITOKO_UNKNOWN_def IFD_TOWITOKO_KARTENZWERG_def
      IFD_TOWITOKO_CHIPDRIVE_MICRO_def IFD_Towitoko_GetNumSlots_def IFD_TOWITOKO_CHIPDRIVE_EXT_II_def Let_def)

lemma reader_Init:
  "\<exists>ct p. run_state (CardTerminal_Init sample_host CardTerminal_New 0) \<lparr>p_io = IO_Serial_New, p_dev = p_dev reader_port\<rparr> = (Returns (OK, ct), p)"
proof -
  have "host_os sample_host = script_os" "\<not> host_win32_com sample_host" by (simp_all add: sample_host_def)
  moreover have "\<lparr>p_io = IO_Serial_New, p_dev = p_dev reader_port\<rparr> = reader_port" "reader_port\<lparr>p_io := IO_Serial_New\<rparr> = reader_port"
    by (simp_all add: reader_port_def)
  ultimately show ?thesis
    using reader_line reader_slot by (auto simp: CardTerminal_Init_def CardTerminal_New_def CardTerminal_Clear_def CARDTERMINAL_MAX_SLOTS_def Let_def)
qed

end
