(* ===== verification/CtList.thy ===== *)
theory CtList
  imports ProtocolBase
begin

text \<open>
  The list of card terminals, \<^verbatim>\<open>src/src/ct-api/ct_list.c\<close>: a singly linked list with
  a pointer to its last node and a counter, in an explicit store.  Addresses are natural
  numbers; an access to an address without a node is a fault.  \<open>'c\<close> is the type of the
  references to terminals that the nodes hold.
\<close>

section \<open>Data\<close>

record 'c CT_List_Node =
  node_ctn :: "16 word"
  node_ct :: 'c
  node_next :: "nat option"

record CT_List =
  list_first :: "nat option"
  list_last :: "nat option"
  list_elements :: int

text \<open>The store of nodes, with the next address \<open>malloc\<close> gives out.\<close>

record 'c node_store =
  nodes :: "nat \<rightharpoonup> 'c CT_List_Node"
  brk :: nat

section \<open>Operations\<close>

definition CT_List_New :: CT_List where
  "CT_List_New = \<lparr>list_first = None, list_last = None, list_elements = 0\<rparr>"

text \<open>The results of the operations: what the function returns, the store and the list.\<close>

definition CT_List_AddCardTerminal ::
    "'c node_store \<Rightarrow> CT_List option \<Rightarrow> 'c \<Rightarrow> 16 word \<Rightarrow> (bool \<times> 'c node_store \<times> CT_List option) outcome" where
  "CT_List_AddCardTerminal st list ct ctn =
     (case list of
        None \<Rightarrow> Returns (False, st, list)
      | Some l \<Rightarrow>
          let a = brk st;
              st1 = st\<lparr>nodes := (nodes st)(a \<mapsto> \<lparr>node_ctn = ctn, node_ct = ct, node_next = None\<rparr>), brk := a + 1\<rparr>;
              grown = list_elements l + 1
          in if list_first l = None
             then Returns (True, st1, Some (l\<lparr>list_first := Some a, list_last := Some a, list_elements := grown\<rparr>))
             else (case list_last l of
                 None \<Rightarrow> Faults
               | Some b \<Rightarrow> (case nodes st1 b of
                   None \<Rightarrow> Faults
                 | Some nd \<Rightarrow> Returns (True, st1\<lparr>nodes := (nodes st1)(b \<mapsto> nd\<lparr>node_next := Some a\<rparr>)\<rparr>,
                     Some (l\<lparr>list_last := Some a, list_elements := grown\<rparr>)))))"

text \<open>The loops over the list; one turn per node.\<close>

fun find_node :: "nat \<Rightarrow> (nat \<rightharpoonup> 'c CT_List_Node) \<Rightarrow> nat option \<Rightarrow> 16 word \<Rightarrow> 'c option outcome" where
  "find_node 0 ns node ctn = Runs_on"
| "find_node (Suc fuel) ns None ctn = Returns None"
| "find_node (Suc fuel) ns (Some a) ctn =
     (case ns a of
        None \<Rightarrow> Faults
      | Some nd \<Rightarrow> if node_ctn nd = ctn then Returns (Some (node_ct nd)) else find_node fuel ns (node_next nd) ctn)"

definition CT_List_GetCardTerminal :: "'c node_store \<Rightarrow> CT_List option \<Rightarrow> 16 word \<Rightarrow> 'c option outcome" where
  "CT_List_GetCardTerminal st list ctn =
     (case list of None \<Rightarrow> Returns None | Some l \<Rightarrow> find_node (brk st + 1) (nodes st) (list_first l) ctn)"

definition CT_List_GetNumberOfElements :: "CT_List option \<Rightarrow> int" where
  "CT_List_GetNumberOfElements list = (case list of None \<Rightarrow> 0 | Some l \<Rightarrow> list_elements l)"

text \<open>The search for the node to remove: the node before it, and the node.\<close>

fun locate_node ::
    "nat \<Rightarrow> (nat \<rightharpoonup> 'c CT_List_Node) \<Rightarrow> nat option \<Rightarrow> nat option \<Rightarrow> 16 word \<Rightarrow> (nat option \<times> nat option) outcome" where
  "locate_node 0 ns previous current ctn = Runs_on"
| "locate_node (Suc fuel) ns previous None ctn = Returns (previous, None)"
| "locate_node (Suc fuel) ns previous (Some a) ctn =
     (case ns a of
        None \<Rightarrow> Faults
      | Some nd \<Rightarrow> if node_ctn nd = ctn then Returns (previous, Some a) else locate_node fuel ns (Some a) (node_next nd) ctn)"

text \<open>The terminal of the removed node, which the function deletes, is part of the result.\<close>

definition CT_List_RemoveCardTerminal ::
    "'c node_store \<Rightarrow> CT_List option \<Rightarrow> 16 word \<Rightarrow> ('c option \<times> 'c node_store \<times> CT_List option) outcome" where
  "CT_List_RemoveCardTerminal st list ctn =
     (case list of
        None \<Rightarrow> Returns (None, st, list)
      | Some l \<Rightarrow> (case locate_node (brk st + 1) (nodes st) None (list_first l) ctn of
          Returns (previous, Some a) \<Rightarrow> (case nodes st a of
            None \<Rightarrow> Faults
          | Some nd \<Rightarrow>
              let shrunk = list_elements l - 1;
                  l1 = (if Some a = list_last l then l\<lparr>list_last := previous, list_elements := shrunk\<rparr> else l\<lparr>list_elements := shrunk\<rparr>)
              in if Some a = list_first l
                 then Returns (Some (node_ct nd), st\<lparr>nodes := (nodes st)(a := None)\<rparr>, Some (l1\<lparr>list_first := node_next nd\<rparr>))
                 else (case previous of
                     None \<Rightarrow> Faults
                   | Some b \<Rightarrow> (case nodes st b of
                       None \<Rightarrow> Faults
                     | Some pd \<Rightarrow>
                         Returns (Some (node_ct nd),
                           st\<lparr>nodes := (nodes st)(b \<mapsto> pd\<lparr>node_next := node_next nd\<rparr>, a := None)\<rparr>, Some l1))))
        | Returns (_, None) \<Rightarrow> Returns (None, st, list)
        | Faults \<Rightarrow> Faults
        | Runs_on \<Rightarrow> Runs_on))"

text \<open>The deletion of a list: the terminals it deletes, in order, and the store.\<close>

fun delete_nodes :: "nat \<Rightarrow> (nat \<rightharpoonup> 'c CT_List_Node) \<Rightarrow> nat option \<Rightarrow> ('c list \<times> (nat \<rightharpoonup> 'c CT_List_Node)) outcome" where
  "delete_nodes 0 ns node = Runs_on"
| "delete_nodes (Suc fuel) ns None = Returns ([], ns)"
| "delete_nodes (Suc fuel) ns (Some a) =
     (case ns a of
        None \<Rightarrow> Faults
      | Some nd \<Rightarrow> (case delete_nodes fuel (ns(a := None)) (node_next nd) of
          Returns (cts, ns') \<Rightarrow> Returns (node_ct nd # cts, ns')
        | Faults \<Rightarrow> Faults
        | Runs_on \<Rightarrow> Runs_on))"

definition CT_List_Delete :: "'c node_store \<Rightarrow> CT_List option \<Rightarrow> ('c list \<times> 'c node_store) outcome" where
  "CT_List_Delete st list =
     (case list of
        None \<Rightarrow> Returns ([], st)
      | Some l \<Rightarrow> (case delete_nodes (brk st + 1) (nodes st) (list_first l) of
          Returns (cts, ns) \<Rightarrow> Returns (cts, st\<lparr>nodes := ns\<rparr>)
        | Faults \<Rightarrow> Faults
        | Runs_on \<Rightarrow> Runs_on))"

section \<open>The linked list as a sequence\<close>

text \<open>\<open>chain ns p as\<close>: following the links from \<open>p\<close> visits the addresses \<open>as\<close> and ends with \<open>NULL\<close>.\<close>

fun chain :: "(nat \<rightharpoonup> 'c CT_List_Node) \<Rightarrow> nat option \<Rightarrow> nat list \<Rightarrow> bool" where
  "chain ns p [] \<longleftrightarrow> p = None"
| "chain ns p (a # as) \<longleftrightarrow> p = Some a \<and> (\<exists>nd. ns a = Some nd \<and> chain ns (node_next nd) as)"

definition list_ok :: "'c node_store \<Rightarrow> CT_List \<Rightarrow> nat list \<Rightarrow> bool" where
  "list_ok st l as \<longleftrightarrow> chain (nodes st) (list_first l) as \<and> distinct as \<and> (\<forall>a \<in> set as. a < brk st) \<and>
     list_last l = (if as = [] then None else Some (last as)) \<and> list_elements l = int (length as)"

definition entries :: "(nat \<rightharpoonup> 'c CT_List_Node) \<Rightarrow> nat list \<Rightarrow> (16 word \<times> 'c) list" where
  "entries ns as = map (\<lambda>a. (node_ctn (the (ns a)), node_ct (the (ns a)))) as"

lemma chain_cong: "(\<And>a. a \<in> set as \<Longrightarrow> ns a = ns' a) \<Longrightarrow> chain ns p as = chain ns' p as"
  by (induction as arbitrary: p) auto

lemma chain_update [simp]: "a \<notin> set as \<Longrightarrow> chain (ns(a := x)) p as = chain ns p as"
  by (rule chain_cong) auto

lemma entries_update [simp]: "a \<notin> set as \<Longrightarrow> entries (ns(a := x)) as = entries ns as"
  by (auto simp: entries_def)

lemma chain_nodes: "chain ns p as \<Longrightarrow> a \<in> set as \<Longrightarrow> \<exists>nd. ns a = Some nd"
  by (induction as arbitrary: p) auto

lemma chain_append: "chain ns p (as @ [b]) \<Longrightarrow> \<exists>nd. ns b = Some nd \<and> node_next nd = None"
  by (induction as arbitrary: p) auto

lemma find_node_chain:
  "chain ns p as \<Longrightarrow> length as < fuel \<Longrightarrow> find_node fuel ns p ctn = Returns (map_of (entries ns as) ctn)"
proof (induction as arbitrary: p fuel)
  case Nil
  then show ?case by (cases fuel) (auto simp: entries_def)
next
  case (Cons a as)
  then show ?case by (cases fuel) (auto simp: entries_def)
qed

lemma store_bound: "distinct as \<Longrightarrow> \<forall>a \<in> set as. a < n \<Longrightarrow> length as \<le> n"
  using card_mono [of "{..<n}" "set as"] by (auto simp: distinct_card subset_iff)

lemma GetCardTerminal_entries:
  "list_ok st l as \<Longrightarrow> CT_List_GetCardTerminal st (Some l) ctn = Returns (map_of (entries (nodes st) as) ctn)"
  unfolding CT_List_GetCardTerminal_def list_ok_def
  using store_bound [of as "brk st"] by (auto intro!: find_node_chain)

section \<open>Adding\<close>

lemma chain_relink:
  assumes "chain ns p (as @ b # bs)" "distinct (as @ b # bs)" "ns b = Some nd" "chain ns' q cs" "b \<notin> set cs"
    "\<And>x. x \<in> set as \<Longrightarrow> ns' x = ns x"
  shows "chain (ns'(b \<mapsto> nd\<lparr>node_next := q\<rparr>)) p (as @ b # cs)"
  using assms(1,2,6) by (induction as arbitrary: p) (use assms(3,4,5) in auto)

lemma chain_app: "chain ns p (as @ bs) \<Longrightarrow> \<exists>q. chain ns q bs"
  by (induction as arbitrary: p) auto

lemma entries_append [simp]: "entries ns (as @ bs) = entries ns as @ entries ns bs"
  by (simp add: entries_def)

lemma entries_relink: "ns b = Some nd \<Longrightarrow> entries (ns(b \<mapsto> nd\<lparr>node_next := q\<rparr>)) as = entries ns as"
  by (auto simp: entries_def)

lemma AddCardTerminal_entries:
  assumes "list_ok st l as"
  shows "\<exists>st' l'. CT_List_AddCardTerminal st (Some l) ct ctn = Returns (True, st', Some l') \<and> list_ok st' l' (as @ [brk st]) \<and>
    entries (nodes st') (as @ [brk st]) = entries (nodes st) as @ [(ctn, ct)]"
proof (cases "as = []")
  case True
  then show ?thesis using assms by (auto simp: CT_List_AddCardTerminal_def list_ok_def entries_def Let_def)
next
  case False
  let ?a = "brk st"
  let ?new = "\<lparr>node_ctn = ctn, node_ct = ct, node_next = None\<rparr>"
  obtain bs b where as: "as = bs @ [b]" using False by (metis rev_exhaust)
  obtain nd where nd: "nodes st b = Some nd" using assms chain_append as by (fastforce simp: list_ok_def)
  have fresh: "?a \<notin> set as" "b \<noteq> ?a" using assms as by (auto simp: list_ok_def)
  have first: "list_first l \<noteq> None" using assms False by (cases as) (auto simp: list_ok_def)
  have "chain ((nodes st)(?a \<mapsto> ?new, b \<mapsto> nd\<lparr>node_next := Some ?a\<rparr>)) (list_first l) (bs @ b # [?a])"
    by (rule chain_relink [where bs = "[]" and ns = "nodes st"]) (use assms as nd fresh in \<open>auto simp: list_ok_def\<close>)
  moreover have "entries ((nodes st)(?a \<mapsto> ?new, b \<mapsto> nd\<lparr>node_next := Some ?a\<rparr>)) (as @ [?a]) = entries (nodes st) as @ [(ctn, ct)]"
    using fresh nd by (subst entries_relink) (auto simp: entries_def)
  ultimately show ?thesis
    using assms as nd fresh first by (auto simp: CT_List_AddCardTerminal_def list_ok_def Let_def)
qed

section \<open>Removing\<close>

lemma locate_node_chain:
  assumes "chain ns p as" "length as < fuel"
  shows "(ctn \<notin> fst ` set (entries ns as) \<and> (\<exists>q. locate_node fuel ns prev p ctn = Returns (q, None))) \<or>
    (\<exists>pre a post. as = pre @ a # post \<and> ctn \<notin> fst ` set (entries ns pre) \<and> fst (hd (entries ns [a])) = ctn \<and>
       locate_node fuel ns prev p ctn = Returns (if pre = [] then prev else Some (last pre), Some a))"
  using assms
proof (induction as arbitrary: p fuel prev)
  case Nil
  then show ?case by (cases fuel) (auto simp: entries_def)
next
  case (Cons a as)
  obtain k nd where k: "fuel = Suc k" "p = Some a" "ns a = Some nd" "chain ns (node_next nd) as" "length as < k"
    using Cons.prems by (cases fuel) auto
  show ?case
  proof (cases "node_ctn nd = ctn")
    case True
    then show ?thesis using k by (intro disjI2 exI [of _ "[]"] exI [of _ a] exI [of _ as]) (simp add: entries_def)
  next
    case False
    from Cons.IH [OF k(4,5), of "Some a"] show ?thesis
    proof (elim disjE conjE exE)
      fix pre b post
      assume "as = pre @ b # post" "ctn \<notin> fst ` set (entries ns pre)" "fst (hd (entries ns [b])) = ctn"
        "locate_node k ns (Some a) (node_next nd) ctn = Returns (if pre = [] then Some a else Some (last pre), Some b)"
      then show ?thesis
        using k False by (intro disjI2 exI [of _ "a # pre"] exI [of _ b] exI [of _ post]) (auto simp: entries_def)
    qed (use k False in \<open>auto simp: entries_def\<close>)
  qed
qed

text \<open>Unlinking the node at \<open>a\<close>, which is not the first one.\<close>

lemma chain_unlink:
  assumes "chain ns p (pre @ b # a # post)" "distinct (pre @ b # a # post)" "ns a = Some nd" "ns b = Some pd"
  shows "chain (ns(b \<mapsto> pd\<lparr>node_next := node_next nd\<rparr>, a := None)) p (pre @ b # post)"
proof -
  have "chain ns (node_next nd) post" using assms(1,3) by (induction pre arbitrary: p) auto
  then have "chain (ns(b \<mapsto> pd\<lparr>node_next := node_next nd\<rparr>)) p (pre @ b # post)"
    by (intro chain_relink [OF assms(1,2,4)]) (use assms(2) in auto)
  then show ?thesis using assms(2) by simp
qed

lemma RemoveCardTerminal_entries:
  assumes "list_ok st l as" "distinct (map fst (entries (nodes st) as))"
  shows "\<exists>st' l' as'. CT_List_RemoveCardTerminal st (Some l) ctn = Returns (map_of (entries (nodes st) as) ctn, st', Some l') \<and>
    list_ok st' l' as' \<and> entries (nodes st') as' = filter (\<lambda>e. fst e \<noteq> ctn) (entries (nodes st) as)"
proof -
  let ?ns = "nodes st"
  have ok: "chain ?ns (list_first l) as" "length as < brk st + 1" "distinct as" using assms(1) store_bound [of as "brk st"] by (auto simp: list_ok_def)
  from locate_node_chain [OF ok(1,2), of ctn None] show ?thesis
  proof (elim disjE conjE exE)
    fix q
    assume "ctn \<notin> fst ` set (entries ?ns as)" "locate_node (brk st + 1) ?ns None (list_first l) ctn = Returns (q, None)"
    moreover from this(1) have "map_of (entries ?ns as) ctn = None" "filter (\<lambda>e. fst e \<noteq> ctn) (entries ?ns as) = entries ?ns as"
      by (auto simp: map_of_eq_None_iff filter_id_conv)
    ultimately show ?thesis using assms(1) by (auto simp: CT_List_RemoveCardTerminal_def)
  next
    fix pre a post
    assume as: "as = pre @ a # post" and pre: "ctn \<notin> fst ` set (entries ?ns pre)" and a: "fst (hd (entries ?ns [a])) = ctn"
      and loc: "locate_node (brk st + 1) ?ns None (list_first l) ctn = Returns (if pre = [] then None else Some (last pre), Some a)"
    obtain nd where nd: "?ns a = Some nd" using chain_nodes [OF ok(1), of a] as by auto
    have ea: "entries ?ns [a] = [(ctn, node_ct nd)]" using a nd by (simp add: entries_def)
    have post: "ctn \<notin> fst ` set (entries ?ns post)" using assms(2) as ea by (auto simp: entries_def)
    have es: "entries ?ns as = entries ?ns pre @ (ctn, node_ct nd) # entries ?ns post" using ea as by (simp add: entries_def)
    have look: "map_of (entries ?ns as) ctn = Some (node_ct nd)"
      using pre unfolding es by (simp add: map_add_Some_iff map_of_eq_None_iff)
    have keep: "filter (\<lambda>e. fst e \<noteq> ctn) xs = xs" if "ctn \<notin> fst ` set xs" for xs :: "(16 word \<times> 'a) list"
      using that by (auto simp: filter_id_conv)
    have rest: "filter (\<lambda>e. fst e \<noteq> ctn) (entries ?ns as) = entries ?ns (pre @ post)"
      using keep [OF pre] keep [OF post] unfolding es by simp
    show ?thesis
    proof (cases pre rule: rev_cases)
      case Nil
      let ?l = "l\<lparr>list_first := node_next nd, list_last := (if Some a = list_last l then None else list_last l), list_elements := list_elements l - 1\<rparr>"
      have "CT_List_RemoveCardTerminal st (Some l) ctn = Returns (Some (node_ct nd), st\<lparr>nodes := ?ns(a := None)\<rparr>, Some ?l)"
        using loc nd as Nil assms(1) by (auto simp: CT_List_RemoveCardTerminal_def Let_def list_ok_def)
      moreover have "list_ok (st\<lparr>nodes := ?ns(a := None)\<rparr>) ?l post"
        using assms(1) as Nil nd by (cases post rule: rev_cases) (auto simp: list_ok_def)
      moreover have "entries (?ns(a := None)) post = entries ?ns post" using ok(3) as by auto
      ultimately show ?thesis using look rest Nil by auto
    next
      case (snoc pre' b)
      obtain pd where pd: "?ns b = Some pd" using chain_nodes [OF ok(1), of b] as snoc by auto
      let ?n = "?ns(b \<mapsto> pd\<lparr>node_next := node_next nd\<rparr>, a := None)"
      let ?l = "l\<lparr>list_last := (if Some a = list_last l then Some b else list_last l), list_elements := list_elements l - 1\<rparr>"
      have first: "Some a \<noteq> list_first l" using ok(1,3) as snoc by (cases pre') auto
      have "CT_List_RemoveCardTerminal st (Some l) ctn = Returns (Some (node_ct nd), st\<lparr>nodes := ?n\<rparr>, Some ?l)"
        using loc nd pd snoc first by (auto simp: CT_List_RemoveCardTerminal_def Let_def)
      moreover have "list_ok (st\<lparr>nodes := ?n\<rparr>) ?l (pre @ post)"
        using assms(1) as snoc chain_unlink [of ?ns "list_first l" pre' b a post nd pd] nd pd ok(1,3)
        by (cases post rule: rev_cases) (auto simp: list_ok_def)
      moreover have "entries ?n (pre @ post) = entries ?ns (pre @ post)"
        using ok(3) as pd by (subst entries_update) (auto simp: entries_relink)
      ultimately show ?thesis using look rest by auto
    qed
  qed
qed

section \<open>The list as a table\<close>

text \<open>
  The contract of a table in memory: \<open>rep t m\<close> relates a representation to the map it
  stands for, and the operations return.
\<close>

locale key_table =
  fixes rep :: "'t \<Rightarrow> ('k \<rightharpoonup> 'v) \<Rightarrow> bool"
    and look :: "'t \<Rightarrow> 'k \<Rightarrow> 'v option outcome"
    and ins :: "'t \<Rightarrow> 'k \<Rightarrow> 'v \<Rightarrow> 't outcome"
    and del :: "'t \<Rightarrow> 'k \<Rightarrow> 't outcome"
  assumes look_rep: "rep t m \<Longrightarrow> look t k = Returns (m k)"
    and ins_rep: "rep t m \<Longrightarrow> m k = None \<Longrightarrow> \<exists>t'. ins t k v = Returns t' \<and> rep t' (m(k \<mapsto> v))"
    and del_rep: "rep t m \<Longrightarrow> \<exists>t'. del t k = Returns t' \<and> rep t' (m(k := None))"
begin

lemma rep_unique: "rep t m \<Longrightarrow> rep t m' \<Longrightarrow> m = m'"
  using look_rep by (metis ext outcome.inject)

lemma look_ins:
  assumes "rep t m" "m k = None" "ins t k v = Returns t'"
  shows "look t' j = (if j = k then Returns (Some v) else look t j)"
  using ins_rep [OF assms(1,2), of v] assms(1,3) look_rep by auto

lemma look_del:
  assumes "rep t m" "del t k = Returns t'"
  shows "look t' j = (if j = k then Returns None else look t j)"
  using del_rep [OF assms(1), of k] assms look_rep by auto

lemma del_ins:
  assumes "rep t m" "m k = None"
  shows "\<exists>t1 t2. ins t k v = Returns t1 \<and> del t1 k = Returns t2 \<and> rep t2 m"
proof -
  obtain t1 where t1: "ins t k v = Returns t1" "rep t1 (m(k \<mapsto> v))" using ins_rep [OF assms] by blast
  obtain t2 where "del t1 k = Returns t2" "rep t2 ((m(k \<mapsto> v))(k := None))" using del_rep [OF t1(2)] by blast
  then show ?thesis using t1(1) assms(2) by (auto simp: fun_upd_idem)
qed

end

definition list_table :: "'c node_store \<times> CT_List option \<Rightarrow> (16 word \<rightharpoonup> 'c) \<Rightarrow> bool" where
  "list_table t m \<longleftrightarrow> (case t of
     (st, None) \<Rightarrow> m = Map.empty
   | (st, Some l) \<Rightarrow> \<exists>as. list_ok st l as \<and> distinct (map fst (entries (nodes st) as)) \<and> m = map_of (entries (nodes st) as))"

text \<open>An entry is added to the list, created first when there is none, and removed from it.\<close>

definition table_add :: "'c node_store \<times> CT_List option \<Rightarrow> 16 word \<Rightarrow> 'c \<Rightarrow> ('c node_store \<times> CT_List option) outcome" where
  "table_add t ctn ct = (case t of (st, list) \<Rightarrow>
     (case CT_List_AddCardTerminal st (case list of None \<Rightarrow> Some CT_List_New | Some l \<Rightarrow> Some l) ct ctn of
        Returns (_, st', list') \<Rightarrow> Returns (st', list') | Faults \<Rightarrow> Faults | Runs_on \<Rightarrow> Runs_on))"

definition table_remove :: "'c node_store \<times> CT_List option \<Rightarrow> 16 word \<Rightarrow> ('c node_store \<times> CT_List option) outcome" where
  "table_remove t ctn = (case t of (st, list) \<Rightarrow>
     (case CT_List_RemoveCardTerminal st list ctn of Returns (_, st', list') \<Rightarrow> Returns (st', list') | Faults \<Rightarrow> Faults | Runs_on \<Rightarrow> Runs_on))"

lemma Get_table: "list_table (st, list) m \<Longrightarrow> CT_List_GetCardTerminal st list ctn = Returns (m ctn)"
  by (cases list) (auto simp: list_table_def GetCardTerminal_entries, simp add: CT_List_GetCardTerminal_def)

lemma new_list_ok: "list_ok st CT_List_New []"
  by (simp add: list_ok_def CT_List_New_def)

lemma Add_table:
  assumes "list_table (st, Some l) m" "m ctn = None"
  shows "\<exists>st' l'. CT_List_AddCardTerminal st (Some l) ct ctn = Returns (True, st', Some l') \<and> list_table (st', Some l') (m(ctn \<mapsto> ct))"
proof -
  obtain as where as: "list_ok st l as" "distinct (map fst (entries (nodes st) as))" "m = map_of (entries (nodes st) as)"
    using assms(1) by (auto simp: list_table_def)
  have "ctn \<notin> fst ` set (entries (nodes st) as)" using assms(2) as(3) by (simp add: map_of_eq_None_iff)
  moreover have "map_of (es @ [(k, v)]) = (map_of es)(k \<mapsto> v)" if "k \<notin> fst ` set es" for es :: "(16 word \<times> 'a) list" and k v
    using that by (induction es) (auto simp: fun_eq_iff)
  ultimately show ?thesis
    using AddCardTerminal_entries [OF as(1), of ct ctn] as(2,3) unfolding list_table_def prod.case option.case by fastforce
qed

lemma map_of_filter_key: "map_of (filter (\<lambda>e. fst e \<noteq> k) es) = (map_of es)(k := None)"
  by (induction es) (auto simp: fun_eq_iff)

lemma distinct_filter_key: "distinct (map fst es) \<Longrightarrow> distinct (map fst (filter P es))"
  by (induction es) auto

lemma Remove_table:
  assumes "list_table (st, list) m"
  shows "\<exists>st' list'. CT_List_RemoveCardTerminal st list ctn = Returns (m ctn, st', list') \<and> list_table (st', list') (m(ctn := None)) \<and>
    (list' = None \<longleftrightarrow> list = None)"
proof (cases list)
  case (Some l)
  then obtain as where as: "list_ok st l as" "distinct (map fst (entries (nodes st) as))" "m = map_of (entries (nodes st) as)"
    using assms by (auto simp: list_table_def)
  from RemoveCardTerminal_entries [OF as(1,2), of ctn] obtain st' l' as' where
    r: "CT_List_RemoveCardTerminal st (Some l) ctn = Returns (m ctn, st', Some l')" "list_ok st' l' as'"
      "entries (nodes st') as' = filter (\<lambda>e. fst e \<noteq> ctn) (entries (nodes st) as)" using as(3) by auto
  have "list_table (st', Some l') (m(ctn := None))"
    unfolding list_table_def prod.case option.case
    using r(2,3) as(2,3) by (intro exI [of _ as']) (simp add: map_of_filter_key distinct_filter_key)
  then show ?thesis using r(1) Some by simp
qed (use assms in \<open>auto simp: list_table_def CT_List_RemoveCardTerminal_def\<close>)

interpretation terminals: key_table list_table "\<lambda>t. case t of (st, list) \<Rightarrow> CT_List_GetCardTerminal st list" table_add table_remove
proof unfold_locales
  fix t :: "'a node_store \<times> CT_List option" and m k v
  assume rep: "list_table t m"
  obtain st list where t: "t = (st, list)" by force
  show "(case t of (st, list) \<Rightarrow> CT_List_GetCardTerminal st list) k = Returns (m k)" using Get_table rep t by auto
  show "\<exists>t'. table_remove t k = Returns t' \<and> list_table t' (m(k := None))"
    using Remove_table [of st list m k] rep t by (auto simp: table_remove_def)
  assume "m k = None"
  moreover have "list_table (st, Some CT_List_New) Map.empty"
    using new_list_ok [of st] by (auto simp: list_table_def entries_def intro: exI [of _ "[]"])
  ultimately show "\<exists>t'. table_add t k v = Returns t' \<and> list_table t' (m(k \<mapsto> v))"
    using rep t Add_table [of st _ m k v] by (cases list) (fastforce simp: table_add_def list_table_def)+
qed

lemma delete_nodes_chain:
  "chain ns p as \<Longrightarrow> distinct as \<Longrightarrow> length as < fuel \<Longrightarrow>
   delete_nodes fuel ns p = Returns (map snd (entries ns as), \<lambda>a. if a \<in> set as then None else ns a)"
proof (induction as arbitrary: p fuel ns)
  case Nil
  then show ?case by (cases fuel) (auto simp: entries_def)
next
  case (Cons a as)
  obtain k nd where k: "fuel = Suc k" "p = Some a" "ns a = Some nd" "chain ns (node_next nd) as" "length as < k"
    using Cons.prems by (cases fuel) auto
  have a: "a \<notin> set as" "distinct as" using Cons.prems(2) by simp_all
  have "chain (ns(a := None)) (node_next nd) as" using k(4) a(1) by simp
  from Cons.IH [OF this a(2) k(5)]
  have "delete_nodes k (ns(a := None)) (node_next nd) = Returns (map snd (entries ns as), \<lambda>b. if b \<in> set as then None else (ns(a := None)) b)"
    unfolding entries_update [OF a(1)] .
  moreover have "map snd (entries ns (a # as)) = node_ct nd # map snd (entries ns as)" using k(3) by (simp add: entries_def)
  ultimately show ?case using k(1-3) by (simp add: fun_eq_iff)
qed

lemma Delete_table:
  assumes "list_table (st, list) m"
  shows "\<exists>cts st'. CT_List_Delete st list = Returns (cts, st') \<and> set cts = ran m"
proof (cases list)
  case (Some l)
  then obtain as where as: "list_ok st l as" "distinct (map fst (entries (nodes st) as))" "m = map_of (entries (nodes st) as)"
    using assms by (auto simp: list_table_def)
  then have "delete_nodes (brk st + 1) (nodes st) (list_first l) =
      Returns (map snd (entries (nodes st) as), \<lambda>a. if a \<in> set as then None else nodes st a)"
    using store_bound [of as "brk st"] by (intro delete_nodes_chain) (auto simp: list_ok_def)
  then show ?thesis using as Some by (auto simp: CT_List_Delete_def ran_distinct)
qed (use assms in \<open>auto simp: CT_List_Delete_def list_table_def\<close>)

lemma Elements_table:
  assumes "list_table (st, list) m"
  shows "CT_List_GetNumberOfElements list = int (card (dom m))"
proof (cases list)
  case (Some l)
  then obtain as where as: "list_ok st l as" "distinct (map fst (entries (nodes st) as))" "m = map_of (entries (nodes st) as)"
    using assms by (auto simp: list_table_def)
  have "card (dom m) = length (entries (nodes st) as)"
    using distinct_card [OF as(2)] as(3) by (simp add: dom_map_of_conv_image_fst)
  then show ?thesis using as(1) Some by (simp add: CT_List_GetNumberOfElements_def list_ok_def entries_def)
qed (use assms in \<open>simp add: list_table_def CT_List_GetNumberOfElements_def\<close>)

text \<open>
  (C21) The linked list implements a finite map from numbers to terminals: the lookup
  returns the entry of the map, a new number is added to it, and removing a number yields
  its entry and takes it out of the map, wherever its node is in the list; the counter is
  the number of entries, and the deletion of the list deletes exactly the terminals in it.
\<close>

theorem CT_List_refines_map:
  assumes "list_table (st, list) m"
  shows "CT_List_GetCardTerminal st list ctn = Returns (m ctn) \<and>
    CT_List_GetNumberOfElements list = int (card (dom m)) \<and>
    (list \<noteq> None \<and> m ctn = None \<longrightarrow>
      (\<exists>st' list'. CT_List_AddCardTerminal st list ct ctn = Returns (True, st', list') \<and> list_table (st', list') (m(ctn \<mapsto> ct)))) \<and>
    (\<exists>st' list'. CT_List_RemoveCardTerminal st list ctn = Returns (m ctn, st', list') \<and> list_table (st', list') (m(ctn := None))) \<and>
    (\<exists>cts st'. CT_List_Delete st list = Returns (cts, st') \<and> set cts = ran m)"
proof (intro conjI impI)
  show "CT_List_GetCardTerminal st list ctn = Returns (m ctn)" by (rule Get_table [OF assms])
  show "CT_List_GetNumberOfElements list = int (card (dom m))" by (rule Elements_table [OF assms])
  show "\<exists>st' list'. CT_List_RemoveCardTerminal st list ctn = Returns (m ctn, st', list') \<and> list_table (st', list') (m(ctn := None))"
    using Remove_table [OF assms] by blast
  show "\<exists>cts st'. CT_List_Delete st list = Returns (cts, st') \<and> set cts = ran m" by (rule Delete_table [OF assms])
  assume "list \<noteq> None \<and> m ctn = None"
  then show "\<exists>st' list'. CT_List_AddCardTerminal st list ct ctn = Returns (True, st', list') \<and> list_table (st', list') (m(ctn \<mapsto> ct))"
    using Add_table [of st "the list" m ctn ct] assms by auto
qed

lemma CT_List_refines_map_witness:
  "\<exists>st list. CT_List_AddCardTerminal \<lparr>nodes = Map.empty, brk = 0\<rparr> (Some CT_List_New) True 7 = Returns (True, st, list) \<and>
     list_table (st, list) [7 \<mapsto> True]"
proof -
  have "list_table (\<lparr>nodes = Map.empty, brk = 0\<rparr>, Some CT_List_New) (Map.empty :: 16 word \<rightharpoonup> bool)"
    using new_list_ok by (auto simp: list_table_def entries_def intro!: exI [of _ "[]"])
  from CT_List_refines_map [OF this, of 7 True] show ?thesis by auto
qed

end
