(* ===== verification/CtApi.thy ===== *)
theory CtApi
  imports CardTerminal CtList
begin

text \<open>
  The entry points of the CT-API, \<^verbatim>\<open>src/src/ct-api/ctapi.c\<close>: opening and closing a
  terminal and sending a command to it or to one of its cards.  The state holds the global
  list, the nodes and the terminals in memory, and the devices; every terminal has its own
  serial port.  The calls are modelled one after the other: the mutexes of the code are not
  part of the model.
\<close>

section \<open>The state\<close>

text \<open>A terminal in memory is the structure with its serial port; the list holds addresses of terminals.\<close>

record 'd api =
  api_list :: "CT_List option"
  api_store :: "nat node_store"
  api_terms :: "nat \<rightharpoonup> CardTerminal \<times> IO_Serial"
  api_brk :: nat
  api_dev :: 'd

type_synonym ('d, 'a) api_io = "('d api, 'a outcome) state"

definition find_terminal :: "16 word \<Rightarrow> ('d, nat option) api_io" where
  "find_terminal ctn = State (\<lambda>s. (CT_List_GetCardTerminal (api_store s) (api_list s) ctn, s))"

text \<open>An operation on the terminal at an address; a terminal that was freed is a fault.\<close>

definition on_terminal :: "nat \<Rightarrow> (CardTerminal \<Rightarrow> ('d, ('a \<times> CardTerminal) outcome) io) \<Rightarrow> ('d, 'a) api_io" where
  "on_terminal a m = State (\<lambda>s. case api_terms s a of
     None \<Rightarrow> (Faults, s)
   | Some (ct, io) \<Rightarrow> (case run_state (m ct) \<lparr>p_io = io, p_dev = api_dev s\<rparr> of
       (Returns (x, ct'), p') \<Rightarrow> (Returns x, s\<lparr>api_terms := (api_terms s)(a \<mapsto> (ct', p_io p')), api_dev := p_dev p'\<rparr>)
     | (Faults, p') \<Rightarrow> (Faults, s\<lparr>api_dev := p_dev p'\<rparr>)
     | (Runs_on, p') \<Rightarrow> (Runs_on, s\<lparr>api_dev := p_dev p'\<rparr>)))"

definition new_terminal :: "('d, nat) api_io" where
  "new_terminal = State (\<lambda>s. (Returns (api_brk s),
     s\<lparr>api_terms := (api_terms s)(api_brk s \<mapsto> (CardTerminal_New, IO_Serial_New)), api_brk := api_brk s + 1\<rparr>))"

definition delete_terminal :: "nat \<Rightarrow> ('d, unit) api_io" where
  "delete_terminal a = State (\<lambda>s. (Returns (), s\<lparr>api_terms := (api_terms s)(a := None)\<rparr>))"

text \<open>The list is created for the first terminal.\<close>

definition add_terminal :: "nat \<Rightarrow> 16 word \<Rightarrow> ('d, bool) api_io" where
  "add_terminal a ctn = State (\<lambda>s.
     case CT_List_AddCardTerminal (api_store s) (if api_list s = None then Some CT_List_New else api_list s) a ctn of
       Returns (ok, st, list) \<Rightarrow> (Returns ok, s\<lparr>api_store := st, api_list := list\<rparr>)
     | Faults \<Rightarrow> (Faults, s)
     | Runs_on \<Rightarrow> (Runs_on, s))"

definition delete_list :: "('d, unit) api_io" where
  "delete_list = State (\<lambda>s.
     case CT_List_Delete (api_store s) (api_list s) of
       Returns (cts, st) \<Rightarrow> (Returns (), s\<lparr>api_store := st, api_list := None, api_terms := (api_terms s) |` (- set cts)\<rparr>)
     | Faults \<Rightarrow> (Faults, s)
     | Runs_on \<Rightarrow> (Runs_on, s))"

definition remove_terminal :: "16 word \<Rightarrow> ('d, unit) api_io" where
  "remove_terminal ctn = State (\<lambda>s.
     case CT_List_RemoveCardTerminal (api_store s) (api_list s) ctn of
       Returns (ct, st, list) \<Rightarrow> (Returns (), s\<lparr>api_store := st, api_list := list,
         api_terms := (case ct of None \<Rightarrow> api_terms s | Some a \<Rightarrow> (api_terms s)(a := None))\<rparr>)
     | Faults \<Rightarrow> (Faults, s)
     | Runs_on \<Rightarrow> (Runs_on, s))"

section \<open>The entry points\<close>

definition CT_init :: "'d host \<Rightarrow> 16 word \<Rightarrow> 16 word \<Rightarrow> ('d, ct_ret) api_io" where
  "CT_init h ctn port_nr =
     out_bind (find_terminal ctn) (\<lambda>found. case found of
       Some _ \<Rightarrow> out_return ERR_CT
     | None \<Rightarrow>
         out_bind new_terminal (\<lambda>a.
         out_bind (on_terminal a (\<lambda>ct. CardTerminal_Init h ct port_nr)) (\<lambda>ret.
           if ret = OK then
             out_bind (out_lift (State (\<lambda>s. (api_list s = None, s)))) (\<lambda>empty.
             out_bind (add_terminal a ctn) (\<lambda>ok.
               if ok then out_return OK
               else
                 out_bind (on_terminal a (CardTerminal_Close h)) (\<lambda>_.
                 out_bind (delete_terminal a) (\<lambda>_.
                 out_bind (if empty then delete_list else out_return ()) (\<lambda>_. out_return ERR_MEMORY)))))
           else out_bind (delete_terminal a) (\<lambda>_. out_return ret))))"

definition CT_close :: "'d host \<Rightarrow> 16 word \<Rightarrow> ('d, ct_ret) api_io" where
  "CT_close h ctn =
     out_bind (find_terminal ctn) (\<lambda>found. case found of
       None \<Rightarrow> out_return ERR_CT
     | Some a \<Rightarrow>
         out_bind (on_terminal a (CardTerminal_Close h)) (\<lambda>ret.
         out_bind (remove_terminal ctn) (\<lambda>_.
         out_bind (out_lift (State (\<lambda>s. (CT_List_GetNumberOfElements (api_list s), s)))) (\<lambda>n.
         out_bind (if n = 0 then delete_list else out_return ()) (\<lambda>_. out_return ret)))))"

text \<open>
  The copy of the response: \<open>lr\<close> is the caller's \<open>unsigned short\<close>, \<open>rsp\<close> the
  caller's array.  The length of the response is converted to a \<open>short\<close>, the smaller of
  the two lengths back to an \<open>unsigned short\<close>; of a response that is too long the end
  is copied.
\<close>

definition short_of :: "nat \<Rightarrow> int" where
  "short_of n = sint (of_nat n :: 16 word)"

definition copy_response :: "APDU_Rsp \<Rightarrow> 16 word \<Rightarrow> byte list \<Rightarrow> ct_ret \<Rightarrow> (ct_ret \<times> 16 word \<times> byte list) outcome" where
  "copy_response r lr rsp ret =
     (let len = short_of (APDU_Rsp_RawLen r);
          remain = max (len - uint lr) 0;
          lr' = of_int (min (uint lr) len) :: 16 word
      in case bytes_at (APDU_Rsp_Raw r) (nat remain) (unat lr') of
           None \<Rightarrow> Faults
         | Some bs \<Rightarrow> (case memcpy_at rsp 0 bs of
             None \<Rightarrow> Faults
           | Some rsp' \<Rightarrow> Returns (if remain > 0 then ERR_MEMORY else ret, lr', rsp')))"

text \<open>The command to the reader or to a card, its answer: the code, the response, and the addresses \<open>dad\<close> and \<open>sad\<close> afterwards.\<close>

definition terminal_data ::
    "'d host \<Rightarrow> CardTerminal \<Rightarrow> byte \<Rightarrow> byte \<Rightarrow> APDU_Cmd \<Rightarrow> ('d, ((ct_ret \<times> APDU_Rsp option \<times> byte \<times> byte) \<times> CardTerminal) outcome) io" where
  "terminal_data h ct dad sad cmd =
     (if dad = 1 then
        out_bind (CardTerminal_Command h ct cmd) (\<lambda>(ret, rsp, ct'). out_return ((ret, rsp, 1, 1), ct'))
      else
        let number = (if dad = 0 then 0 else unat dad - 1)
        in case CardTerminal_GetSlot ct number of
             None \<Rightarrow> out_return ((ERR_INVALID, None, sad, 1), ct)
           | Some sl \<Rightarrow>
               out_bind (CT_Slot_Command h sl cmd None) (\<lambda>(ret, rsp, sl').
                 out_return ((ret, rsp, sad, if CT_Slot_GetICCType sl' \<noteq> CT_SLOT_NULL then dad else 1), set_slot ct number sl')))"

definition CT_data ::
    "'d host \<Rightarrow> 16 word \<Rightarrow> byte \<Rightarrow> byte \<Rightarrow> byte list \<Rightarrow> 16 word \<Rightarrow> byte list \<Rightarrow> ('d, ct_ret \<times> byte \<times> byte \<times> 16 word \<times> byte list) api_io" where
  "CT_data h ctn dad sad cmd lr rsp =
     out_bind (find_terminal ctn) (\<lambda>found. case found of
       None \<Rightarrow> out_return (ERR_CT, dad, sad, lr, rsp)
     | Some a \<Rightarrow> (case APDU_Cmd_New cmd (length cmd) of
         None \<Rightarrow> out_return (ERR_MEMORY, dad, sad, lr, rsp)
       | Some apdu_cmd \<Rightarrow>
           out_bind (on_terminal a (\<lambda>ct. terminal_data h ct dad sad apdu_cmd)) (\<lambda>(ret, apdu_rsp, dad', sad'). case apdu_rsp of
             None \<Rightarrow> out_return (ret, dad', sad', 0, rsp)
           | Some r \<Rightarrow> (case copy_response r lr rsp ret of
               Returns (ret', lr', rsp') \<Rightarrow> out_return (ret', dad', sad', lr', rsp')
             | _ \<Rightarrow> out_fault))))"

section \<open>The response in the caller's array\<close>

lemma short_of_mod: "short_of n = (let k = n mod 65536 in if k < 32768 then int k else int k - 65536)"
proof -
  have "(of_nat n :: 16 word) = of_nat (n mod 65536)"
    by (rule word_unat_eq_iff [THEN iffD2]) (simp add: unsigned_of_nat take_bit_eq_mod)
  then have "short_of n = (int (n mod 65536) + 32768) mod 65536 - 32768"
    by (simp add: short_of_def sint_uint unsigned_of_nat signed_take_bit_eq_take_bit_shift take_bit_eq_mod)
  moreover have "n mod 65536 < 65536" by simp
  ultimately show ?thesis using mod_add_self2 [of "int (n mod 65536) - 32768" 65536] by (auto simp: Let_def add.commute)
qed

lemma short_of_small: "n < 32768 \<Longrightarrow> short_of n = int n"
  by (simp add: short_of_mod Let_def)

text \<open>
  (C22) What is copied into the caller's array of at least \<open>lr\<close> bytes, for every length of
  response.  The length is taken modulo 65536.  When that is less than 32768, nothing is
  written outside the \<open>lr\<close> bytes the caller offers: \<open>lr\<close> becomes the number of bytes
  copied, the bytes copied are the end of the response, status included, and
  \<open>ERR_MEMORY\<close> says that its beginning is lost; of a response of 65536 to 65538 bytes,
  though, only the first 0 to 2 bytes are seen.  A response of 32768 to 65535 bytes is copied
  whole whatever \<open>lr\<close> was, and overruns an array that does not hold all of it.
\<close>

theorem copy_response_bounds:
  assumes "apdu_rsp_wf r" "unat lr \<le> length rsp" "k = rsp_length r mod 65536" "n = min (unat lr) k"
  shows "copy_response r lr rsp ret =
    (if k < 32768
     then Returns (if unat lr < k then ERR_MEMORY else ret, of_nat n, drop (k - unat lr) (take k (response r)) @ drop n rsp)
     else if length rsp < k then Faults
     else Returns (ret, of_nat k, take k (response r) @ drop k rsp))"
proof -
  have "k \<le> rsp_length r" "k < 65536" unfolding assms(3) by (rule mod_less_eq_dividend) simp
  then have wf: "k \<le> length (response r)" "k < 65536" using assms(1) by (simp_all add: apdu_rsp_wf_def)
  have u: "uint lr = int (unat lr)" by simp
  show ?thesis
  proof (cases "k < 32768")
    case True
    have len: "short_of (rsp_length r) = int k" using True assms(3) by (simp add: short_of_mod Let_def)
    have lr: "of_int (min (uint lr) (int k)) = (of_nat n :: 16 word)" unfolding u of_nat_min [symmetric] assms(4) by (rule of_int_of_nat_eq)
    have un: "unat (of_nat n :: 16 word) = n" using True assms(4) by (simp add: unsigned_of_nat take_bit_nat_eq_self_iff min_def)
    have re: "nat (max (int k - uint lr) 0) = k - unat lr" unfolding u by arith
    have pos: "0 < max (int k - uint lr) 0 \<longleftrightarrow> unat lr < k" unfolding u by arith
    show ?thesis
      unfolding copy_response_def Let_def APDU_Rsp_RawLen_def APDU_Rsp_Raw_def len lr un re pos
      using wf assms(2,4) True by (auto simp: bytes_at_def memcpy_at_def min_def drop_take)
  next
    case False
    have len: "short_of (rsp_length r) = int k - 65536" using False assms(3) by (simp add: short_of_mod Let_def)
    have "min (uint lr) (int k - 65536) = int k - 65536" "max (int k - 65536 - uint lr) 0 = 0"
      using wf(2) order.trans [OF _ uint_ge_0, of "int k - 65536" lr] by (simp_all add: min_def max_def)
    moreover have word: "(of_int (int k - 65536) :: 16 word) = of_nat k"
      by (rule word_uint_eq_iff [THEN iffD2]) (use mod_add_self2 [of "int k - 65536" 65536] in \<open>simp add: uint_word_of_int unsigned_of_nat take_bit_eq_mod zmod_int del: of_int_diff\<close>)
    moreover have "unat (of_nat k :: 16 word) = k" using wf(2) by (simp add: unsigned_of_nat take_bit_nat_eq_self_iff)
    ultimately show ?thesis
      using False wf(1) by (simp add: copy_response_def Let_def APDU_Rsp_RawLen_def APDU_Rsp_Raw_def len bytes_at_def memcpy_at_def del: of_int_diff)
  qed
qed

lemma copy_response_bounds_witness:
  "copy_response \<lparr>response = [1, 2, 0x90, 0], rsp_length = 4\<rparr> 3 [0, 0, 0, 7] OK = Returns (ERR_MEMORY, 3, [2, 0x90, 0, 7])"
  using copy_response_bounds [of "\<lparr>response = [1, 2, 0x90, 0], rsp_length = 4\<rparr>" 3 "[0, 0, 0, 7]" _ _ OK]
  by (simp add: apdu_rsp_wf_def apdu_sizes)

section \<open>The invariant of the library\<close>

text \<open>
  \<open>api_map s m\<close>: the list maps numbers to addresses by \<open>m\<close>; different numbers
  have different terminals, the terminals in memory are exactly those in the list, each is
  consistent, and there is a list exactly when there is a terminal.
\<close>

definition api_map :: "'d api \<Rightarrow> (16 word \<rightharpoonup> nat) \<Rightarrow> bool" where
  "api_map s m \<longleftrightarrow> list_table (api_store s, api_list s) m \<and> inj_on m (dom m) \<and> ran m = dom (api_terms s) \<and>
     (\<forall>a \<in> dom (api_terms s). a < api_brk s) \<and> (\<forall>a ct io. api_terms s a = Some (ct, io) \<longrightarrow> ct_ok ct) \<and>
     (api_list s = None \<longleftrightarrow> m = Map.empty)"

definition api_ok :: "'d api \<Rightarrow> bool" where
  "api_ok s \<longleftrightarrow> (\<exists>m. api_map s m)"

text \<open>What a host sees of the library: the terminals it has opened, by their numbers.\<close>

definition opened :: "'d api \<Rightarrow> 16 word \<Rightarrow> CardTerminal option" where
  "opened s ctn = (case CT_List_GetCardTerminal (api_store s) (api_list s) ctn of
     Returns (Some a) \<Rightarrow> map_option fst (api_terms s a) | _ \<Rightarrow> None)"

lemma find_map: "api_map s m \<Longrightarrow> CT_List_GetCardTerminal (api_store s) (api_list s) ctn = Returns (m ctn)"
  using terminals.look_rep [of "(api_store s, api_list s)" m ctn] by (simp add: api_map_def)

lemma run_find_terminal: "api_map s m \<Longrightarrow> run_state (find_terminal ctn) s = (Returns (m ctn), s)"
  by (simp add: find_terminal_def find_map)

lemma opened_map: "api_map s m \<Longrightarrow> opened s ctn = Option.bind (m ctn) (\<lambda>a. map_option fst (api_terms s a))"
  by (cases "m ctn") (simp_all add: opened_def find_map)

lemma map_term: "api_map s m \<Longrightarrow> m ctn = Some a \<Longrightarrow> \<exists>ct io. api_terms s a = Some (ct, io) \<and> ct_ok ct"
  unfolding api_map_def by (metis domD ranI surj_pair)

lemma opened_iff: "api_map s m \<Longrightarrow> opened s ctn = None \<longleftrightarrow> m ctn = None"
  by (cases "m ctn") (auto simp: opened_map dest: map_term)

lemma table_finite: "list_table t m \<Longrightarrow> finite (dom m)"
  by (auto simp: list_table_def finite_dom_map_of split: option.splits prod.splits)

lemma opened_update:
  assumes "api_map s m" "api_map s' m'" "\<And>n. n \<noteq> ctn \<Longrightarrow> m' n = m n"
    "\<And>n b. n \<noteq> ctn \<Longrightarrow> m n = Some b \<Longrightarrow> api_terms s' b = api_terms s b"
  shows "opened s' = (opened s)(ctn := opened s' ctn)"
proof
  fix n
  show "opened s' n = ((opened s)(ctn := opened s' ctn)) n"
    using opened_map [OF assms(1), of n] opened_map [OF assms(2), of n] assms(3) [of n] assms(4) [of n] by (cases "m n") auto
qed

lemma map_old: "api_map s m \<Longrightarrow> m n = Some b \<Longrightarrow> b \<noteq> api_brk s"
  unfolding api_map_def by (metis less_irrefl ranI)

lemma map_other: "api_map s m \<Longrightarrow> m ctn = Some a \<Longrightarrow> n \<noteq> ctn \<Longrightarrow> m n = Some b \<Longrightarrow> b \<noteq> a"
  unfolding api_map_def by (metis domI inj_onD)

subsection \<open>Opening\<close>

lemma Add_True: "CT_List_AddCardTerminal st (Some l) ct ctn = Returns (ok, st', list') \<Longrightarrow> ok \<and> list' \<noteq> None"
  by (auto simp: CT_List_AddCardTerminal_def Let_def split: if_splits option.splits)

lemma run_add_terminal:
  assumes "list_table (api_store s, api_list s) m" "m ctn = None"
  shows "\<exists>st list. run_state (add_terminal a ctn) s = (Returns True, s\<lparr>api_store := st, api_list := list\<rparr>) \<and>
    list_table (st, list) (m(ctn \<mapsto> a)) \<and> list \<noteq> None"
proof -
  obtain t where t: "table_add (api_store s, api_list s) ctn a = Returns t" "list_table t (m(ctn \<mapsto> a))"
    using terminals.ins_rep [OF assms, of a] by blast
  then obtain ok st list where *: "CT_List_AddCardTerminal (api_store s) (Some (case api_list s of None \<Rightarrow> CT_List_New | Some l \<Rightarrow> l)) a ctn =
      Returns (ok, st, list)" "t = (st, list)"
    by (auto simp: table_add_def split: outcome.splits option.splits)
  then show ?thesis using Add_True [OF *(1)] t(2) by (cases "api_list s") (auto simp: add_terminal_def)
qed

text \<open>The terminal at the new address joins the map.\<close>

lemma api_map_add:
  assumes "api_map s m" "m ctn = None" "ct_ok ct" "list_table (st, list) (m(ctn \<mapsto> api_brk s))" "list \<noteq> None"
  shows "api_map (s\<lparr>api_brk := api_brk s + 1, api_terms := (api_terms s)(api_brk s \<mapsto> (ct, io)), api_dev := d, api_store := st, api_list := list\<rparr>)
    (m(ctn \<mapsto> api_brk s))"
proof -
  have new: "api_brk s \<notin> ran m" using assms(1) by (auto simp: api_map_def)
  then have "inj_on (m(ctn \<mapsto> api_brk s)) (dom (m(ctn \<mapsto> api_brk s)))"
    using assms(1,2) by (auto simp: api_map_def inj_on_def ran_def)
  moreover have "a < Suc (api_brk s)" if "api_terms s a = Some x" for a x using assms(1) that by (auto simp: api_map_def intro!: less_SucI)
  ultimately show ?thesis using assms by (auto simp: api_map_def)
qed

lemma run_on_terminal:
  "api_terms s a = Some (ct, io) \<Longrightarrow> run_state (m ct) \<lparr>p_io = io, p_dev = api_dev s\<rparr> = (Returns (x, ct'), p') \<Longrightarrow>
   run_state (on_terminal a m) s = (Returns x, s\<lparr>api_terms := (api_terms s)(a \<mapsto> (ct', p_io p')), api_dev := p_dev p'\<rparr>)"
  by (simp add: on_terminal_def)

lemma CT_init_spec:
  assumes "api_map s m"
  shows "\<exists>ret s'. run_state (CT_init h ctn port_nr) s = (Returns ret, s') \<and>
    (if m ctn \<noteq> None then ret = ERR_CT \<and> s' = s
     else if ret = OK then \<exists>ct. api_map s' (m(ctn \<mapsto> api_brk s)) \<and> api_terms s' = (api_terms s)(api_brk s \<mapsto> ct) \<and> ct_live (fst ct)
     else ret = ERR_TRANS \<and> api_map s' m \<and> api_terms s' = api_terms s)"
proof (cases "m ctn")
  case (Some a)
  then show ?thesis using run_find_terminal [OF assms] by (simp add: CT_init_def)
next
  case None
  let ?s1 = "s\<lparr>api_terms := (api_terms s)(api_brk s \<mapsto> (CardTerminal_New, IO_Serial_New)), api_brk := api_brk s + 1\<rparr>"
  obtain ret ct p where init: "run_state (CardTerminal_Init h CardTerminal_New port_nr) \<lparr>p_io = IO_Serial_New, p_dev = api_dev ?s1\<rparr> = (Returns (ret, ct), p)"
    "ret = OK \<Longrightarrow> ct_ok ct \<and> ct_live ct" "ret \<noteq> OK \<Longrightarrow> ret = ERR_TRANS"
    using CardTerminal_Init_slots [of h port_nr "\<lparr>p_io = IO_Serial_New, p_dev = api_dev ?s1\<rparr>"] by (auto split: if_splits)
  let ?s2 = "?s1\<lparr>api_terms := (api_terms ?s1)(api_brk s \<mapsto> (ct, p_io p)), api_dev := p_dev p\<rparr>"
  have s2: "run_state (on_terminal (api_brk s) (\<lambda>ct. CardTerminal_Init h ct port_nr)) ?s1 = (Returns ret, ?s2)"
    using init(1) by (intro run_on_terminal) auto
  have fresh: "api_terms s (api_brk s) = None" using assms by (auto simp: api_map_def)
  show ?thesis
  proof (cases "ret = OK")
    case True
    have "list_table (api_store ?s2, api_list ?s2) m" using assms by (simp add: api_map_def)
    from run_add_terminal [OF this None, of "api_brk s"] obtain st list where
      add: "run_state (add_terminal (api_brk s) ctn) ?s2 = (Returns True, ?s2\<lparr>api_store := st, api_list := list\<rparr>)"
        "list_table (st, list) (m(ctn \<mapsto> api_brk s))" "list \<noteq> None" by blast
    have "run_state (CT_init h ctn port_nr) s = (Returns OK, ?s2\<lparr>api_store := st, api_list := list\<rparr>)"
      using run_find_terminal [OF assms, of ctn] None s2 add(1) True by (simp add: CT_init_def new_terminal_def)
    then show ?thesis using api_map_add [OF assms None _ add(2,3), where ct = ct and io = "p_io p" and d = "p_dev p"] init(2) True None by auto
  next
    case False
    let ?s3 = "?s2\<lparr>api_terms := (api_terms ?s2)(api_brk s := None)\<rparr>"
    have "run_state (CT_init h ctn port_nr) s = (Returns ret, ?s3)"
      using run_find_terminal [OF assms, of ctn] None s2 False by (simp add: CT_init_def new_terminal_def delete_terminal_def)
    moreover have "api_terms ?s3 = api_terms s" using fresh by (auto simp: fun_eq_iff)
    moreover have "api_map ?s3 m" using assms fresh by (auto simp: api_map_def fun_upd_idem less_SucI)
    ultimately show ?thesis using init(3) False None by auto
  qed
qed

subsection \<open>Closing\<close>

text \<open>The list without the entry that was removed; an empty list is deleted.\<close>

lemma api_map_remove:
  assumes "api_map s m" "m ctn = Some a" "list_table (api_store s', api_list s') (m(ctn := None))"
    "api_list s' = None \<longleftrightarrow> m(ctn := None) = Map.empty" "api_terms s' = (api_terms s)(a := None)" "api_brk s' = api_brk s"
  shows "api_map s' (m(ctn := None))"
proof -
  have inj: "inj_on m (dom m)" using assms(1) by (simp add: api_map_def)
  then have "inj_on (m(ctn := None)) (dom (m(ctn := None)))" by (auto simp: inj_on_def)
  moreover have "ran (m(ctn := None)) = ran m - {a}"
    using inj assms(2) by (auto simp: ran_def inj_on_def dom_def split: if_splits) (metis option.inject)+
  ultimately show ?thesis using assms by (auto simp: api_map_def split: if_splits)
qed

lemma CT_close_spec:
  assumes "api_map s m"
  shows "\<exists>ret s'. run_state (CT_close h ctn) s = (Returns ret, s') \<and>
    (case m ctn of None \<Rightarrow> ret = ERR_CT \<and> s' = s
     | Some a \<Rightarrow> api_map s' (m(ctn := None)) \<and> api_terms s' = (api_terms s)(a := None))"
proof (cases "m ctn")
  case None
  then show ?thesis using run_find_terminal [OF assms] by (simp add: CT_close_def)
next
  case (Some a)
  let ?m = "m(ctn := None)"
  obtain ct io where ct: "api_terms s a = Some (ct, io)" "ct_ok ct" using map_term [OF assms Some] by blast
  obtain ret p where "run_state (CardTerminal_Close h ct) \<lparr>p_io = io, p_dev = api_dev s\<rparr> = (Returns (ret, CardTerminal_Clear), p)"
    using CardTerminal_Close_ok [OF ct(2)] by blast
  from run_on_terminal [where m = "CardTerminal_Close h", OF ct(1) this]
  have s1: "run_state (on_terminal a (CardTerminal_Close h)) s = (Returns ret, s\<lparr>api_terms := (api_terms s)(a \<mapsto> (CardTerminal_Clear, p_io p)), api_dev := p_dev p\<rparr>)"
    (is "_ = (_, ?s1)") .
  obtain st list where rem: "CT_List_RemoveCardTerminal (api_store s) (api_list s) ctn = Returns (Some a, st, list)" "list_table (st, list) ?m"
      "list = None \<longleftrightarrow> api_list s = None"
    using Remove_table [of "api_store s" "api_list s" m ctn] assms Some by (auto simp: api_map_def)
  let ?s2 = "?s1\<lparr>api_store := st, api_list := list, api_terms := (api_terms s)(a := None)\<rparr>"
  have s2: "run_state (remove_terminal ctn) ?s1 = (Returns (), ?s2)" using rem(1) by (simp add: remove_terminal_def)
  have count: "CT_List_GetNumberOfElements list = 0 \<longleftrightarrow> ?m = Map.empty"
    using Elements_table [OF rem(2)] table_finite [OF rem(2)] by (simp del: dom_fun_upd)
  have list: "list \<noteq> None" using rem(3) assms Some by (auto simp: api_map_def)
  obtain cts st' where del: "CT_List_Delete st list = Returns (cts, st')" "set cts = ran ?m" using Delete_table [OF rem(2)] by blast
  let ?s3 = "if ?m = Map.empty then ?s2\<lparr>api_store := st', api_list := None\<rparr> else ?s2"
  have "(api_terms s)(a := None) |` UNIV = (api_terms s)(a := None)" by (simp add: restrict_map_def del: fun_upd_apply)
  then have s3: "run_state (CT_close h ctn) s = (Returns ret, ?s3)"
    using run_find_terminal [OF assms, of ctn] Some s1 s2 del by (simp add: CT_close_def count delete_list_def del: fun_upd_apply)
  have "list_table (st', None) ?m" if "?m = Map.empty" using that by (simp add: list_table_def)
  then have "api_map ?s3 ?m" using rem(2) list by (intro api_map_remove [OF assms Some]) (auto simp del: fun_upd_apply)
  then show ?thesis using s3 Some by auto
qed

lemma CT_init_opened:
  assumes "api_ok s"
  shows "\<exists>ret s'. run_state (CT_init h ctn port_nr) s = (Returns ret, s') \<and> api_ok s' \<and>
      (if opened s ctn \<noteq> None then ret = ERR_CT \<and> s' = s
       else if ret = OK then \<exists>ct. ct_ok ct \<and> ct_live ct \<and> opened s' = (opened s)(ctn \<mapsto> ct)
       else ret = ERR_TRANS \<and> opened s' = opened s)"
proof -
  obtain m where m: "api_map s m" using assms by (auto simp: api_ok_def)
  obtain ret s' where init: "run_state (CT_init h ctn port_nr) s = (Returns ret, s')"
    and spec: "if m ctn \<noteq> None then ret = ERR_CT \<and> s' = s
     else if ret = OK then \<exists>ct. api_map s' (m(ctn \<mapsto> api_brk s)) \<and> api_terms s' = (api_terms s)(api_brk s \<mapsto> ct) \<and> ct_live (fst ct)
     else ret = ERR_TRANS \<and> api_map s' m \<and> api_terms s' = api_terms s"
    using CT_init_spec [OF m, of h ctn port_nr] by blast
  have new: "opened s' = (opened s)(ctn \<mapsto> fst ct) \<and> ct_ok (fst ct)"
    if "api_map s' (m(ctn \<mapsto> api_brk s))" "api_terms s' = (api_terms s)(api_brk s \<mapsto> ct)" for ct
    using opened_update [OF m that(1), of ctn] opened_map [OF that(1), of ctn] map_term [OF that(1), of ctn] map_old [OF m] that(2) by auto
  have success: "api_ok s' \<and> (\<exists>ct. ct_ok ct \<and> ct_live ct \<and> opened s' = (opened s)(ctn \<mapsto> ct))" if free: "m ctn = None" "ret = OK"
  proof -
    obtain ct where "api_map s' (m(ctn \<mapsto> api_brk s))" "api_terms s' = (api_terms s)(api_brk s \<mapsto> ct)" "ct_live (fst ct)"
      using spec free by auto
    then show ?thesis using new unfolding api_ok_def by blast
  qed
  have same: "opened s' = opened s" if "api_map s' m" "api_terms s' = api_terms s"
    using that opened_map [OF m] opened_map [OF that(1)] by (simp add: fun_eq_iff)
  have "api_ok s' \<and> (if opened s ctn \<noteq> None then ret = ERR_CT \<and> s' = s
       else if ret = OK then \<exists>ct. ct_ok ct \<and> ct_live ct \<and> opened s' = (opened s)(ctn \<mapsto> ct)
       else ret = ERR_TRANS \<and> opened s' = opened s)"
  proof (cases "m ctn = None \<and> ret = OK")
    case True
    then show ?thesis using success opened_iff [OF m, of ctn] by simp
  next
    case False
    then show ?thesis using spec same assms opened_iff [OF m, of ctn] by (cases "m ctn") (auto simp: api_ok_def)
  qed
  then show ?thesis using init by blast
qed

lemma CT_close_opened:
  assumes "api_ok s"
  shows "\<exists>ret s'. run_state (CT_close h ctn) s = (Returns ret, s') \<and> api_ok s' \<and> opened s' = (opened s)(ctn := None) \<and>
      (opened s ctn = None \<longrightarrow> ret = ERR_CT \<and> s' = s)"
proof -
  obtain m where m: "api_map s m" using assms by (auto simp: api_ok_def)
  obtain ret2 s2 where close: "run_state (CT_close h ctn) s = (Returns ret2, s2)"
    and spec2: "case m ctn of None \<Rightarrow> ret2 = ERR_CT \<and> s2 = s
       | Some a \<Rightarrow> api_map s2 (m(ctn := None)) \<and> api_terms s2 = (api_terms s)(a := None)"
    using CT_close_spec [OF m, of h ctn] by blast
  have gone: "opened s2 = (opened s)(ctn := None)" if "m ctn = Some a" "api_map s2 (m(ctn := None))" "api_terms s2 = (api_terms s)(a := None)" for a
    using opened_update [OF m that(2), of ctn] opened_map [OF that(2), of ctn] map_other [OF m that(1)] that(3) by auto
  have "api_ok s2 \<and> opened s2 = (opened s)(ctn := None) \<and> (opened s ctn = None \<longrightarrow> ret2 = ERR_CT \<and> s2 = s)"
    using spec2 gone assms opened_iff [OF m, of ctn] by (auto simp: api_ok_def split: option.splits)
  then show ?thesis using close by (intro exI [of _ ret2] exI [of _ s2]) simp
qed

text \<open>
  (C12) The library is a table of open terminals.  Opening and closing always return.  A
  number in use is refused and nothing changes; otherwise opening adds a terminal whose
  slots all have their devices, or leaves the table as it was.  Closing takes exactly the
  number out of the table, with its memory; a number that is not open is refused.
\<close>

theorem CT_init_close_refine:
  assumes "api_ok s"
  shows "(\<exists>ret s'. run_state (CT_init h ctn port_nr) s = (Returns ret, s') \<and> api_ok s' \<and>
      (if opened s ctn \<noteq> None then ret = ERR_CT \<and> s' = s
       else if ret = OK then \<exists>ct. ct_ok ct \<and> ct_live ct \<and> opened s' = (opened s)(ctn \<mapsto> ct)
       else ret = ERR_TRANS \<and> opened s' = opened s)) \<and>
    (\<exists>ret s'. run_state (CT_close h ctn) s = (Returns ret, s') \<and> api_ok s' \<and> opened s' = (opened s)(ctn := None) \<and>
      (opened s ctn = None \<longrightarrow> ret = ERR_CT \<and> s' = s))"
  by (intro conjI CT_init_opened CT_close_opened assms)

subsection \<open>Commands\<close>

text \<open>The slot a destination address stands for.\<close>

definition card_slot :: "byte \<Rightarrow> nat" where
  "card_slot dad = (if dad = 0 then 0 else unat dad - 1)"

lemma gives_or_weaken: "gives_or R m Q \<Longrightarrow> gives_or (\<lambda>_. True) m Q"
  unfolding yields_or_def by (erule valid_conseq) auto

lemma GetSlot_ok: "ct_ok ct \<Longrightarrow> CardTerminal_GetSlot ct n = Some sl \<Longrightarrow> n < ct_num_slots ct \<and> slot_ok sl"
  by (force simp: ct_ok_def CardTerminal_GetSlot_def split: if_splits)

definition data_good :: "CardTerminal \<Rightarrow> byte \<Rightarrow> (ct_ret \<times> APDU_Rsp option \<times> byte \<times> byte) \<times> CardTerminal \<Rightarrow> bool" where
  "data_good ct dad = (\<lambda>(x, ct'). ct_ok ct' \<and> ct_num_slots ct' = ct_num_slots ct \<and>
     (dad \<noteq> 1 \<longrightarrow> (\<forall>i. i \<noteq> card_slot dad \<longrightarrow> ct_slots ct' ! i = ct_slots ct ! i)))"

lemma gives_terminal_data:
  assumes "host_ok h" "ct_ok ct" "apdu_cmd_wf cmd"
  shows "gives_or (\<lambda>_. True) (terminal_data h ct dad sad cmd) (data_good ct dad)"
proof (cases "dad = 1")
  case True
  then show ?thesis
    unfolding terminal_data_def
    by (auto simp: ct_good_def data_good_def intro!: gives_or_then [OF gives_or_weaken [OF gives_CardTerminal_Command [OF assms(1-3)]]] yields_or_return)
next
  case False
  have same: "data_good ct dad (x, ct)" for x using assms(2) by (simp add: data_good_def)
  have card: "data_good ct dad (x, set_slot ct (card_slot dad) sl')"
    if "CardTerminal_GetSlot ct (card_slot dad) = Some sl" "slot_ok sl'" for x sl sl'
    using GetSlot_ok [OF assms(2) that(1)] set_slot_ok [OF assms(2) _ that(2)] by (auto simp: data_good_def set_slot_def)
  show ?thesis
  proof (cases "CardTerminal_GetSlot ct (card_slot dad)")
    case None
    then show ?thesis using False same by (auto simp: terminal_data_def Let_def card_slot_def [symmetric] intro!: yields_or_return)
  next
    case (Some sl)
    then have "slot_ok sl" using GetSlot_ok [OF assms(2)] by blast
    from gives_or_weaken [OF gives_CT_Slot_Command [OF assms(1) this assms(3)]] show ?thesis
      using False Some card [OF Some]
      by (auto simp: terminal_data_def Let_def card_slot_def [symmetric] command_good_def elim!: gives_or_then intro!: yields_or_return)
  qed
qed

lemma copy_response_inside:
  "copy_response r lr rsp ret = Returns (ret', lr', rsp') \<Longrightarrow> length rsp' = length rsp \<and> unat lr' \<le> length rsp"
  by (auto simp: copy_response_def Let_def bytes_at_def memcpy_at_def split: option.splits if_splits)

text \<open>The terminal changes in its place.\<close>

lemma api_map_change:
  assumes "api_map s m" "m ctn = Some a" "ct_ok ct"
  shows "api_map (s\<lparr>api_terms := (api_terms s)(a \<mapsto> (ct, io)), api_dev := d\<rparr>) m"
proof -
  have "a \<in> dom (api_terms s)" using map_term [OF assms(1,2)] by auto
  then have "dom ((api_terms s)(a \<mapsto> (ct, io))) = dom (api_terms s)" by auto
  then show ?thesis using assms(1,3) by (simp add: api_map_def)
qed

text \<open>A command of at most 65535 bytes always becomes a command APDU.\<close>

lemma Cmd_New_total: "length cmd < 65536 \<Longrightarrow> \<exists>c. APDU_Cmd_New cmd (length cmd) = Some c \<and> apdu_cmd_wf c"
  using APDU_Cmd_New_wf [OF order.refl, of cmd] by (simp add: APDU_Cmd_New_def apdu_sizes Let_def)

lemma CT_data_cases:
  assumes "host_ok h" "api_map s m" "length cmd < 65536"
    "run_state (CT_data h ctn dad sad cmd lr rsp) s = (Returns (ret, dad', sad', lr', rsp'), s')"
  shows "m ctn = None \<and> ret = ERR_CT \<and> s' = s \<and> (dad', sad', lr', rsp') = (dad, sad, lr, rsp) \<or>
    (\<exists>a ct io x ct' io' d. m ctn = Some a \<and> api_terms s a = Some (ct, io) \<and> data_good ct dad (x, ct') \<and>
       s' = s\<lparr>api_terms := (api_terms s)(a \<mapsto> (ct', io')), api_dev := d\<rparr> \<and> length rsp' = length rsp)"
proof (cases "m ctn")
  case None
  then show ?thesis using assms(4) run_find_terminal [OF assms(2), of ctn] by (simp add: CT_data_def)
next
  case a: (Some a)
  obtain ct io where ct: "api_terms s a = Some (ct, io)" "ct_ok ct" using map_term [OF assms(2) a] by blast
  obtain c where c: "APDU_Cmd_New cmd (length cmd) = Some c" "apdu_cmd_wf c" using Cmd_New_total [OF assms(3)] by blast
  obtain r p where run: "run_state (terminal_data h ct dad sad c) \<lparr>p_io = io, p_dev = api_dev s\<rparr> = (r, p)" by force
  obtain x ct' where x: "r = Returns (x, ct')"
    using assms(4) run run_find_terminal [OF assms(2), of ctn] a c(1) ct(1)
    by (cases r) (auto simp: CT_data_def on_terminal_def)
  obtain ret1 r1 d1 s1 where x1: "x = (ret1, r1, d1, s1)" by (cases x) auto
  have good: "data_good ct dad (x, ct')"
    using yields_orD [OF gives_terminal_data [OF assms(1) ct(2) c(2)] TrueI run] x by blast
  have s': "run_state (on_terminal a (\<lambda>ct. terminal_data h ct dad sad c)) s =
      (Returns x, s\<lparr>api_terms := (api_terms s)(a \<mapsto> (ct', p_io p)), api_dev := p_dev p\<rparr>)"
    using run x ct(1) by (intro run_on_terminal) simp_all
  have "s' = s\<lparr>api_terms := (api_terms s)(a \<mapsto> (ct', p_io p)), api_dev := p_dev p\<rparr> \<and> length rsp' = length rsp"
    using assms(4) run_find_terminal [OF assms(2), of ctn] a c(1) s' x1
    by (cases r1) (auto simp: CT_data_def dest: copy_response_inside split: outcome.splits)
  then show ?thesis using a ct(1) good by blast
qed

text \<open>What a call may change of the terminal it is sent to: a command to a card changes no other slot.\<close>

definition terminal_kept :: "byte \<Rightarrow> CardTerminal \<Rightarrow> CardTerminal \<Rightarrow> bool" where
  "terminal_kept dad ct ct' \<longleftrightarrow> ct_num_slots ct' = ct_num_slots ct \<and>
     (dad \<noteq> 1 \<longrightarrow> (\<forall>i. i \<noteq> card_slot dad \<longrightarrow> ct_slots ct' ! i = ct_slots ct ! i))"

lemma CT_data_opened:
  assumes "host_ok h" "api_ok s" "length cmd < 65536"
    "run_state (CT_data h ctn dad sad cmd lr rsp) s = (Returns (ret, dad', sad', lr', rsp'), s')"
  shows "api_ok s' \<and> length rsp' = length rsp \<and> (\<forall>n. n \<noteq> ctn \<longrightarrow> opened s' n = opened s n) \<and>
    (case opened s ctn of
       None \<Rightarrow> ret = ERR_CT \<and> s' = s \<and> (dad', sad', lr', rsp') = (dad, sad, lr, rsp)
     | Some ct \<Rightarrow> \<exists>ct'. opened s' ctn = Some ct' \<and> terminal_kept dad ct ct')"
proof -
  obtain m where m: "api_map s m" using assms(2) by (auto simp: api_ok_def)
  from CT_data_cases [OF assms(1) m assms(3,4)] show ?thesis
  proof (elim disjE exE conjE, goal_cases)
    case 1
    then show ?case using assms(2) opened_iff [OF m, of ctn] by simp
  next
    case (2 a ct io x ct' io' d)
    have "ct_ok ct'" using 2(3) by (simp add: data_good_def)
    from api_map_change [OF m 2(1) this, where io = io' and d = d] have m': "api_map s' m" unfolding 2(4) .
    then have ok: "api_ok s'" by (auto simp: api_ok_def)
    have upd: "opened s' = (opened s)(ctn := opened s' ctn)"
      using 2(4) map_other [OF m 2(1)] by (intro opened_update [OF m m']) auto
    have other: "opened s' n = opened s n" if "n \<noteq> ctn" for n by (subst upd) (simp add: that)
    have "opened s ctn = Some ct" "opened s' ctn = Some ct'"
      using opened_map [OF m, of ctn] opened_map [OF m', of ctn] 2(1,2,4) by simp_all
    then show ?case using 2(3,5) ok other by (simp add: data_good_def terminal_kept_def)
  qed
qed

text \<open>
  (C13) A command reaches the terminal it is sent to and no other.  Whatever command of at
  most 65535 bytes is sent, when \<open>CT_data\<close> returns the library is consistent again with the
  same terminals open, every other terminal is untouched, the terminal addressed keeps its
  number of slots, and a command to a card changes no slot but the one of the card.  A
  number that is not open is refused, and nothing at all changes.
\<close>

theorem CT_data_isolated:
  assumes "host_ok h" "api_ok s" "length cmd < 65536"
    "run_state (CT_data h ctn dad sad cmd lr rsp) s = (Returns (ret, dad', sad', lr', rsp'), s')"
  shows "api_ok s' \<and> (\<forall>n. n \<noteq> ctn \<longrightarrow> opened s' n = opened s n) \<and>
    (case opened s ctn of
       None \<Rightarrow> ret = ERR_CT \<and> s' = s \<and> (dad', sad', lr', rsp') = (dad, sad, lr, rsp)
     | Some ct \<Rightarrow> \<exists>ct'. opened s' ctn = Some ct' \<and> terminal_kept dad ct ct')"
  using CT_data_opened [OF assms] by (elim conjE) (intro conjI)

text \<open>The library before the first call.\<close>

definition api_start :: "'d \<Rightarrow> 'd api" where
  "api_start d = \<lparr>api_list = None, api_store = \<lparr>nodes = Map.empty, brk = 0\<rparr>, api_terms = Map.empty, api_brk = 0, api_dev = d\<rparr>"

lemma api_start_ok: "api_ok (api_start d)" "opened (api_start d) = Map.empty"
  by (auto simp: api_ok_def api_map_def api_start_def list_table_def fun_eq_iff opened_def CT_List_GetCardTerminal_def intro!: exI [of _ Map.empty])

definition sample_api :: "script api" where
  "sample_api = api_start (p_dev (script_port [] None))"

lemma sample_api_ok: "api_ok sample_api" "opened sample_api = Map.empty"
  by (simp_all add: sample_api_def api_start_ok)

lemma CT_init_close_refine_witness:
  "\<exists>s'. run_state (CT_close sample_host 3) sample_api = (Returns ERR_CT, s') \<and> api_ok s' \<and> opened s' = Map.empty"
proof -
  have free: "opened sample_api 3 = None" by (simp add: sample_api_ok(2))
  from CT_init_close_refine [OF sample_api_ok(1), of sample_host 3 0, THEN conjunct2] obtain ret s' where
    "run_state (CT_close sample_host 3) sample_api = (Returns ret, s')" "api_ok s'" "opened s' = (opened sample_api)(3 := None)"
      "opened sample_api 3 = None \<longrightarrow> ret = ERR_CT \<and> s' = sample_api" by (elim exE conjE) (rule that)
  then show ?thesis using free sample_api_ok(2) by auto
qed

text \<open>A library with one terminal, and a command of an unknown class to it.\<close>

definition busy_api :: "script api" where
  "busy_api = sample_api\<lparr>api_list := Some \<lparr>list_first = Some 0, list_last = Some 0, list_elements = 1\<rparr>,
     api_store := \<lparr>nodes = [0 \<mapsto> \<lparr>node_ctn = 7, node_ct = 0, node_next = None\<rparr>], brk = 1\<rparr>,
     api_terms := [0 \<mapsto> (sample_terminal, IO_Serial_New)], api_brk := 1\<rparr>"

lemma busy_api_map: "api_map busy_api [7 \<mapsto> 0]"
  using sample_terminal_ok(1)
  by (auto simp: api_map_def busy_api_def list_table_def list_ok_def entries_def intro!: exI [of _ "[0]"])

lemma busy_api_ok: "api_ok busy_api" "opened busy_api 7 = Some sample_terminal"
  using busy_api_map opened_map [OF busy_api_map, of 7] by (auto simp: api_ok_def busy_api_def)

lemma CT_data_isolated_witness:
  "\<exists>rsp' s'. run_state (CT_data sample_host 7 1 2 [0, 0, 0, 0] 3 [0, 0, 0]) busy_api = (Returns (OK, 1, 1, 2, rsp'), s') \<and>
     api_ok s' \<and> map_option ct_num_slots (opened s' 7) = Some (ct_num_slots sample_terminal)"
proof -
  have run: "\<exists>rsp' s'. run_state (CT_data sample_host 7 1 2 [0, 0, 0, 0] 3 [0, 0, 0]) busy_api = (Returns (OK, 1, 1, 2, rsp'), s')"
    using run_find_terminal [OF busy_api_map, of 7]
    by (simp add: CT_data_def APDU_Cmd_New_def apdu_sizes on_terminal_def busy_api_def terminal_data_def CardTerminal_Command_def
       APDU_Cmd_Cla_def CTBCS_CLA_def ct_reply_def APDU_Rsp_New_def ctbcs_sw copy_response_def short_of_def APDU_Rsp_RawLen_def APDU_Rsp_Raw_def
       bytes_at_def memcpy_at_def Let_def)
  then obtain rsp' s' where r: "run_state (CT_data sample_host 7 1 2 [0, 0, 0, 0] 3 [0, 0, 0]) busy_api = (Returns (OK, 1, 1, 2, rsp'), s')" by blast
  from CT_data_isolated [OF sample_host_ok busy_api_ok(1) _ r] r busy_api_ok(2) show ?thesis by (auto simp: terminal_kept_def)
qed

section \<open>Sequences of calls\<close>

text \<open>
  The states the calls of a host lead to, with what happens in between left open: the
  terminals and the cards may do anything, and every call finds its own values in the
  uninitialised locals.  A command has a length of 16 bits.  A call that faults or does not
  return has no successor.
\<close>

inductive api_reach :: "'d api \<Rightarrow> bool" where
  start: "api_reach (api_start d)"
| opens: "api_reach s \<Longrightarrow> run_state (CT_init h ctn port_nr) s = (Returns ret, s') \<Longrightarrow> api_reach s'"
| closes: "api_reach s \<Longrightarrow> run_state (CT_close h ctn) s = (Returns ret, s') \<Longrightarrow> api_reach s'"
| sends: "api_reach s \<Longrightarrow> host_ok h \<Longrightarrow> length cmd < 65536 \<Longrightarrow>
    run_state (CT_data h ctn dad sad cmd lr rsp) s = (Returns (ret, dad', sad', lr', rsp'), s') \<Longrightarrow> api_reach s'"

lemma api_reach_ok: "api_reach s \<Longrightarrow> api_ok s"
proof (induction rule: api_reach.induct)
  case (opens s h ctn port_nr ret s')
  then show ?case using CT_init_opened [OF opens.IH, of h ctn port_nr] by auto
next
  case (closes s h ctn ret s')
  then show ?case using CT_close_opened [OF closes.IH, of h ctn] by auto
next
  case (sends s h cmd ctn dad sad lr rsp ret dad' sad' lr' rsp' s')
  then show ?case using CT_data_opened [OF sends.hyps(2) sends.IH sends.hyps(3,4)] by blast
qed (rule api_start_ok)

text \<open>
  (C11) In every state that calls which return lead to, in any order and with whatever
  answers from the readers and the cards, every terminal in the table is consistent,
  different numbers stand for different terminals in memory, memory holds no terminal that is
  not in the table, and every terminal can be closed: the call returns and leaves the rest
  of the table.
\<close>

theorem api_reach_consistent:
  assumes "api_reach s"
  shows "(\<forall>ctn ct. opened s ctn = Some ct \<longrightarrow> ct_ok ct) \<and>
    card (dom (opened s)) = card (dom (api_terms s)) \<and>
    (api_list s = None \<longleftrightarrow> opened s = Map.empty) \<and>
    (\<exists>ret s'. run_state (CT_close h ctn) s = (Returns ret, s') \<and> api_reach s' \<and> opened s' = (opened s)(ctn := None))"
proof -
  have ok: "api_ok s" by (rule api_reach_ok [OF assms])
  then obtain m where m: "api_map s m" by (auto simp: api_ok_def)
  have dom: "dom (opened s) = dom m" using opened_iff [OF m] by (simp add: dom_def)
  have "ct_ok ct" if "opened s n = Some ct" for n ct
    using that opened_map [OF m, of n] map_term [OF m, of n] by (cases "m n") auto
  moreover have "card (dom m) = card (dom (api_terms s))"
  proof -
    have "inj_on (the \<circ> m) (dom m)" using map_other [OF m] by (auto intro!: inj_onI) metis
    moreover have "(the \<circ> m) ` dom m = ran m" by (force simp: ran_def)
    ultimately show ?thesis using m card_image [of "the \<circ> m" "dom m"] by (simp add: api_map_def)
  qed
  moreover have "api_list s = None \<longleftrightarrow> opened s = Map.empty" using m dom by (simp add: api_map_def flip: dom_eq_empty_conv)
  moreover obtain ret s' where "run_state (CT_close h ctn) s = (Returns ret, s')" "opened s' = (opened s)(ctn := None)"
    using CT_close_opened [OF ok, of h ctn] by (elim exE conjE) (rule that)
  moreover from api_reach.closes [OF assms this(1)] have "api_reach s'" .
  ultimately show ?thesis unfolding dom by (intro conjI allI impI) (assumption | auto)+
qed

text \<open>A reader with one slot is opened on the scripted line, and closed.\<close>

definition reader_api :: "script api" where
  "reader_api = api_start (p_dev reader_port)"

lemma reader_opens:
  "\<exists>s. run_state (CT_init sample_host ctn 0) reader_api = (Returns OK, s) \<and> api_ok s \<and> (\<exists>ct. opened s = [ctn \<mapsto> ct])"
proof -
  obtain s where s: "run_state (CT_init sample_host ctn 0) reader_api = (Returns OK, s)"
    using reader_Init
    by (auto simp: reader_api_def api_start_def CT_init_def find_terminal_def CT_List_GetCardTerminal_def new_terminal_def on_terminal_def
        add_terminal_def CT_List_AddCardTerminal_def CT_List_New_def)
  from CT_init_opened [of reader_api sample_host ctn 0] s show ?thesis
    by (auto simp: reader_api_def api_start_ok)
qed

lemma api_reach_consistent_witness:
  "\<exists>s ret s'. run_state (CT_init sample_host 5 0) reader_api = (Returns OK, s) \<and> opened s 5 \<noteq> None \<and> card (dom (api_terms s)) = 1 \<and>
     run_state (CT_close sample_host 5) s = (Returns ret, s') \<and> api_reach s' \<and> opened s' = Map.empty"
proof -
  obtain s ct where s: "run_state (CT_init sample_host 5 0) reader_api = (Returns OK, s)" "opened s = [5 \<mapsto> ct]"
    using reader_opens [of 5] by blast
  have "api_reach s" using api_reach.opens [OF api_reach.start] s(1) unfolding reader_api_def .
  from api_reach_consistent [OF this, of sample_host 5] s show ?thesis by (auto simp: fun_eq_iff)
qed

end
