(* ===== verification/IfdHandler.thy ===== *)
theory IfdHandler
  imports CtApi
begin

text \<open>
  The PC/SC driver interface, \<^verbatim>\<open>src/src/ifd-handler/ifdhandler.c\<close> with
  \<^verbatim>\<open>ifdhandler.h\<close> and \<^verbatim>\<open>pcscdefines.h\<close>: the calls of the resource manager,
  translated to calls of the CT-API.  The state is that of the CT-API library and a matrix of
  contexts, one per reader and slot, that remember the answer to reset of the card.  A
  \<open>DWORD\<close> is an \<open>unsigned long\<close> of 64 bits.  The mutexes are not part of the model.
\<close>

section \<open>Constants\<close>

type_synonym dword = "64 word"

definition IFDH_MAX_READERS :: nat where "IFDH_MAX_READERS = 4"
definition IFDH_MAX_SLOTS :: nat where "IFDH_MAX_SLOTS = 1"
definition MAX_ATR_SIZE :: nat where "MAX_ATR_SIZE = 33"

definition TAG_IFD_ATR :: dword where "TAG_IFD_ATR = 0x0303"
definition TAG_IFD_SLOTS_NUMBER :: dword where "TAG_IFD_SLOTS_NUMBER = 0x0FAE"
definition TAG_IFD_SIMULTANEOUS_ACCESS :: dword where "TAG_IFD_SIMULTANEOUS_ACCESS = 0x0FAF"

definition IFD_POWER_UP :: dword where "IFD_POWER_UP = 500"
definition IFD_POWER_DOWN :: dword where "IFD_POWER_DOWN = 501"
definition IFD_RESET :: dword where "IFD_RESET = 502"

datatype response_code =
    IFD_SUCCESS | IFD_ERROR_TAG | IFD_ERROR_PTS_FAILURE | IFD_ERROR_POWER_ACTION | IFD_COMMUNICATION_ERROR
  | IFD_NOT_SUPPORTED | IFD_ICC_PRESENT | IFD_ICC_NOT_PRESENT

definition PORT_COM1 :: "16 word" where "PORT_COM1 = 0"
definition PORT_COM2 :: "16 word" where "PORT_COM2 = 1"
definition PORT_COM3 :: "16 word" where "PORT_COM3 = 2"
definition PORT_COM4 :: "16 word" where "PORT_COM4 = 3"

lemmas ifdh_sizes = IFDH_MAX_READERS_def IFDH_MAX_SLOTS_def MAX_ATR_SIZE_def
lemmas ifdh_tags = TAG_IFD_ATR_def TAG_IFD_SLOTS_NUMBER_def TAG_IFD_SIMULTANEOUS_ACCESS_def
lemmas ifdh_actions = IFD_POWER_UP_def IFD_POWER_DOWN_def IFD_RESET_def

section \<open>Data\<close>

text \<open>The structures of the header; a \<open>NULL\<close> string is \<open>None\<close>.\<close>

record DEVICE_CAPABILITIES =
  Vendor_Name :: "string option"
  IFD_Type :: "string option"
  IFD_Version :: dword
  IFD_Serial :: "string option"
  IFD_Channel_ID :: dword
  Asynch_Supported :: dword
  Default_Clock :: dword
  Max_Clock :: dword
  Default_Data_Rate :: dword
  Max_Data_Rate :: dword
  Max_IFSD :: dword
  Synch_Supported :: dword
  Power_Mgmt :: dword
  Card_Auth_Devices :: dword
  User_Auth_Device :: dword
  Mechanics_Supported :: dword
  Vendor_Features :: dword

record ICC_STATE =
  ICC_Presence :: byte
  ICC_Interface_Status :: byte
  ATR_bytes :: "byte list"
  ATR_Length :: dword
  ICC_Type :: byte

record PROTOCOL_OPTIONS =
  Protocol_Type :: dword
  Current_Clock :: dword
  Current_F :: dword
  Current_D :: dword
  Current_N :: dword
  Current_W :: dword
  Current_IFSC :: dword
  Current_IFSD :: dword
  Current_BWT :: dword
  Current_CWT :: dword
  Current_EBC :: dword

record IFDH_Context =
  device_capabilities :: DEVICE_CAPABILITIES
  icc_state :: ICC_STATE
  protocol_options :: PROTOCOL_OPTIONS

text \<open>A context after \<open>memset\<close>.\<close>

definition zero_context :: IFDH_Context where
  "zero_context =
     \<lparr>device_capabilities =
        \<lparr>Vendor_Name = None, IFD_Type = None, IFD_Version = 0, IFD_Serial = None, IFD_Channel_ID = 0, Asynch_Supported = 0,
         Default_Clock = 0, Max_Clock = 0, Default_Data_Rate = 0, Max_Data_Rate = 0, Max_IFSD = 0, Synch_Supported = 0, Power_Mgmt = 0,
         Card_Auth_Devices = 0, User_Auth_Device = 0, Mechanics_Supported = 0, Vendor_Features = 0\<rparr>,
      icc_state =
        \<lparr>ICC_Presence = 0, ICC_Interface_Status = 0, ATR_bytes = replicate MAX_ATR_SIZE 0, ATR_Length = 0, ICC_Type = 0\<rparr>,
      protocol_options =
        \<lparr>Protocol_Type = 0, Current_Clock = 0, Current_F = 0, Current_D = 0, Current_N = 0, Current_W = 0, Current_IFSC = 0,
         Current_IFSD = 0, Current_BWT = 0, Current_CWT = 0, Current_EBC = 0\<rparr>\<rparr>"

text \<open>The state: the library, and the matrix of contexts by reader and slot.\<close>

record 'd ifdh =
  ifdh_api :: "'d api"
  ifdh_context :: "nat \<Rightarrow> nat \<Rightarrow> IFDH_Context option"

type_synonym ('d, 'a) ifdh_io = "('d ifdh, 'a outcome) state"

definition on_api :: "('d, 'a) api_io \<Rightarrow> ('d, 'a) ifdh_io" where
  "on_api m = State (\<lambda>s. case run_state m (ifdh_api s) of (r, a) \<Rightarrow> (r, s\<lparr>ifdh_api := a\<rparr>))"

definition get_context :: "nat \<Rightarrow> nat \<Rightarrow> ('d, IFDH_Context option) ifdh_io" where
  "get_context r sl = State (\<lambda>s. (Returns (ifdh_context s r sl), s))"

definition put_context :: "nat \<Rightarrow> nat \<Rightarrow> IFDH_Context \<Rightarrow> ('d, unit) ifdh_io" where
  "put_context r sl c =
     State (\<lambda>s. (Returns (), s\<lparr>ifdh_context := (ifdh_context s)(r := (ifdh_context s r)(sl := Some c))\<rparr>))"

text \<open>The loops over the slots of a reader, that create or free its contexts.\<close>

definition set_contexts :: "nat \<Rightarrow> IFDH_Context option \<Rightarrow> ('d, unit) ifdh_io" where
  "set_contexts r c =
     State (\<lambda>s. (Returns (), s\<lparr>ifdh_context := (ifdh_context s)(r := (\<lambda>sl. if sl < IFDH_MAX_SLOTS then c else ifdh_context s r sl))\<rparr>))"

section \<open>Operations\<close>

text \<open>The number of the terminal and of the slot in a logical unit number.\<close>

definition lun_ctn :: "dword \<Rightarrow> 16 word" where
  "lun_ctn Lun = (ucast (drop_bit 16 Lun) :: 16 word) mod of_nat IFDH_MAX_READERS"

definition lun_slot :: "dword \<Rightarrow> 16 word" where
  "lun_slot Lun = (ucast (Lun AND 0xFFFF) :: 16 word) mod of_nat IFDH_MAX_SLOTS"

text \<open>The serial port of a channel.\<close>

definition channel_port :: "'d host \<Rightarrow> dword \<Rightarrow> 16 word" where
  "channel_port h Channel =
     (if Channel \<ge> 0x200000 then ucast (Channel AND 0x1FFFFF) + (if host_win32_com h then 0x8001 else 0x8000)
      else if Channel = 0x0103F8 then (if host_win32_com h then 1 else PORT_COM1)
      else if Channel = 0x0102F8 then (if host_win32_com h then 2 else PORT_COM2)
      else if Channel = 0x0103E8 then (if host_win32_com h then 3 else PORT_COM3)
      else if Channel = 0x0102E8 then (if host_win32_com h then 4 else PORT_COM4)
      else if host_win32_com h then ucast Channel else ucast Channel - 1)"

definition IFDHCreateChannel :: "'d host \<Rightarrow> dword \<Rightarrow> dword \<Rightarrow> ('d, response_code) ifdh_io" where
  "IFDHCreateChannel h Lun Channel =
     (let ctn = lun_ctn Lun; sl = lun_slot Lun
      in out_bind (get_context (unat ctn) (unat sl)) (\<lambda>c. case c of
           Some _ \<Rightarrow> out_return IFD_SUCCESS
         | None \<Rightarrow>
             out_bind (on_api (CT_init h ctn (channel_port h Channel))) (\<lambda>ret.
               if ret = OK then out_bind (set_contexts (unat ctn) (Some zero_context)) (\<lambda>_. out_return IFD_SUCCESS)
               else out_return IFD_COMMUNICATION_ERROR)))"

definition IFDHCloseChannel :: "'d host \<Rightarrow> dword \<Rightarrow> ('d, response_code) ifdh_io" where
  "IFDHCloseChannel h Lun =
     out_bind (on_api (CT_close h (lun_ctn Lun))) (\<lambda>ret.
       if ret = OK then out_bind (set_contexts (unat (lun_ctn Lun)) None) (\<lambda>_. out_return IFD_SUCCESS)
       else out_return IFD_COMMUNICATION_ERROR)"

text \<open>\<open>Value\<close> is the array of the caller; the result is the code, \<open>*Length\<close> and the array.\<close>

definition IFDHGetCapabilities :: "dword \<Rightarrow> dword \<Rightarrow> byte list \<Rightarrow> ('d, response_code \<times> dword \<times> byte list) ifdh_io" where
  "IFDHGetCapabilities Lun Tag val =
     (let store = (\<lambda>n bs. case memcpy_at val 0 bs of None \<Rightarrow> out_fault | Some v \<Rightarrow> out_return (IFD_SUCCESS, n, v))
      in if Tag = TAG_IFD_ATR then
           out_bind (get_context (unat (lun_ctn Lun)) (unat (lun_slot Lun))) (\<lambda>c. case c of
             None \<Rightarrow> out_fault
           | Some ctx \<Rightarrow> (case bytes_at (ATR_bytes (icc_state ctx)) 0 (unat (ATR_Length (icc_state ctx))) of
               None \<Rightarrow> out_fault
             | Some bs \<Rightarrow> store (ATR_Length (icc_state ctx)) bs))
         else if Tag = TAG_IFD_SLOTS_NUMBER then store 1 [of_nat IFDH_MAX_SLOTS]
         else if Tag = TAG_IFD_SIMULTANEOUS_ACCESS then store 1 [of_nat IFDH_MAX_READERS]
         else out_return (IFD_ERROR_TAG, 0, val))"

definition IFDHSetCapabilities :: "dword \<Rightarrow> dword \<Rightarrow> dword \<Rightarrow> byte list \<Rightarrow> ('d, response_code) ifdh_io" where
  "IFDHSetCapabilities Lun Tag len val = out_return IFD_NOT_SUPPORTED"

text \<open>The answer to reset in a response of \<open>lr\<close> bytes is kept in the context.\<close>

definition store_atr :: "nat \<Rightarrow> nat \<Rightarrow> byte list \<Rightarrow> ('d, unit) ifdh_io" where
  "store_atr r sl bs =
     out_bind (get_context r sl) (\<lambda>c. case c of
       None \<Rightarrow> out_fault
     | Some ctx \<Rightarrow> (case memcpy_at (ATR_bytes (icc_state ctx)) 0 bs of
         None \<Rightarrow> out_fault
       | Some a \<Rightarrow> put_context r sl (ctx\<lparr>icc_state := icc_state ctx\<lparr>ATR_bytes := a, ATR_Length := of_nat (length bs)\<rparr>\<rparr>)))"

text \<open>The command RESET with a PPS request; \<open>0x06\<close> is announced as its length in every case.\<close>

definition pts_command :: "16 word \<Rightarrow> dword \<Rightarrow> byte \<Rightarrow> byte \<Rightarrow> byte \<Rightarrow> byte \<Rightarrow> byte list" where
  "pts_command sl Protocol Flags PTS1 PTS2 PTS3 =
     [CTBCS_CLA, CTBCS_INS_RESET, ucast (sl + 1), CTBCS_P2_RESET_GET_ATR, 0x06, 0xFF,
      push_bit 4 Flags OR ucast (0x0F AND Protocol)]
     @ (if Flags AND 0x10 = 0x10 then [PTS1] else [])
     @ (if Flags AND 0x20 = 0x20 then [PTS2] else [])
     @ (if Flags AND 0x40 = 0x40 then [PTS3] else [])"

text \<open>\<open>rsp0\<close> is what the local array of 256 bytes holds before it is filled.\<close>

definition IFDHSetProtocolParameters ::
    "'d host \<Rightarrow> byte list \<Rightarrow> dword \<Rightarrow> dword \<Rightarrow> byte \<Rightarrow> byte \<Rightarrow> byte \<Rightarrow> byte \<Rightarrow> ('d, response_code) ifdh_io" where
  "IFDHSetProtocolParameters h rsp0 Lun Protocol Flags PTS1 PTS2 PTS3 =
     (let ctn = lun_ctn Lun; sl = lun_slot Lun
      in out_bind (get_context (unat ctn) (unat sl)) (\<lambda>c. case c of
           None \<Rightarrow> out_return IFD_ICC_NOT_PRESENT
         | Some _ \<Rightarrow>
             out_bind (on_api (CT_data h ctn 0x01 0x02 (pts_command sl Protocol Flags PTS1 PTS2 PTS3) 256 rsp0))
               (\<lambda>(ret, dad, sad, lr, rsp).
                 if ret = OK \<and> lr \<ge> 2 then
                   out_bind (store_atr (unat ctn) (unat sl) (take (unat lr - 2) rsp)) (\<lambda>_. out_return IFD_SUCCESS)
                 else out_return IFD_ERROR_PTS_FAILURE)))"

text \<open>A command that powers the card; what it returns is kept and given to the caller.\<close>

definition power_atr ::
    "'d host \<Rightarrow> byte list \<Rightarrow> 16 word \<Rightarrow> 16 word \<Rightarrow> byte list \<Rightarrow> response_code \<Rightarrow> byte list \<Rightarrow> dword
      \<Rightarrow> ('d, response_code \<times> byte list \<times> dword) ifdh_io" where
  "power_atr h rsp0 ctn sl cmd failure Atr AtrLength =
     out_bind (on_api (CT_data h ctn 0x01 0x02 cmd 256 rsp0)) (\<lambda>(ret, dad, sad, lr, rsp).
       if ret = OK \<and> lr \<ge> 2 then
         out_bind (store_atr (unat ctn) (unat sl) (take (unat lr - 2) rsp)) (\<lambda>_.
           case memcpy_at Atr 0 (take (unat lr - 2) rsp) of
             None \<Rightarrow> out_fault
           | Some Atr' \<Rightarrow> out_return (IFD_SUCCESS, Atr', of_nat (unat lr - 2)))
       else out_return (failure, Atr, AtrLength))"

definition power_down :: "'d host \<Rightarrow> byte list \<Rightarrow> 16 word \<Rightarrow> 16 word \<Rightarrow> byte list \<Rightarrow> dword \<Rightarrow> ('d, response_code \<times> byte list \<times> dword) ifdh_io" where
  "power_down h rsp0 ctn sl Atr AtrLength =
     out_bind (on_api (CT_data h ctn 0x01 0x02 [CTBCS_CLA, CTBCS_INS_EJECT, ucast (sl + 1), 0, 0] 256 rsp0)) (\<lambda>(ret, dad, sad, lr, rsp).
       if ret = OK then
         out_bind (get_context (unat ctn) (unat sl)) (\<lambda>c. case c of
           None \<Rightarrow> out_fault
         | Some ctx \<Rightarrow>
             out_bind (put_context (unat ctn) (unat sl)
                 (ctx\<lparr>icc_state := icc_state ctx\<lparr>ATR_Length := 0, ATR_bytes := replicate MAX_ATR_SIZE 0\<rparr>\<rparr>)) (\<lambda>_.
               out_return (IFD_SUCCESS, Atr, 0)))
       else out_return (IFD_COMMUNICATION_ERROR, Atr, AtrLength))"

definition IFDHPowerICC ::
    "'d host \<Rightarrow> byte list \<Rightarrow> dword \<Rightarrow> dword \<Rightarrow> byte list \<Rightarrow> dword \<Rightarrow> ('d, response_code \<times> byte list \<times> dword) ifdh_io" where
  "IFDHPowerICC h rsp0 Lun Action Atr AtrLength =
     (let ctn = lun_ctn Lun; sl = lun_slot Lun
      in out_bind (get_context (unat ctn) (unat sl)) (\<lambda>c. case c of
           None \<Rightarrow> out_return (IFD_ICC_NOT_PRESENT, Atr, AtrLength)
         | Some _ \<Rightarrow>
             if Action = IFD_POWER_UP then
               power_atr h rsp0 ctn sl [CTBCS_CLA, CTBCS_INS_REQUEST, ucast (sl + 1), CTBCS_P2_REQUEST_GET_ATR, 0] IFD_COMMUNICATION_ERROR Atr AtrLength
             else if Action = IFD_POWER_DOWN then power_down h rsp0 ctn sl Atr AtrLength
             else if Action = IFD_RESET then
               power_atr h rsp0 ctn sl [CTBCS_CLA, CTBCS_INS_RESET, ucast (sl + 1), CTBCS_P2_RESET_GET_ATR, 0] IFD_ERROR_POWER_ACTION Atr AtrLength
             else out_return (IFD_NOT_SUPPORTED, Atr, AtrLength)))"

text \<open>
  A command with the addresses of the caller's buffers: both lengths are cut to 16 bits.
  The result is the code, the receive buffer and \<open>*RxLength\<close>.
\<close>

definition ct_exchange ::
    "'d host \<Rightarrow> 16 word \<Rightarrow> byte \<Rightarrow> byte list \<Rightarrow> dword \<Rightarrow> byte list \<Rightarrow> dword \<Rightarrow> ('d, response_code \<times> byte list \<times> dword) ifdh_io" where
  "ct_exchange h ctn dad TxBuffer TxLength RxBuffer RxLength =
     (case bytes_at TxBuffer 0 (unat (ucast TxLength :: 16 word)) of
        None \<Rightarrow> out_fault
      | Some cmd \<Rightarrow>
          out_bind (on_api (CT_data h ctn dad 0x02 cmd (ucast RxLength) RxBuffer)) (\<lambda>(ret, dad', sad', lr, rsp).
            if ret = OK then out_return (IFD_SUCCESS, rsp, ucast lr)
            else out_return (IFD_COMMUNICATION_ERROR, rsp, 0)))"

definition IFDHTransmitToICC ::
    "'d host \<Rightarrow> dword \<Rightarrow> byte list \<Rightarrow> dword \<Rightarrow> byte list \<Rightarrow> dword \<Rightarrow> ('d, response_code \<times> byte list \<times> dword) ifdh_io" where
  "IFDHTransmitToICC h Lun TxBuffer TxLength RxBuffer RxLength =
     (let ctn = lun_ctn Lun; sl = lun_slot Lun
      in out_bind (get_context (unat ctn) (unat sl)) (\<lambda>c. case c of
           None \<Rightarrow> out_return (IFD_ICC_NOT_PRESENT, RxBuffer, RxLength)
         | Some _ \<Rightarrow> ct_exchange h ctn (if sl = 0 then 0 else ucast (sl + 1)) TxBuffer TxLength RxBuffer RxLength))"

definition IFDHControl ::
    "'d host \<Rightarrow> dword \<Rightarrow> byte list \<Rightarrow> dword \<Rightarrow> byte list \<Rightarrow> dword \<Rightarrow> ('d, response_code \<times> byte list \<times> dword) ifdh_io" where
  "IFDHControl h Lun TxBuffer TxLength RxBuffer RxLength =
     (let ctn = lun_ctn Lun
      in out_bind (get_context (unat ctn) (unat (lun_slot Lun))) (\<lambda>c. case c of
           None \<Rightarrow> out_return (IFD_ICC_NOT_PRESENT, RxBuffer, RxLength)
         | Some _ \<Rightarrow> ct_exchange h ctn 0x01 TxBuffer TxLength RxBuffer RxLength))"

definition IFDHICCPresence :: "'d host \<Rightarrow> byte list \<Rightarrow> dword \<Rightarrow> ('d, response_code) ifdh_io" where
  "IFDHICCPresence h rsp0 Lun =
     (let sl = lun_slot Lun
      in out_bind (on_api (CT_data h (lun_ctn Lun) 0x01 0x02 [CTBCS_CLA, CTBCS_INS_STATUS, CTBCS_P1_CT_KERNEL, CTBCS_P2_STATUS_ICC, 0] 256 rsp0))
           (\<lambda>(ret, dad, sad, lr, rsp).
             if ret = OK then
               if uint sl < uint lr - 2 then
                 if unat sl < length rsp
                 then out_return (if rsp ! unat sl = CTBCS_DATA_STATUS_NOCARD then IFD_ICC_NOT_PRESENT else IFD_ICC_PRESENT)
                 else out_fault
               else out_return IFD_ICC_NOT_PRESENT
             else out_return IFD_COMMUNICATION_ERROR))"

section \<open>The negotiation of parameters\<close>

lemma pts_command_new:
  "\<exists>c. APDU_Cmd_New (pts_command sl Protocol Flags PTS1 PTS2 PTS3) (length (pts_command sl Protocol Flags PTS1 PTS2 PTS3)) = Some c \<and>
     APDU_Cmd_Cla c = CTBCS_CLA \<and> APDU_Cmd_Ins c = CTBCS_INS_RESET \<and> APDU_Cmd_P1 c = ucast (sl + 1) \<and>
     APDU_Cmd_P2 c = CTBCS_P2_RESET_GET_ATR \<and> APDU_Cmd_Lc c = 0"
  by (simp add: pts_command_def APDU_Cmd_New_def apdu_sizes APDU_Cmd_Cla_def APDU_Cmd_Ins_def APDU_Cmd_P1_def APDU_Cmd_P2_def
      APDU_Cmd_Lc_def APDU_Cmd_Case_def Let_def)

lemma ResetCT_cong:
  assumes "APDU_Cmd_P1 c = APDU_Cmd_P1 c'" "APDU_Cmd_P2 c = APDU_Cmd_P2 c'" "APDU_Cmd_Lc c = 0" "APDU_Cmd_Lc c' = 0"
  shows "CardTerminal_ResetCT h ct c = CardTerminal_ResetCT h ct c'"
proof -
  have probe: "probe_command h sl c = probe_command h sl c'" for sl using assms(3,4) by (simp add: probe_command_def)
  show ?thesis unfolding CardTerminal_ResetCT_def probe assms(1,2) ..
qed

text \<open>
  (C16) The parameters of \<open>IFDHSetProtocolParameters\<close> have no effect.  The command it
  sends announces six bytes of data and carries between two and five, so that the terminal
  takes it as a command without data and resets the card without any negotiation: the call
  behaves in every state as with any other protocol, flags and parameter bytes.
\<close>

theorem IFDHSetProtocolParameters_ignored:
  "IFDHSetProtocolParameters h rsp0 Lun Protocol Flags PTS1 PTS2 PTS3 =
   IFDHSetProtocolParameters h rsp0 Lun Protocol' Flags' PTS1' PTS2' PTS3'"
proof -
  let ?sl = "lun_slot Lun"
  obtain c where c: "APDU_Cmd_New (pts_command ?sl Protocol Flags PTS1 PTS2 PTS3) (length (pts_command ?sl Protocol Flags PTS1 PTS2 PTS3)) = Some c"
    "APDU_Cmd_Cla c = CTBCS_CLA" "APDU_Cmd_Ins c = CTBCS_INS_RESET" "APDU_Cmd_P1 c = ucast (?sl + 1)" "APDU_Cmd_P2 c = CTBCS_P2_RESET_GET_ATR"
    "APDU_Cmd_Lc c = 0" using pts_command_new by blast
  obtain c' where c': "APDU_Cmd_New (pts_command ?sl Protocol' Flags' PTS1' PTS2' PTS3') (length (pts_command ?sl Protocol' Flags' PTS1' PTS2' PTS3')) = Some c'"
    "APDU_Cmd_Cla c' = CTBCS_CLA" "APDU_Cmd_Ins c' = CTBCS_INS_RESET" "APDU_Cmd_P1 c' = ucast (?sl + 1)" "APDU_Cmd_P2 c' = CTBCS_P2_RESET_GET_ATR"
    "APDU_Cmd_Lc c' = 0" using pts_command_new by blast
  have "CardTerminal_Command h ct c = CardTerminal_Command h ct c'" for ct
    using c c' ResetCT_cong [of c c' h ct] by (simp add: CardTerminal_Command_def)
  then show ?thesis
    using c(1) c'(1) by (simp add: IFDHSetProtocolParameters_def CT_data_def terminal_data_def Let_def)
qed

section \<open>The size of the answers of a terminal\<close>

text \<open>What holds of the result whenever a program returns, whatever happened before.\<close>

abbreviation always :: "('s, 'a outcome) state \<Rightarrow> ('a \<Rightarrow> bool) \<Rightarrow> bool" where
  "always m Q \<equiv> gives_or (\<lambda>_. True) m Q"

lemma always_bind: "(\<And>a. always (f a) Q) \<Longrightarrow> always (out_bind m f) Q"
  by (rule gives_or_then [where T = "\<lambda>_. True"]) (auto simp: yields_or_def valid_def)

lemma always_return: "Q a \<Longrightarrow> always (out_return a) Q"
  and always_fault: "always out_fault Q"
  by (auto simp: yields_or_def valid_def)

lemma always_if: "(c \<Longrightarrow> always m Q) \<Longrightarrow> (\<not> c \<Longrightarrow> always n Q) \<Longrightarrow> always (if c then m else n) Q"
  and always_prod: "(\<And>a b. always (f1 a b) Q) \<Longrightarrow> always (case x1 of (a, b) \<Rightarrow> f1 a b) Q"
  and always_sum: "(\<And>a. always (f2 a) Q) \<Longrightarrow> (\<And>b. always (g2 b) Q) \<Longrightarrow> always (case x2 of Inl a \<Rightarrow> f2 a | Inr b \<Rightarrow> g2 b) Q"
  and always_slot: "(\<And>sl. always (f3 sl) Q) \<Longrightarrow> always (on_slot ct sn f3) Q"
  by (auto simp: on_slot_def always_fault split: prod.split sum.split option.split)

lemmas always_rules = always_bind always_if always_prod always_sum always_slot

definition short_rsp :: "ct_result \<Rightarrow> bool" where
  "short_rsp = (\<lambda>(ret, rsp, ct). \<forall>r. rsp = Some r \<longrightarrow> rsp_length r \<le> 35)"

lemma short_reply: "length sw \<le> 35 \<Longrightarrow> always (ct_reply ret sw ct) short_rsp"
  by (auto simp: ct_reply_def short_rsp_def APDU_Rsp_New_def intro!: always_return)

lemma short_none: "always (out_return (ret, None, ct)) short_rsp"
  by (auto simp: short_rsp_def intro!: always_return)

lemma fill_length:
  assumes "host_ok h"
  shows "fill_atr h atr = Returns (b, n) \<Longrightarrow> length b = 35" "fill_hist h atr = Returns (b, n) \<Longrightarrow> length b = 35"
  using assms by (auto simp: fill_atr_def fill_hist_def Let_def host_ok_def split: slot_atr.splits option.splits sum.splits dest: length_memcpy_at)

lemma put_status_short:
  assumes "put_status sw grow filled = Returns (b, n)" "length sw = 2" "grow \<le> 2" "\<And>c k. filled = Returns (c, k) \<Longrightarrow> length c = 35"
  shows "n \<le> 35"
  using assms by (auto simp: put_status_def memcpy_at_def split: outcome.splits option.splits if_splits)

lemma short_answer:
  assumes "host_ok h"
  shows "always (answer_with (reset_answer h sl p2) ct) short_rsp" "always (answer_with (request_answer h sl p2) ct) short_rsp"
proof -
  have *: "always (answer_with answer ct) short_rsp" if "\<And>b n. answer = Returns (b, n) \<Longrightarrow> n \<le> 35" for answer
    using that by (auto simp: answer_with_def short_rsp_def APDU_Rsp_New_def intro!: always_return always_fault split: outcome.split)
  show "always (answer_with (reset_answer h sl p2) ct) short_rsp"
    by (rule *) (auto simp: reset_answer_def with_atr_def Let_def split: if_splits outcome.splits
        dest!: put_status_short intro: fill_length [OF assms])
  show "always (answer_with (request_answer h sl p2) ct) short_rsp"
    by (rule *) (auto simp: request_answer_def with_atr_def Let_def split: if_splits outcome.splits
        dest!: put_status_short intro: fill_length [OF assms])
qed

lemma short_reset_slots: "always (reset_slots h ct sn) short_rsp"
proof (induction "ct_num_slots ct - sn" arbitrary: ct sn rule: less_induct)
  case less
  show ?case
    unfolding reset_slots.simps [of h ct sn]
    by (intro always_rules short_reply) (auto intro!: less.hyps)
qed

lemma short_status_slots:
  assumes "ct_num_slots ct \<le> 2" "length buffer = i" "i \<le> 2"
  shows "always (status_slots h ct i buffer) short_rsp"
  using assms
proof (induction "ct_num_slots ct - i" arbitrary: ct i buffer rule: less_induct)
  case less
  show ?case
    unfolding status_slots.simps [of h ct i] Let_def
    by (intro always_rules short_reply short_none) (use less.prems in \<open>auto intro!: less.hyps\<close>)
qed

lemma CardTerminal_Command_short:
  assumes "host_ok h" "ct_ok ct"
  shows "always (CardTerminal_Command h ct cmd) short_rsp"
proof -
  have "always (CardTerminal_ResetCT h ct cmd) short_rsp"
    unfolding CardTerminal_ResetCT_def Let_def
    by (intro always_rules short_reply short_none short_reset_slots short_answer [OF assms(1)]) simp_all
  moreover have "always (CardTerminal_RequestICC h ct cmd) short_rsp"
    unfolding CardTerminal_RequestICC_def Let_def
    by (intro always_rules short_reply short_none short_answer [OF assms(1)]) simp_all
  moreover have "always (CardTerminal_EjectICC h ct cmd) short_rsp"
    unfolding CardTerminal_EjectICC_def Let_def
    by (intro always_rules short_reply short_none) simp_all
  moreover have "always (CardTerminal_GetStatus h ct cmd) short_rsp"
    using assms(2) unfolding CardTerminal_GetStatus_def Let_def
    by (intro always_rules short_reply short_none short_status_slots) 
      (auto simp: CT_Slot_GetType_def IFD_Towitoko_GetDescription_def CARDTERMINAL_MANUFACTURER_def VERSION_def ct_ok_def CARDTERMINAL_MAX_SLOTS_def
        intro!: short_reply always_fault split: option.splits outcome.splits)
  ultimately show ?thesis unfolding CardTerminal_Command_def Let_def by (intro always_if short_reply) simp_all
qed

lemma copy_response_le:
  assumes "copy_response r lr rsp ret = Returns (ret', lr', rsp')" "rsp_length r \<le> 35"
  shows "unat lr' \<le> rsp_length r"
proof -
  have "lr' = of_int (min (uint lr) (int (rsp_length r)))"
    using assms short_of_small [of "rsp_length r"]
    by (auto simp: copy_response_def Let_def APDU_Rsp_RawLen_def split: option.splits)
  then have "lr' = of_nat (min (unat lr) (rsp_length r))"
    by (metis of_int_of_nat_eq of_nat_min uint_nat)
  then have "unat lr' \<le> min (unat lr) (rsp_length r)" using take_bit_nat_less_eq_self by (simp only: unsigned_of_nat of_nat_id)
  then show ?thesis by simp
qed

lemma CT_data_short:
  assumes "host_ok h" "api_map s m" "length cmd < 65536"
    "run_state (CT_data h ctn 1 sad cmd lr rsp) s = (Returns (OK, dad', sad', lr', rsp'), s')"
  shows "unat lr' \<le> 35"
proof (cases "m ctn")
  case None
  then show ?thesis using assms(4) run_find_terminal [OF assms(2), of ctn] by (simp add: CT_data_def)
next
  case a: (Some a)
  obtain ct io where ct: "api_terms s a = Some (ct, io)" "ct_ok ct" using map_term [OF assms(2) a] by blast
  obtain c where c: "APDU_Cmd_New cmd (length cmd) = Some c" using Cmd_New_total [OF assms(3)] by auto
  obtain r p where run: "run_state (CardTerminal_Command h ct c) \<lparr>p_io = io, p_dev = api_dev s\<rparr> = (r, p)" by force
  have "short_rsp x" if "r = Returns x" for x
    using yields_orD [OF CardTerminal_Command_short [OF assms(1) ct(2)] TrueI run] that by blast
  then show ?thesis
    using assms(4) run_find_terminal [OF assms(2), of ctn] a c ct(1) run
    by (cases r) (auto simp: CT_data_def on_terminal_def terminal_data_def short_rsp_def split: option.splits outcome.splits prod.splits
        dest!: copy_response_le)
qed

section \<open>The invariant of the handler\<close>

text \<open>
  The library is consistent, the answer to reset of every context fits its array, and every
  open terminal has a context, so that no channel is open behind the back of the handler.
\<close>

definition context_ok :: "IFDH_Context \<Rightarrow> bool" where
  "context_ok c \<longleftrightarrow> length (ATR_bytes (icc_state c)) = MAX_ATR_SIZE \<and> unat (ATR_Length (icc_state c)) \<le> MAX_ATR_SIZE"

definition ifdh_ok :: "'d ifdh \<Rightarrow> bool" where
  "ifdh_ok s \<longleftrightarrow> api_ok (ifdh_api s) \<and> (\<forall>r sl c. ifdh_context s r sl = Some c \<longrightarrow> context_ok c) \<and>
     (\<forall>ctn. opened (ifdh_api s) ctn \<noteq> None \<longrightarrow> ifdh_context s (unat ctn) 0 \<noteq> None)"

lemma run_ifdh [simp]:
  "run_state (on_api m) s = (case run_state m (ifdh_api s) of (x, a) \<Rightarrow> (x, s\<lparr>ifdh_api := a\<rparr>))"
  "run_state (get_context r sl) s = (Returns (ifdh_context s r sl), s)"
  "run_state (put_context r sl c) s = (Returns (), s\<lparr>ifdh_context := (ifdh_context s)(r := (ifdh_context s r)(sl := Some c))\<rparr>)"
  "run_state (set_contexts r cs) s =
     (Returns (), s\<lparr>ifdh_context := (ifdh_context s)(r := (\<lambda>sl. if sl < IFDH_MAX_SLOTS then cs else ifdh_context s r sl))\<rparr>)"
  by (simp_all add: on_api_def get_context_def put_context_def set_contexts_def)

lemma lun_slot_0 [simp]: "lun_slot Lun = 0"
  by (simp add: lun_slot_def IFDH_MAX_SLOTS_def)

lemma api_step_ok:
  "ifdh_ok s \<Longrightarrow> api_ok a \<Longrightarrow> (\<And>n. opened a n \<noteq> None \<Longrightarrow> opened (ifdh_api s) n \<noteq> None) \<Longrightarrow> ifdh_ok (s\<lparr>ifdh_api := a\<rparr>)"
  by (simp add: ifdh_ok_def)

lemma put_context_ok:
  "ifdh_ok s \<Longrightarrow> context_ok c \<Longrightarrow> ifdh_ok (s\<lparr>ifdh_context := (ifdh_context s)(r := (ifdh_context s r)(sl := Some c))\<rparr>)"
  by (auto simp: ifdh_ok_def)

lemma data_step_ok:
  assumes "host_ok h" "ifdh_ok s" "length cmd < 65536"
    "run_state (CT_data h ctn dad sad cmd lr rsp) (ifdh_api s) = (Returns (ret, dad', sad', lr', rsp'), a)"
  shows "ifdh_ok (s\<lparr>ifdh_api := a\<rparr>)" "length rsp' = length rsp"
proof -
  have ok: "api_ok (ifdh_api s)" using assms(2) by (simp add: ifdh_ok_def)
  note step = CT_data_opened [OF assms(1) ok assms(3,4)]
  have "opened (ifdh_api s) n \<noteq> None" if "opened a n \<noteq> None" for n
    using step that by (cases "n = ctn") (auto split: option.splits)
  then show "ifdh_ok (s\<lparr>ifdh_api := a\<rparr>)" using step by (intro api_step_ok assms(2)) auto
  show "length rsp' = length rsp" using step by blast
qed

lemma unat_length: "length bs \<le> 33 \<Longrightarrow> unat (of_nat (length bs) :: dword) = length bs"
  by (simp add: unsigned_of_nat take_bit_nat_eq_self_iff)

text \<open>Storing an answer to reset and reading it back.\<close>

lemma store_atr_spec:
  assumes "ifdh_ok s" "ifdh_context s r sl = Some ctx" "length bs \<le> 33"
  shows "\<exists>c. run_state (store_atr r sl bs) s = (Returns (), s\<lparr>ifdh_context := (ifdh_context s)(r := (ifdh_context s r)(sl := Some c))\<rparr>) \<and>
    context_ok c \<and> ATR_Length (icc_state c) = of_nat (length bs) \<and> take (length bs) (ATR_bytes (icc_state c)) = bs"
proof -
  have "length (ATR_bytes (icc_state ctx)) = 33" using assms(1,2) by (auto simp: ifdh_ok_def context_ok_def MAX_ATR_SIZE_def)
  then show ?thesis
    using assms unat_length [OF assms(3)]
    by (intro exI [of _ "ctx\<lparr>icc_state := icc_state ctx\<lparr>ATR_bytes := bs @ drop (length bs) (ATR_bytes (icc_state ctx)),
        ATR_Length := of_nat (length bs)\<rparr>\<rparr>"]) (simp add: store_atr_def memcpy_at_def context_ok_def MAX_ATR_SIZE_def)
qed

lemma GetCapabilities_atr:
  assumes "ifdh_context s (unat (lun_ctn Lun)) 0 = Some c" "context_ok c" "33 \<le> length val"
  shows "\<exists>v. run_state (IFDHGetCapabilities Lun TAG_IFD_ATR val) s = (Returns (IFD_SUCCESS, ATR_Length (icc_state c), v), s) \<and>
    take (unat (ATR_Length (icc_state c))) v = take (unat (ATR_Length (icc_state c))) (ATR_bytes (icc_state c))"
  using assms by (simp add: IFDHGetCapabilities_def Let_def context_ok_def MAX_ATR_SIZE_def bytes_at_def memcpy_at_def)

text \<open>
  \<open>atr_kept s s' rv Atr' n\<close>: the outcome of a call that asks for the answer to reset.  On
  success the context holds what the caller got.
\<close>

definition atr_kept :: "dword \<Rightarrow> 'd ifdh \<Rightarrow> response_code \<Rightarrow> byte list \<Rightarrow> dword \<Rightarrow> bool" where
  "atr_kept Lun s' rv Atr' n \<longleftrightarrow> (rv = IFD_SUCCESS \<longrightarrow>
     (\<exists>c. ifdh_context s' (unat (lun_ctn Lun)) 0 = Some c \<and> ATR_Length (icc_state c) = n \<and> unat n \<le> 33 \<and>
        take (unat n) (ATR_bytes (icc_state c)) = take (unat n) Atr'))"

lemma power_atr_spec:
  assumes "host_ok h" "ifdh_ok s" "ifdh_context s (unat (lun_ctn Lun)) 0 = Some ctx" "length rsp0 = 256" "33 \<le> length Atr" "length cmd < 65536"
    "failure \<noteq> IFD_SUCCESS" "run_state (power_atr h rsp0 (lun_ctn Lun) 0 cmd failure Atr AtrLength) s = (r, s')"
  shows "(r = Faults \<longleftrightarrow> fst (run_state (CT_data h (lun_ctn Lun) 1 2 cmd 256 rsp0) (ifdh_api s)) = Faults) \<and>
    (\<forall>rv Atr' n. r = Returns (rv, Atr', n) \<longrightarrow> ifdh_ok s' \<and> atr_kept Lun s' rv Atr' n)"
proof -
  let ?ctn = "lun_ctn Lun"
  obtain q a where run: "run_state (CT_data h ?ctn 1 2 cmd 256 rsp0) (ifdh_api s) = (q, a)" by force
  show ?thesis
  proof (cases q)
    case (Returns x)
    obtain ret dad' sad' lr' rsp' where x: "x = (ret, dad', sad', lr', rsp')" by (cases x) auto
    note data = run [unfolded Returns x]
    let ?s = "s\<lparr>ifdh_api := a\<rparr>"
    have ok: "ifdh_ok ?s" "length rsp' = 256" using data_step_ok [OF assms(1,2) assms(6) data] assms(4) by auto
    show ?thesis
    proof (cases "ret = OK \<and> lr' \<ge> 2")
      case True
      obtain m where "api_map (ifdh_api s) m" using assms(2) by (auto simp: ifdh_ok_def api_ok_def)
      then have lr: "unat lr' \<le> 35" using CT_data_short [OF assms(1) _ assms(6)] data True by blast
      let ?bs = "take (unat lr' - 2) rsp'"
      have bs: "length ?bs = unat lr' - 2" "length ?bs \<le> 33" using lr ok(2) by auto
      have "ifdh_context ?s (unat ?ctn) 0 = Some ctx" using assms(3) by simp
      from store_atr_spec [OF ok(1) this bs(2)] obtain c where
        c: "run_state (store_atr (unat ?ctn) 0 ?bs) ?s = (Returns (), ?s\<lparr>ifdh_context := (ifdh_context ?s)(unat ?ctn := (ifdh_context ?s (unat ?ctn))(0 := Some c))\<rparr>)"
          "context_ok c" "ATR_Length (icc_state c) = of_nat (length ?bs)" "take (length ?bs) (ATR_bytes (icc_state c)) = ?bs" by blast
      have "run_state (power_atr h rsp0 ?ctn 0 cmd failure Atr AtrLength) s =
          (Returns (IFD_SUCCESS, ?bs @ drop (length ?bs) Atr, of_nat (length ?bs)),
           ?s\<lparr>ifdh_context := (ifdh_context ?s)(unat ?ctn := (ifdh_context ?s (unat ?ctn))(0 := Some c))\<rparr>)"
        using data True c(1) bs assms(5) by (simp add: power_atr_def memcpy_at_def)
      then show ?thesis
        using assms(8) data put_context_ok [OF ok(1) c(2), of "unat ?ctn" 0] c(3,4) bs unat_length [OF bs(2)] by (auto simp: atr_kept_def)
    next
      case False
      then have "run_state (power_atr h rsp0 ?ctn 0 cmd failure Atr AtrLength) s = (Returns (failure, Atr, AtrLength), ?s)"
        using data by (auto simp: power_atr_def)
      then show ?thesis using assms(7,8) data ok(1) by (auto simp: atr_kept_def)
    qed
  qed (use run assms(8) in \<open>auto simp: power_atr_def\<close>)
qed

lemma power_down_spec:
  assumes "host_ok h" "ifdh_ok s" "ifdh_context s (unat (lun_ctn Lun)) 0 = Some ctx"
    "run_state (power_down h rsp0 (lun_ctn Lun) 0 Atr AtrLength) s = (r, s')"
  shows "(r = Faults \<longleftrightarrow> fst (run_state (CT_data h (lun_ctn Lun) 1 2 [CTBCS_CLA, CTBCS_INS_EJECT, 1, 0, 0] 256 rsp0) (ifdh_api s)) = Faults) \<and>
    (\<forall>rv Atr' n. r = Returns (rv, Atr', n) \<longrightarrow> ifdh_ok s' \<and> atr_kept Lun s' rv Atr' n \<and> (rv = IFD_SUCCESS \<longrightarrow> n = 0))"
proof -
  let ?cmd = "[CTBCS_CLA, CTBCS_INS_EJECT, 1, 0, 0]"
  let ?c = "ctx\<lparr>icc_state := icc_state ctx\<lparr>ATR_Length := 0, ATR_bytes := replicate MAX_ATR_SIZE 0\<rparr>\<rparr>"
  obtain q a where run: "run_state (CT_data h (lun_ctn Lun) 1 2 ?cmd 256 rsp0) (ifdh_api s) = (q, a)" by force
  have fault: "r = Faults \<longleftrightarrow> fst (run_state (CT_data h (lun_ctn Lun) 1 2 ?cmd 256 rsp0) (ifdh_api s)) = Faults"
    using run assms(3,4) by (cases q) (auto simp: power_down_def split: prod.splits if_splits)
  have c: "context_ok ?c" by (simp add: context_ok_def)
  show ?thesis
  proof (cases q)
    case (Returns x)
    obtain ret dad' sad' lr' rsp' where x: "x = (ret, dad', sad', lr', rsp')" by (cases x) auto
    have "ifdh_ok (s\<lparr>ifdh_api := a\<rparr>)" by (rule data_step_ok(1) [OF assms(1,2) _ run [unfolded Returns x]]) simp
    then show ?thesis
      using put_context_ok [OF _ c, of "s\<lparr>ifdh_api := a\<rparr>" "unat (lun_ctn Lun)" 0] fault run assms(3,4) Returns x
      by (auto simp: power_down_def atr_kept_def split: if_splits)
  qed (use run assms(4) fault in \<open>auto simp: power_down_def\<close>)
qed

text \<open>The command each action sends to the terminal.\<close>

definition power_command :: "dword \<Rightarrow> byte list" where
  "power_command Action =
     (if Action = IFD_POWER_UP then [CTBCS_CLA, CTBCS_INS_REQUEST, 1, CTBCS_P2_REQUEST_GET_ATR, 0]
      else if Action = IFD_POWER_DOWN then [CTBCS_CLA, CTBCS_INS_EJECT, 1, 0, 0]
      else [CTBCS_CLA, CTBCS_INS_RESET, 1, CTBCS_P2_RESET_GET_ATR, 0])"

definition power_faults :: "'d host \<Rightarrow> byte list \<Rightarrow> dword \<Rightarrow> dword \<Rightarrow> 'd ifdh \<Rightarrow> bool" where
  "power_faults h rsp0 Lun Action s \<longleftrightarrow> Action \<in> {IFD_POWER_UP, IFD_POWER_DOWN, IFD_RESET} \<and> ifdh_context s (unat (lun_ctn Lun)) 0 \<noteq> None \<and>
     fst (run_state (CT_data h (lun_ctn Lun) 1 2 (power_command Action) 256 rsp0) (ifdh_api s)) = Faults"

lemma PowerICC_spec:
  assumes "host_ok h" "ifdh_ok s" "length rsp0 = 256" "33 \<le> length Atr" "run_state (IFDHPowerICC h rsp0 Lun Action Atr AtrLength) s = (r, s')"
  shows "(r = Faults \<longleftrightarrow> power_faults h rsp0 Lun Action s) \<and>
    (\<forall>rv Atr' n. r = Returns (rv, Atr', n) \<longrightarrow> ifdh_ok s' \<and> atr_kept Lun s' rv Atr' n \<and> (rv = IFD_SUCCESS \<and> Action = IFD_POWER_DOWN \<longrightarrow> n = 0))"
proof (cases "ifdh_context s (unat (lun_ctn Lun)) 0")
  case None
  then show ?thesis using assms(2,5) by (auto simp: IFDHPowerICC_def Let_def atr_kept_def power_faults_def)
next
  case ctx: (Some ctx)
  note atr = power_atr_spec [OF assms(1,2) ctx assms(3,4)]
  show ?thesis
  proof (cases "Action = IFD_POWER_UP")
    case True
    then have "Action \<noteq> IFD_POWER_DOWN" by (simp add: ifdh_actions)
    with True atr [of "[CTBCS_CLA, CTBCS_INS_REQUEST, 1, CTBCS_P2_REQUEST_GET_ATR, 0]" IFD_COMMUNICATION_ERROR AtrLength r s'] assms(5) ctx show ?thesis
      by (simp add: IFDHPowerICC_def Let_def power_faults_def power_command_def)
  next
    case up: False
    show ?thesis
    proof (cases "Action = IFD_POWER_DOWN")
      case True
      with up power_down_spec [OF assms(1,2) ctx, of rsp0 Atr AtrLength r s'] assms(5) ctx show ?thesis
        by (simp add: IFDHPowerICC_def Let_def power_faults_def power_command_def)
    next
      case down: False
      with up atr [of "[CTBCS_CLA, CTBCS_INS_RESET, 1, CTBCS_P2_RESET_GET_ATR, 0]" IFD_ERROR_POWER_ACTION AtrLength r s'] assms(2,5) ctx show ?thesis
        by (cases "Action = IFD_RESET") (auto simp: IFDHPowerICC_def Let_def atr_kept_def power_faults_def power_command_def)
    qed
  qed
qed

subsection \<open>Channels\<close>

text \<open>
  Opening a channel that has a context does nothing; otherwise success means that the terminal
  is open, and failure leaves the terminals and contexts as they were.
\<close>

definition create_result :: "dword \<Rightarrow> 'd ifdh \<Rightarrow> response_code \<Rightarrow> 'd ifdh \<Rightarrow> bool" where
  "create_result Lun s rv s' \<longleftrightarrow>
     (if ifdh_context s (unat (lun_ctn Lun)) 0 \<noteq> None then rv = IFD_SUCCESS \<and> s' = s
      else if rv = IFD_SUCCESS then opened (ifdh_api s') (lun_ctn Lun) \<noteq> None \<and> ifdh_context s' (unat (lun_ctn Lun)) 0 = Some zero_context
      else rv = IFD_COMMUNICATION_ERROR \<and> opened (ifdh_api s') = opened (ifdh_api s) \<and> ifdh_context s' = ifdh_context s)"

lemma CreateChannel_spec:
  assumes "ifdh_ok s"
  shows "\<exists>rv s'. run_state (IFDHCreateChannel h Lun Channel) s = (Returns rv, s') \<and> ifdh_ok s' \<and> create_result Lun s rv s'"
proof (cases "ifdh_context s (unat (lun_ctn Lun)) 0")
  case (Some c)
  then show ?thesis using assms by (simp add: IFDHCreateChannel_def create_result_def Let_def)
next
  case None
  let ?ctn = "lun_ctn Lun"
  have free: "opened (ifdh_api s) ?ctn = None" using assms None by (auto simp: ifdh_ok_def)
  have "api_ok (ifdh_api s)" using assms by (simp add: ifdh_ok_def)
  from CT_init_opened [OF this, of h ?ctn "channel_port h Channel"] obtain ret a where
    init: "run_state (CT_init h ?ctn (channel_port h Channel)) (ifdh_api s) = (Returns ret, a)" "api_ok a"
      "if ret = OK then \<exists>ct. ct_ok ct \<and> ct_live ct \<and> opened a = (opened (ifdh_api s))(?ctn \<mapsto> ct) else ret = ERR_TRANS \<and> opened a = opened (ifdh_api s)"
    unfolding free by (elim exE conjE) (rule that, simp_all)
  show ?thesis
  proof (cases "ret = OK")
    case True
    then obtain ct where ct: "opened a = (opened (ifdh_api s))(?ctn \<mapsto> ct)" using init(3) by auto
    let ?s = "s\<lparr>ifdh_api := a, ifdh_context := (ifdh_context s)(unat ?ctn := (\<lambda>sl. if sl < IFDH_MAX_SLOTS then Some zero_context else ifdh_context s (unat ?ctn) sl))\<rparr>"
    have "context_ok zero_context" by (simp add: context_ok_def zero_context_def)
    then have "ifdh_ok ?s"
      using assms init(2) ct by (auto simp: ifdh_ok_def IFDH_MAX_SLOTS_def split: if_splits)
    then show ?thesis using init(1) True None ct by (simp add: IFDHCreateChannel_def create_result_def IFDH_MAX_SLOTS_def Let_def cong: if_cong)
  next
    case False
    then have "ifdh_ok (s\<lparr>ifdh_api := a\<rparr>)" using assms init(2,3) by (intro api_step_ok) auto
    then show ?thesis using init(1,3) False None by (simp add: IFDHCreateChannel_def create_result_def Let_def)
  qed
qed

lemma CloseChannel_spec:
  assumes "ifdh_ok s"
  shows "\<exists>rv s'. run_state (IFDHCloseChannel h Lun) s = (Returns rv, s') \<and> ifdh_ok s' \<and>
    opened (ifdh_api s') = (opened (ifdh_api s))(lun_ctn Lun := None) \<and>
    (if rv = IFD_SUCCESS then ifdh_context s' (unat (lun_ctn Lun)) 0 = None else rv = IFD_COMMUNICATION_ERROR \<and> ifdh_context s' = ifdh_context s)"
proof -
  let ?ctn = "lun_ctn Lun"
  have "api_ok (ifdh_api s)" using assms by (simp add: ifdh_ok_def)
  from CT_close_opened [OF this, of h ?ctn] obtain ret a where
    close: "run_state (CT_close h ?ctn) (ifdh_api s) = (Returns ret, a)" "api_ok a" "opened a = (opened (ifdh_api s))(?ctn := None)"
    by (elim exE conjE) (rule that)
  let ?s = "s\<lparr>ifdh_api := a, ifdh_context := (ifdh_context s)(unat ?ctn := (\<lambda>sl. if sl < IFDH_MAX_SLOTS then None else ifdh_context s (unat ?ctn) sl))\<rparr>"
  show ?thesis
  proof (cases "ret = OK")
    case True
    have "unat n = unat ?ctn \<longleftrightarrow> n = ?ctn" for n by (auto dest: unsigned_word_eqI)
    then have "ifdh_ok ?s" using assms close(2,3) by (auto simp: ifdh_ok_def split: if_splits)
    then show ?thesis using close True by (simp add: IFDHCloseChannel_def IFDH_MAX_SLOTS_def cong: if_cong)
  next
    case False
    have "ifdh_ok (s\<lparr>ifdh_api := a\<rparr>)" using assms close(2,3) by (intro api_step_ok) (auto split: if_splits)
    then show ?thesis using close False by (simp add: IFDHCloseChannel_def)
  qed
qed

subsection \<open>Sequences of calls\<close>

lemma store_atr_ok:
  assumes "ifdh_ok s" "run_state (store_atr r sl bs) s = (Returns u, s')"
  shows "ifdh_ok s'"
proof -
  obtain ctx where ctx: "ifdh_context s r sl = Some ctx" using assms(2) by (auto simp: store_atr_def split: option.splits)
  have "length (ATR_bytes (icc_state ctx)) = 33" using assms(1) ctx by (auto simp: ifdh_ok_def context_ok_def MAX_ATR_SIZE_def)
  then have "length bs \<le> 33" using assms(2) ctx by (auto simp: store_atr_def memcpy_at_def split: option.splits if_splits)
  from store_atr_spec [OF assms(1) ctx this] put_context_ok [OF assms(1)] assms(2) show ?thesis by auto
qed

lemma SetProtocolParameters_ok:
  assumes "host_ok h" "ifdh_ok s" "run_state (IFDHSetProtocolParameters h rsp0 Lun Protocol Flags PTS1 PTS2 PTS3) s = (Returns rv, s')"
  shows "ifdh_ok s'"
proof (cases "ifdh_context s (unat (lun_ctn Lun)) 0")
  case None
  then show ?thesis using assms(2,3) by (simp add: IFDHSetProtocolParameters_def Let_def)
next
  case (Some ctx)
  let ?cmd = "pts_command 0 Protocol Flags PTS1 PTS2 PTS3"
  obtain q a where run: "run_state (CT_data h (lun_ctn Lun) 1 2 ?cmd 256 rsp0) (ifdh_api s) = (q, a)" by force
  obtain ret dad' sad' lr' rsp' where q: "q = Returns (ret, dad', sad', lr', rsp')"
    using assms(3) Some run by (cases q) (auto simp: IFDHSetProtocolParameters_def Let_def)
  have "ifdh_ok (s\<lparr>ifdh_api := a\<rparr>)"
    by (rule data_step_ok(1) [OF assms(1,2) _ run [unfolded q]]) (simp add: pts_command_def)
  then show ?thesis
    using assms(3) Some run q
    by (auto simp: IFDHSetProtocolParameters_def Let_def split: if_splits prod.splits outcome.splits dest: store_atr_ok)
qed

lemma ct_exchange_ok:
  assumes "host_ok h" "ifdh_ok s"
    "run_state (ct_exchange h ctn dad TxBuffer TxLength RxBuffer RxLength) s = (Returns (rv, rsp', n), s')"
  shows "ifdh_ok s' \<and> length rsp' = length RxBuffer"
proof -
  let ?cmd = "take (unat (ucast TxLength :: 16 word)) TxBuffer"
  obtain q a where run: "run_state (CT_data h ctn dad 2 ?cmd (ucast RxLength) RxBuffer) (ifdh_api s) = (q, a)" by force
  obtain ret dad' sad' lr1 rsp1 where q: "q = Returns (ret, dad', sad', lr1, rsp1)"
    using assms(3) run by (cases q) (auto simp: ct_exchange_def bytes_at_def split: if_splits)
  have "rsp' = rsp1" "s' = s\<lparr>ifdh_api := a\<rparr>" using assms(3) run q by (auto simp: ct_exchange_def bytes_at_def split: if_splits)
  moreover have "length ?cmd < 65536" using unsigned_less [of "ucast TxLength :: 16 word", where 'a = nat] by (simp add: min_def)
  ultimately show ?thesis using data_step_ok [OF assms(1,2) _ run [unfolded q]] by simp
qed

lemma ICCPresence_ok:
  assumes "host_ok h" "ifdh_ok s" "run_state (IFDHICCPresence h rsp0 Lun) s = (Returns rv, s')"
  shows "ifdh_ok s'"
proof -
  let ?cmd = "[CTBCS_CLA, CTBCS_INS_STATUS, CTBCS_P1_CT_KERNEL, CTBCS_P2_STATUS_ICC, 0]"
  obtain q a where run: "run_state (CT_data h (lun_ctn Lun) 1 2 ?cmd 256 rsp0) (ifdh_api s) = (q, a)" by force
  obtain ret dad' sad' lr' rsp' where q: "q = Returns (ret, dad', sad', lr', rsp')"
    using assms(3) run by (cases q) (auto simp: IFDHICCPresence_def Let_def)
  have "s' = s\<lparr>ifdh_api := a\<rparr>" using assms(3) run q by (auto simp: IFDHICCPresence_def Let_def split: if_splits)
  then show ?thesis using data_step_ok(1) [OF assms(1,2) _ run [unfolded q]] by simp
qed

text \<open>
  The states the calls of the resource manager lead to, with arbitrary readers and cards and
  arbitrary values in the uninitialised locals of each call; the caller of
  \<open>IFDHPowerICC\<close> offers an array of at least 33 bytes.  A call that faults or does not
  return has no successor.
\<close>

definition ifdh_start :: "'d \<Rightarrow> 'd ifdh" where
  "ifdh_start d = \<lparr>ifdh_api = api_start d, ifdh_context = (\<lambda>_ _. None)\<rparr>"

inductive ifdh_reach :: "'d ifdh \<Rightarrow> bool" where
  start: "ifdh_reach (ifdh_start d)"
| create: "ifdh_reach s \<Longrightarrow> run_state (IFDHCreateChannel h Lun Channel) s = (Returns rv, s') \<Longrightarrow> ifdh_reach s'"
| channel_closed: "ifdh_reach s \<Longrightarrow> run_state (IFDHCloseChannel h Lun) s = (Returns rv, s') \<Longrightarrow> ifdh_reach s'"
| parameters: "ifdh_reach s \<Longrightarrow> host_ok h \<Longrightarrow>
    run_state (IFDHSetProtocolParameters h rsp0 Lun Protocol Flags PTS1 PTS2 PTS3) s = (Returns rv, s') \<Longrightarrow> ifdh_reach s'"
| power: "ifdh_reach s \<Longrightarrow> host_ok h \<Longrightarrow> length rsp0 = 256 \<Longrightarrow> 33 \<le> length Atr \<Longrightarrow>
    run_state (IFDHPowerICC h rsp0 Lun Action Atr AtrLength) s = (Returns (rv, Atr', n), s') \<Longrightarrow> ifdh_reach s'"
| transmit: "ifdh_reach s \<Longrightarrow> host_ok h \<Longrightarrow>
    run_state (IFDHTransmitToICC h Lun TxBuffer TxLength RxBuffer RxLength) s = (Returns (rv, Rx', n), s') \<Longrightarrow> ifdh_reach s'"
| control: "ifdh_reach s \<Longrightarrow> host_ok h \<Longrightarrow>
    run_state (IFDHControl h Lun TxBuffer TxLength RxBuffer RxLength) s = (Returns (rv, Rx', n), s') \<Longrightarrow> ifdh_reach s'"
| presence: "ifdh_reach s \<Longrightarrow> host_ok h \<Longrightarrow> run_state (IFDHICCPresence h rsp0 Lun) s = (Returns rv, s') \<Longrightarrow> ifdh_reach s'"

lemma ifdh_start_ok: "ifdh_ok (ifdh_start d)"
  by (simp add: ifdh_start_def ifdh_ok_def api_start_ok)

lemma exchanges_ok:
  assumes "host_ok h" "ifdh_ok s"
  shows "run_state (IFDHTransmitToICC h Lun TxBuffer TxLength RxBuffer RxLength) s = (Returns (rv, Rx', n), s') \<Longrightarrow> ifdh_ok s'"
    "run_state (IFDHControl h Lun TxBuffer TxLength RxBuffer RxLength) s = (Returns (rv, Rx', n), s') \<Longrightarrow> ifdh_ok s'"
  using assms(2) ct_exchange_ok [OF assms, where TxBuffer = TxBuffer and TxLength = TxLength and RxBuffer = RxBuffer and RxLength = RxLength]
  by (auto simp: IFDHTransmitToICC_def IFDHControl_def Let_def split: option.splits)

lemma ifdh_reach_ok: "ifdh_reach s \<Longrightarrow> ifdh_ok s"
proof (induction rule: ifdh_reach.induct)
  case (create s h Lun Channel rv s')
  then show ?case using CreateChannel_spec [OF create.IH, of h Lun Channel] by auto
next
  case (channel_closed s h Lun rv s')
  then show ?case using CloseChannel_spec [OF channel_closed.IH, of h Lun] by auto
next
  case (power s h rsp0 Atr Lun Action AtrLength rv Atr' n s')
  then show ?case using PowerICC_spec [OF power.hyps(2) power.IH power.hyps(3-5)] by blast
qed (auto simp: ifdh_start_ok intro: SetProtocolParameters_ok ICCPresence_ok exchanges_ok)

text \<open>
  (C14) In every state that calls of the resource manager which return lead to, an open
  terminal belongs to a context of the handler, and the answer to reset of a context is
  returned inside 33 bytes.  Opening a channel returns: at once with success where there is a
  context, otherwise with success and the terminal open, or with a communication error and
  nothing changed.  Closing a channel returns, and the terminal is no longer open.
\<close>

theorem ifdh_reach_safe:
  assumes "ifdh_reach s"
  shows "(\<forall>ctn. opened (ifdh_api s) ctn \<noteq> None \<longrightarrow> ifdh_context s (unat ctn) 0 \<noteq> None) \<and>
    (ifdh_context s (unat (lun_ctn Lun)) 0 \<noteq> None \<and> 33 \<le> length val \<longrightarrow>
       (\<exists>n v. run_state (IFDHGetCapabilities Lun TAG_IFD_ATR val) s = (Returns (IFD_SUCCESS, n, v), s) \<and> unat n \<le> 33)) \<and>
    (\<exists>rv s'. run_state (IFDHCreateChannel h Lun Channel) s = (Returns rv, s') \<and> ifdh_reach s' \<and> create_result Lun s rv s') \<and>
    (\<exists>rv s'. run_state (IFDHCloseChannel h Lun) s = (Returns rv, s') \<and> ifdh_reach s' \<and> opened (ifdh_api s') (lun_ctn Lun) = None)"
proof (intro conjI impI)
  have ok: "ifdh_ok s" by (rule ifdh_reach_ok [OF assms])
  then show "\<forall>ctn. opened (ifdh_api s) ctn \<noteq> None \<longrightarrow> ifdh_context s (unat ctn) 0 \<noteq> None" by (simp add: ifdh_ok_def)
  show "\<exists>rv s'. run_state (IFDHCreateChannel h Lun Channel) s = (Returns rv, s') \<and> ifdh_reach s' \<and> create_result Lun s rv s'"
    using CreateChannel_spec [OF ok, of h Lun Channel] ifdh_reach.create [OF assms] by blast
  obtain rv s' where close: "run_state (IFDHCloseChannel h Lun) s = (Returns rv, s')" "opened (ifdh_api s') = (opened (ifdh_api s))(lun_ctn Lun := None)"
    using CloseChannel_spec [OF ok, of h Lun] by (elim exE conjE) (rule that)
  then show "\<exists>rv s'. run_state (IFDHCloseChannel h Lun) s = (Returns rv, s') \<and> ifdh_reach s' \<and> opened (ifdh_api s') (lun_ctn Lun) = None"
    using ifdh_reach.channel_closed [OF assms close(1)] by (intro exI [of _ rv] exI [of _ s']) simp
  assume ctx: "ifdh_context s (unat (lun_ctn Lun)) 0 \<noteq> None \<and> 33 \<le> length val"
  then obtain c where c: "ifdh_context s (unat (lun_ctn Lun)) 0 = Some c" "context_ok c" using ok by (auto simp: ifdh_ok_def)
  have "unat (ATR_Length (icc_state c)) \<le> 33" using c(2) by (simp add: context_ok_def MAX_ATR_SIZE_def)
  then show "\<exists>n v. run_state (IFDHGetCapabilities Lun TAG_IFD_ATR val) s = (Returns (IFD_SUCCESS, n, v), s) \<and> unat n \<le> 33"
    using GetCapabilities_atr [OF c ctx [THEN conjunct2]] by blast
qed

text \<open>A channel to the scripted reader is opened on \<open>COM1\<close>, asked for its answer to reset, and closed.\<close>

lemma lun_ctn_0 [simp]: "lun_ctn 0 = 0"
  by (simp add: lun_ctn_def)

lemma reader_channel:
  "\<exists>s. run_state (IFDHCreateChannel sample_host 0 0x0103F8) (ifdh_start (p_dev reader_port)) = (Returns IFD_SUCCESS, s) \<and>
     opened (ifdh_api s) 0 \<noteq> None \<and> ifdh_context s 0 0 \<noteq> None"
proof -
  have "channel_port sample_host 0x0103F8 = 0" by (simp add: channel_port_def sample_host_def PORT_COM1_def)
  then show ?thesis
    using reader_opens [of 0]
    by (auto simp: IFDHCreateChannel_def ifdh_start_def reader_api_def IFDH_MAX_SLOTS_def Let_def)
qed

lemma ifdh_reach_safe_witness:
  "\<exists>s n v rv s'. run_state (IFDHCreateChannel sample_host 0 0x0103F8) (ifdh_start (p_dev reader_port)) = (Returns IFD_SUCCESS, s) \<and>
     opened (ifdh_api s) 0 \<noteq> None \<and> run_state (IFDHGetCapabilities 0 TAG_IFD_ATR (replicate 33 7)) s = (Returns (IFD_SUCCESS, n, v), s) \<and>
     run_state (IFDHCloseChannel sample_host 0) s = (Returns rv, s') \<and> ifdh_reach s' \<and> opened (ifdh_api s') 0 = None"
proof -
  obtain s where s: "run_state (IFDHCreateChannel sample_host 0 0x0103F8) (ifdh_start (p_dev reader_port)) = (Returns IFD_SUCCESS, s)"
    "opened (ifdh_api s) 0 \<noteq> None" "ifdh_context s 0 0 \<noteq> None" using reader_channel by blast
  have "ifdh_reach s" by (rule ifdh_reach.create [OF ifdh_reach.start s(1)])
  from ifdh_reach_safe [OF this, of 0 "replicate 33 7" sample_host 0] s show ?thesis by fastforce
qed

text \<open>
  (C15) Powering a card.  Whenever the call succeeds, at most 33 bytes of answer to reset are
  returned, and asking the handler for the answer to reset yields the same bytes; after a
  power down there are none.  The copies stay inside the arrays of the handler and of the
  caller, when that has at least 33 bytes: the call faults exactly when the channel has a
  context, the action is known, and the one command the action sends to the terminal, REQUEST,
  EJECT or RESET, faults.
\<close>

theorem IFDHPowerICC_atr:
  assumes "host_ok h" "ifdh_ok s" "length rsp0 = 256" "33 \<le> length Atr" "33 \<le> length val"
    "run_state (IFDHPowerICC h rsp0 Lun Action Atr AtrLength) s = (r, s')"
  shows "(r = Faults \<longleftrightarrow> power_faults h rsp0 Lun Action s) \<and>
    (\<forall>Atr' n. r = Returns (IFD_SUCCESS, Atr', n) \<longrightarrow> unat n \<le> 33 \<and> (Action = IFD_POWER_DOWN \<longrightarrow> n = 0) \<and>
       (\<exists>v. run_state (IFDHGetCapabilities Lun TAG_IFD_ATR val) s' = (Returns (IFD_SUCCESS, n, v), s') \<and> take (unat n) v = take (unat n) Atr'))"
proof -
  note spec = PowerICC_spec [OF assms(1-4,6)]
  show ?thesis
  proof (intro conjI allI impI, goal_cases)
    case 1
    then show ?case using spec by blast
  next
    case (2 Atr' n)
    then show ?case using spec by (auto simp: atr_kept_def)
  next
    case (3 Atr' n)
    then show ?case using spec by blast
  next
    case (4 Atr' n)
    then have "ifdh_ok s'" "atr_kept Lun s' IFD_SUCCESS Atr' n" using spec by blast+
    then obtain c where "ifdh_context s' (unat (lun_ctn Lun)) 0 = Some c" "context_ok c" "ATR_Length (icc_state c) = n"
        "take (unat n) (ATR_bytes (icc_state c)) = take (unat n) Atr'" by (auto simp: atr_kept_def ifdh_ok_def)
    then show ?case using GetCapabilities_atr [of s' Lun c val] assms(5) by auto
  qed
qed

text \<open>A handler with one channel, to a terminal with an empty slot.\<close>

definition busy_ifdh :: "script ifdh" where
  "busy_ifdh = (let dev = p_dev (script_port [] None) in
     \<lparr>ifdh_api = \<lparr>api_list = Some \<lparr>list_first = Some 0, list_last = Some 0, list_elements = 1\<rparr>,
        api_store = \<lparr>nodes = [0 \<mapsto> \<lparr>node_ctn = 0, node_ct = 0, node_next = None\<rparr>], brk = 1\<rparr>,
        api_terms = [0 \<mapsto> (\<lparr>ct_io = True, ct_slots = [Some CT_Slot_Clear, None], ct_num_slots = 1\<rparr>, IO_Serial_New)],
        api_brk = 1, api_dev = dev\<rparr>,
      ifdh_context = (\<lambda>r sl. if r = 0 \<and> sl = 0 then Some zero_context else None)\<rparr>)"

lemma busy_ifdh_map: "api_map (ifdh_api busy_ifdh) [0 \<mapsto> 0]"
proof -
  have "ct_ok \<lparr>ct_io = True, ct_slots = [Some CT_Slot_Clear, None], ct_num_slots = 1\<rparr>"
    by (auto simp: ct_ok_def CARDTERMINAL_MAX_SLOTS_def slot_ok_def slot_free_def CT_Slot_Clear_def less_2_cases_iff)
  then show ?thesis
    by (auto simp: api_map_def busy_ifdh_def Let_def list_table_def list_ok_def entries_def intro!: exI [of _ "[0]"])
qed

lemma busy_ifdh_ok: "ifdh_ok busy_ifdh"
proof -
  have "context_ok zero_context" by (simp add: context_ok_def zero_context_def)
  moreover have "opened (ifdh_api busy_ifdh) n = None" if "0 < unat n" for n
    using opened_iff [OF busy_ifdh_map, of n] that by (auto split: if_splits)
  moreover have "ifdh_context busy_ifdh r sl = (if r = 0 \<and> sl = 0 then Some zero_context else None)" for r sl
    by (simp add: busy_ifdh_def Let_def)
  moreover have "api_ok (ifdh_api busy_ifdh)" using busy_ifdh_map by (auto simp: api_ok_def)
  ultimately show ?thesis by (auto simp: ifdh_ok_def split: if_splits)
qed

lemma IFDHPowerICC_atr_witness:
  "\<exists>Atr' s' v. run_state (IFDHPowerICC sample_host (replicate 256 0) 0 IFD_POWER_DOWN (replicate 33 0) 9) busy_ifdh = (Returns (IFD_SUCCESS, Atr', 0), s') \<and>
     run_state (IFDHGetCapabilities 0 TAG_IFD_ATR (replicate 33 7)) s' = (Returns (IFD_SUCCESS, 0, v), s')"
proof -
  have "run_state (find_terminal 0) (ifdh_api busy_ifdh) = (Returns (Some 0), ifdh_api busy_ifdh)"
    using run_find_terminal [OF busy_ifdh_map, of 0] by simp
  then have "\<exists>Atr' n s'. run_state (IFDHPowerICC sample_host (replicate 256 0) 0 IFD_POWER_DOWN (replicate 33 0) 9) busy_ifdh = (Returns (IFD_SUCCESS, Atr', n), s')"
    by (simp add: IFDHPowerICC_def Let_def ifdh_actions power_down_def CT_data_def APDU_Cmd_New_def apdu_sizes on_terminal_def busy_ifdh_def
        terminal_data_def CardTerminal_Command_def CardTerminal_EjectICC_def APDU_Cmd_Cla_def APDU_Cmd_Ins_def APDU_Cmd_P1_def CTBCS_CLA_def ctbcs_ins
        ctbcs_p1 is_interface_def slot_number_def on_slot_def CT_Slot_GetICCType_def CT_Slot_Clear_def ct_reply_def APDU_Rsp_New_def ctbcs_sw
        copy_response_def short_of_def APDU_Rsp_RawLen_def APDU_Rsp_Raw_def bytes_at_def memcpy_at_def)
  then obtain Atr' n s' where r: "run_state (IFDHPowerICC sample_host (replicate 256 0) 0 IFD_POWER_DOWN (replicate 33 0) 9) busy_ifdh =
      (Returns (IFD_SUCCESS, Atr', n), s')" by blast
  from IFDHPowerICC_atr [OF sample_host_ok busy_ifdh_ok _ _ _ r, of "replicate 33 7"] r show ?thesis by auto
qed

text \<open>
  (C17) A channel that is closed with an error is lost.  The terminal is closed and no longer
  open, but the context stays: opening the channel again reports success without opening
  anything, every command is answered with a communication error, and closing it again fails
  as before.
\<close>

theorem IFDHCloseChannel_stale:
  assumes "ifdh_ok s" "opened (ifdh_api s) (lun_ctn Lun) \<noteq> None" "run_state (IFDHCloseChannel h Lun) s = (Returns rv, s')" "rv \<noteq> IFD_SUCCESS"
  shows "opened (ifdh_api s') (lun_ctn Lun) = None \<and>
    run_state (IFDHCreateChannel h Lun Channel) s' = (Returns IFD_SUCCESS, s') \<and>
    (unat (ucast TxLength :: 16 word) \<le> length TxBuffer \<longrightarrow>
       run_state (IFDHTransmitToICC h Lun TxBuffer TxLength RxBuffer RxLength) s' = (Returns (IFD_COMMUNICATION_ERROR, RxBuffer, 0), s')) \<and>
    run_state (IFDHCloseChannel h Lun) s' = (Returns IFD_COMMUNICATION_ERROR, s')"
proof -
  let ?ctn = "lun_ctn Lun"
  obtain rv1 s1 where *: "run_state (IFDHCloseChannel h Lun) s = (Returns rv1, s1)" "ifdh_ok s1" "opened (ifdh_api s1) = (opened (ifdh_api s))(?ctn := None)"
      "if rv1 = IFD_SUCCESS then ifdh_context s1 (unat ?ctn) 0 = None else rv1 = IFD_COMMUNICATION_ERROR \<and> ifdh_context s1 = ifdh_context s"
    using CloseChannel_spec [OF assms(1), of h Lun] by (elim exE conjE) (rule that)
  have gone: "opened (ifdh_api s') ?ctn = None" using * assms(3) by simp
  have "ifdh_context s (unat ?ctn) 0 \<noteq> None" using assms(1,2) by (simp add: ifdh_ok_def)
  then obtain c where c: "ifdh_context s' (unat ?ctn) 0 = Some c" using * assms(3,4) by auto
  obtain m where m: "api_map (ifdh_api s') m" using * assms(3) by (auto simp: ifdh_ok_def api_ok_def)
  have find: "run_state (find_terminal ?ctn) (ifdh_api s') = (Returns None, ifdh_api s')"
    using run_find_terminal [OF m, of ?ctn] opened_iff [OF m, of ?ctn] gone by simp
  show ?thesis
    using gone c find
    by (simp add: IFDHCreateChannel_def IFDHTransmitToICC_def IFDHCloseChannel_def Let_def ct_exchange_def bytes_at_def CT_data_def CT_close_def)
qed

text \<open>A system on which the serial port cannot be closed.\<close>

definition stuck_host :: "script host" where
  "stuck_host = sample_host\<lparr>host_os := script_os\<lparr>os_close := \<lambda>_. State_Monad.return False\<rparr>\<rparr>"

lemma IFDHCloseChannel_stale_witness:
  "\<exists>s'. run_state (IFDHCloseChannel stuck_host 0) busy_ifdh = (Returns IFD_COMMUNICATION_ERROR, s') \<and>
     run_state (IFDHCreateChannel stuck_host 0 1) s' = (Returns IFD_SUCCESS, s')"
proof -
  have look: "CT_List_GetCardTerminal (api_store (ifdh_api busy_ifdh)) (api_list (ifdh_api busy_ifdh)) 0 = Returns (Some 0)"
    using find_map [OF busy_ifdh_map, of 0] by simp
  then have open0: "opened (ifdh_api busy_ifdh) (lun_ctn 0) \<noteq> None" by (simp add: opened_def busy_ifdh_def Let_def)
  obtain rv s' where r: "run_state (IFDHCloseChannel stuck_host 0) busy_ifdh = (Returns rv, s')"
    using CloseChannel_spec [OF busy_ifdh_ok, of stuck_host 0] by auto
  have "fst (run_state (on_terminal 0 (CardTerminal_Close stuck_host)) (ifdh_api busy_ifdh)) = Returns ERR_TRANS"
    by (simp add: on_terminal_def busy_ifdh_def Let_def CardTerminal_Close_def CT_Slot_Close_def slot_end_protocol_def slot_end_card_def CT_Slot_Clear_def
        ct_slot_types IO_Serial_Close_def stuck_host_def sample_host_def)
  then have "rv = IFD_COMMUNICATION_ERROR"
    using r run_find_terminal [OF busy_ifdh_map, of 0]
    by (auto simp: IFDHCloseChannel_def CT_close_def split: prod.splits outcome.splits if_splits)
  then show ?thesis using IFDHCloseChannel_stale [OF busy_ifdh_ok open0 r, of 1] r by auto
qed

end
