(* ===== verification/Spec2Isabelle.thy ===== *)
theory Spec2Isabelle
  imports IfdHandler
begin

text \<open>
  Verification of the driver for Towitoko smartcard readers.

  \<^bold>\<open>The program.\<close>  The driver talks to a smartcard reader at a serial port and offers two
  interfaces to applications: the CT-API (\<^verbatim>\<open>src/src/ct-api\<close>) and, on top of it, the PC/SC
  driver interface (\<^verbatim>\<open>src/src/ifd-handler\<close>).  Below them, in \<^verbatim>\<open>src/src/driver\<close>, lie
  the serial port, the command set of the reader, asynchronous (processor) cards with the
  protocols T=0 and T=1 and the selection between them, and synchronous (memory) cards on
  which interindustry commands are interpreted by the driver itself.  A command of an
  application passes \<^verbatim>\<open>IFDHTransmitToICC\<close>, \<^verbatim>\<open>CT_data\<close>, \<^verbatim>\<open>CT_Slot_Command\<close>, the
  protocol of the card, the card, the reader and the serial port, in this order.

  \<^bold>\<open>The theories\<close>, each with the data, the operations, the invariants and the lemmas of its
  part:

  \<^item> \<^verbatim>\<open>Prelude\<close>: C integers, byte order, arrays (\<open>memcpy_at\<close> and \<open>bytes_at\<close> fail outside an
    array), the rules \<open>valid\<close> and \<open>keeps\<close> for state monads, \<open>INVERT_BYTE\<close> of \<^verbatim>\<open>defines.h\<close>.
  \<^item> \<^verbatim>\<open>Interfaces\<close>: the contracts \<open>exact_reader\<close> (a successful read delivers the number of
    bytes asked for; interpreted for the serial port, the reader and the cards), \<open>byte_encoder\<close>
    and \<open>byte_codec\<close> (message formats; interpreted for T=1 blocks and command APDUs).
  \<^item> \<^verbatim>\<open>IoSerial\<close> (\<^verbatim>\<open>io_serial.c\<close>): the port structure and the device are the state, the
    system calls a record parameter \<open>os\<close>.  The hypothesis \<open>posix_line\<close>, where a theorem has it,
    says only that a write sends a prefix of its bytes and that no other call sends any.  Shows
    what is put on the line and which settings the system is asked for; that it applies them
    is not assumed.  \<^verbatim>\<open>ScriptDevice\<close> is a concrete device with scripted answers on which the
    witnesses run.
  \<^item> \<^verbatim>\<open>Atr\<close> (\<^verbatim>\<open>atr.c\<close>) and \<^verbatim>\<open>AtrSync\<close> (\<^verbatim>\<open>atr_sync.c\<close>): both parsers of the answer to
    reset agree on the bytes the card sends, the raw form is these bytes (converted for the
    inverse convention), and the size of a memory card is in range.
  \<^item> \<^verbatim>\<open>Ifd\<close> and \<^verbatim>\<open>IfdCard\<close> (\<^verbatim>\<open>ifd_towitoko.c\<close>): commands to the reader, checksums, rates;
    reset, transmission and the memory operations.  Shows the byte stream of each operation.
  \<^item> \<^verbatim>\<open>IccAsync\<close> (\<^verbatim>\<open>icc_async.c\<close>): cards of both conventions.
  \<^item> \<^verbatim>\<open>Apdu\<close> (\<^verbatim>\<open>apdu.c\<close>): command classification is exactly the decoding of ISO 7816-4.
  \<^item> \<^verbatim>\<open>ProtocolBase\<close>: results \<open>Returns\<close>, \<open>Faults\<close> (an access outside of an array or through
    \<open>NULL\<close>, or a cast to another type) and \<open>Runs_on\<close> (a bound on the turns of a loop is used up),
    with rules for safety (\<open>yields\<close>, \<open>gives\<close>), safety up to named faults (\<open>yields_or\<close>,
    \<open>gives_or\<close>), total correctness (\<open>returns\<close>, and \<open>returns_unless\<close> up to a named fault) and
    termination (\<open>ends\<close>).
  \<^item> \<^verbatim>\<open>ProtocolT0\<close> (\<^verbatim>\<open>protocol_t0.c\<close>): exchange of a TPDU, the seven cases, envelopes and
    GET RESPONSE.  Safety against any card, termination, delivery of the data in whatever
    portions the card announces.
  \<^item> \<^verbatim>\<open>T1Block\<close> and \<^verbatim>\<open>ProtocolT1\<close> (\<^verbatim>\<open>t1_block.c\<close>, \<^verbatim>\<open>protocol_t1.c\<close>): block format, chaining
    in both directions, waiting time extensions.
  \<^item> \<^verbatim>\<open>Pps\<close> (\<^verbatim>\<open>pps.c\<close>): the exchange of parameters leaves a handler that is ready.
  \<^item> \<^verbatim>\<open>IccSync\<close> (\<^verbatim>\<open>icc_sync.c\<close>): probing of memory cards, page-wise verified writing, PINs.
  \<^item> \<^verbatim>\<open>Tlv\<close> (\<^verbatim>\<open>tlv_object.c\<close>): the contract \<open>data_source\<close> for the callback, the search by tag.
  \<^item> \<^verbatim>\<open>ProtocolSync\<close> (\<^verbatim>\<open>protocol_sync.c\<close>): selection of files, reading and writing stay inside
    the selected section of the card; the card interprets \<open>data_source\<close>.
  \<^item> \<^verbatim>\<open>CtSlot\<close> (\<^verbatim>\<open>ct_slot.c\<close>): untyped pointers with type tags, as sum types; the tags tell the
    truth in every state of a slot (\<open>slot_ok\<close>), and commands fault only where \<open>command_fault\<close>
    says.
  \<^item> \<^verbatim>\<open>CardTerminal\<close> (\<^verbatim>\<open>cardterminal.c\<close>, \<^verbatim>\<open>ctbcs.h\<close>): the CT-BCS commands keep a terminal
    consistent (\<open>ct_ok\<close>), and what they answer for each kind of card.
  \<^item> \<^verbatim>\<open>CtList\<close> (\<^verbatim>\<open>ct_list.c\<close>): the linked list in an explicit store implements a finite map;
    the contract \<open>key_table\<close>.
  \<^item> \<^verbatim>\<open>CtApi\<close> (\<^verbatim>\<open>ctapi.c\<close>): the library as a table of open terminals (\<open>opened\<close>), its invariant
    (\<open>api_ok\<close>) over all sequences of calls that return (\<open>api_reach\<close>), isolation of terminals.
  \<^item> \<^verbatim>\<open>IfdHandler\<close> (\<^verbatim>\<open>ifdhandler.c\<close>): the PC/SC calls over the library, with the invariant
    \<open>ifdh_ok\<close> over all sequences of calls that return (\<open>ifdh_reach\<close>).

  \<^bold>\<open>State and operations.\<close>  Every structure is a record, every function a definition of the
  same name, every inner loop a recursive function of its own.  Functions on the line are
  state monads over the port and an arbitrary device state \<open>'d\<close>; what the device, the reader
  and the card do is left open, so that the theorems hold for all of them.  Pointers to
  structures with one owner are the structures themselves; the list of terminals, where
  aliasing matters, has a store with addresses.  Uninitialised local variables are parameters
  (the record \<open>host\<close> collects them at the level of the slots, and every call has its own), of
  which only the sizes of the arrays are assumed (\<open>host_ok\<close>).  Where the program depends on
  what they hold the theorems say so: a selection on a memory card overruns an array when the
  uninitialised \<open>path_length\<close> exceeds 2 (\<open>path_overflow\<close>).  \<^verbatim>\<open>unsigned short\<close> values that may wrap are 16-bit words or reduced by
  \<open>ushort\<close>.  Floating point numbers are rationals; their rounding is a parameter.

  \<^bold>\<open>Bounds and fuel.\<close>  The exchange of T=0 gets a number of turns; 51200 are enough for a
  command that sends data, which is a theorem.  The loops of T=1 get one turn per block; the
  loops over memory cards and TLV objects one per byte of the card, those over the list one
  per address given out, and both are shown to be enough.  The loop of the transmission to
  the reader, like the other loops with a counter, is a total function with a termination
  proof; its result \<open>None\<close> means a read beyond the block and nothing else.  Where a card can keep the driver
  busy forever, as in the GET RESPONSE loop of case 3E and with repeated time extensions of
  T=1, the theorems on safety hold for every number of turns.

  \<^bold>\<open>Not modelled.\<close>  Functions that only free memory, failing memory allocation, debugging output
  and the system log, and the mutexes: calls run one after the other, and races between
  threads are outside of the model.  The configuration is the one of the Linux build;
  \<^verbatim>\<open>PROTOCOL_T0_ISO\<close> and \<^verbatim>\<open>CTAPI_WIN32_COM\<close> are parameters.  The interactive test program
  \<^verbatim>\<open>src/src/test/tester.c\<close> consists of prompts and printing over the CT-API, and is left out.
\<close>

end
